(* ===== verification/Prelude.thy ===== *)
theory Prelude
  imports Main "HOL-Library.AList" "HOL-Library.Signed_Division" "HOL-Library.Multiset"
begin

text \<open>
  Shared vocabulary of the development.

  A Go map is an association list with distinct keys; the order of the list is the order
  in which the next \<open>range\<close> loop visits the entries. Go leaves that order open, so no
  theorem assumes anything about it, and the step relations of the room service, the all-in-one
  server and the lobby have rules that permute it. \<open>mget\<close>, \<open>mput\<close> and \<open>mdel\<close> are the reads and writes of the source;
  \<open>wf_map\<close> says that no key occurs twice.
\<close>

named_theorems gomap_simps "reads of Go maps after writes"
named_theorems wf_intros "well-formedness kept by the operations"

type_synonym ('k, 'v) gomap = "('k \<times> 'v) list"

abbreviation mget :: "('k, 'v) gomap \<Rightarrow> 'k \<Rightarrow> 'v option" where
  "mget m k \<equiv> map_of m k"

abbreviation mput :: "'k \<Rightarrow> 'v \<Rightarrow> ('k, 'v) gomap \<Rightarrow> ('k, 'v) gomap" where
  "mput \<equiv> AList.update"

abbreviation mdel :: "'k \<Rightarrow> ('k, 'v) gomap \<Rightarrow> ('k, 'v) gomap" where
  "mdel \<equiv> AList.delete"

abbreviation mkeys :: "('k, 'v) gomap \<Rightarrow> 'k set" where
  "mkeys m \<equiv> fst ` set m"

definition wf_map :: "('k, 'v) gomap \<Rightarrow> bool" where
  "wf_map m \<longleftrightarrow> distinct (map fst m)"

definition mhas :: "('k, 'v) gomap \<Rightarrow> 'k \<Rightarrow> bool" where
  "mhas m k \<longleftrightarrow> map_of m k \<noteq> None"

text \<open>Reads of a map give the zero value for an absent key.\<close>

definition get_or :: "'v \<Rightarrow> ('k, 'v) gomap \<Rightarrow> 'k \<Rightarrow> 'v" where
  "get_or d m k = (case mget m k of None \<Rightarrow> d | Some v \<Rightarrow> v)"

text \<open>A loop that writes every value of a map in place.\<close>

definition mmap_vals :: "('k \<Rightarrow> 'v \<Rightarrow> 'w) \<Rightarrow> ('k, 'v) gomap \<Rightarrow> ('k, 'w) gomap" where
  "mmap_vals f m = map (\<lambda>(k, v). (k, f k v)) m"

lemma mget_mput [simp, gomap_simps]:
  "mget (mput k v m) k' = (if k' = k then Some v else mget m k')"
  by (simp add: update_conv')

lemma mget_mdel [simp, gomap_simps]:
  "mget (mdel k m) k' = (if k' = k then None else mget m k')"
  by (simp add: delete_conv')

lemma mget_mmap_vals [simp, gomap_simps]:
  "mget (mmap_vals f m) k = map_option (f k) (mget m k)"
  by (induction m) (auto simp: mmap_vals_def)

lemma wf_map_Nil [simp, wf_intros]: "wf_map []"
  by (simp add: wf_map_def)

lemma wf_map_single [simp, wf_intros]: "wf_map [(k, v)]"
  by (simp add: wf_map_def)

lemma wf_map_mput [simp, wf_intros]: "wf_map m \<Longrightarrow> wf_map (mput k v m)"
  by (simp add: wf_map_def distinct_update)

lemma wf_map_mdel [simp, wf_intros]: "wf_map m \<Longrightarrow> wf_map (mdel k m)"
  by (simp add: wf_map_def distinct_delete)

lemma mkeys_mmap_vals [simp]: "map fst (mmap_vals f m) = map fst m"
  by (induction m) (auto simp: mmap_vals_def)

lemma wf_map_mmap_vals [simp, wf_intros]: "wf_map (mmap_vals f m) = wf_map m"
  by (simp add: wf_map_def)

lemma length_mmap_vals [simp]: "length (mmap_vals f m) = length m"
  by (simp add: mmap_vals_def)

lemma mkeys_iff: "k \<in> mkeys m \<longleftrightarrow> mget m k \<noteq> None"
  by (metis map_of_eq_None_iff)

lemma mget_mem: "mget m k = Some v \<Longrightarrow> (k, v) \<in> set m"
  by (rule map_of_SomeD)

lemma wf_map_mem: "wf_map m \<Longrightarrow> (k, v) \<in> set m \<longleftrightarrow> mget m k = Some v"
  by (simp add: wf_map_def)

lemma wf_map_key_mem: "k \<in> set (map fst m) \<longleftrightarrow> mget m k \<noteq> None"
  by (metis list.set_map mkeys_iff)

lemma wf_map_length: "wf_map m \<Longrightarrow> length m = card (mkeys m)"
  by (metis distinct_card length_map list.set_map wf_map_def)

lemma length_mput:
  "length (mput k v m) = (if mget m k = None then Suc (length m) else length m)"
  by (induction m) auto

lemma length_mdel:
  "wf_map m \<Longrightarrow> length (mdel k m) = (if mget m k = None then length m else length m - 1)"
proof (induction m)
  case Nil
  then show ?case by simp
next
  case (Cons p m)
  obtain a b where p: "p = (a, b)" by (cases p)
  have wf: "wf_map m" and nin: "a \<notin> mkeys m"
    using Cons.prems by (auto simp: wf_map_def p)
  have "mdel a m = m" using nin by (rule delete_id)
  moreover have "mget m k \<noteq> None \<Longrightarrow> 0 < length m" by (cases m) auto
  ultimately show ?case using Cons.IH[OF wf] by (auto simp: p)
qed

lemma mdel_Nil_iff: "mdel k m = [] \<longleftrightarrow> mkeys m \<subseteq> {k}"
  by (induction m) auto

lemma mset_wf_map: "mset m = mset m' \<Longrightarrow> wf_map m \<longleftrightarrow> wf_map m'"
proof -
  assume "mset m = mset m'"
  then have "mset (map fst m) = mset (map fst m')" by simp
  then show ?thesis unfolding wf_map_def by (rule mset_eq_imp_distinct_iff)
qed

lemma mset_mget:
  assumes "mset m = mset m'" and "wf_map m"
  shows "mget m = mget m'"
proof (rule ext)
  fix k
  have wf': "wf_map m'" using assms mset_wf_map by blast
  have "set m = set m'" using assms(1) by (rule mset_eq_setD)
  then have "mget m k = Some v \<longleftrightarrow> mget m' k = Some v" for v
    using wf_map_mem[OF assms(2)] wf_map_mem[OF wf'] by blast
  then show "mget m k = mget m' k" by (metis option.exhaust)
qed

text \<open>A Go function with an error result: \<open>Inl\<close> the error, \<open>Inr\<close> the value.\<close>

type_synonym ('e, 'a) go_result = "'e + 'a"

lemma foldl_invariant:
  assumes "P a" and "\<And>a x. P a \<Longrightarrow> x \<in> set xs \<Longrightarrow> P (f a x)"
  shows "P (foldl f a xs)"
  using assms by (induction xs arbitrary: a) auto

text \<open>Go's \<open>%\<close> and \<open>/\<close> on integers truncate towards zero.\<close>

lemma smod_2_nonneg: "0 \<le> (r::int) \<Longrightarrow> r smod 2 = r mod 2"
  by (simp add: signed_modulo_int_def sgn_if)

section \<open>Tables with an index\<close>

text \<open>
  The interface between a table of objects and the index that finds an object by its member: what the index
  names is in the table and has the member. The servers' maps of players to rooms are such indexes.
\<close>

locale seat_index =
  fixes objects :: "'s \<Rightarrow> ('k, 'o) gomap" and index :: "'s \<Rightarrow> ('m, 'k) gomap"
    and members :: "'o \<Rightarrow> 'm set" and inv :: "'s \<Rightarrow> bool"
  assumes lookup:
    "inv s \<Longrightarrow> mget (index s) p = Some k \<Longrightarrow> \<exists>obj. mget (objects s) k = Some obj \<and> p \<in> members obj"
begin

lemma no_dangling: "inv s \<Longrightarrow> mget (objects s) k = None \<Longrightarrow> mget (index s) p \<noteq> Some k"
  using lookup by fastforce

lemma unseated: "inv s \<Longrightarrow> \<forall>k obj. mget (objects s) k = Some obj \<longrightarrow> p \<notin> members obj \<Longrightarrow> mget (index s) p = None"
  using lookup by (metis option.exhaust)

end

text \<open>An index that knows every member; then no member belongs to two objects.\<close>

locale registry = seat_index +
  assumes registered: "inv s \<Longrightarrow> mget (objects s) k = Some obj \<Longrightarrow> p \<in> members obj \<Longrightarrow> mget (index s) p = Some k"
begin

lemma one_object:
  "inv s \<Longrightarrow> mget (objects s) k = Some a \<Longrightarrow> mget (objects s) k' = Some b \<Longrightarrow>
     p \<in> members a \<Longrightarrow> p \<in> members b \<Longrightarrow> k = k' \<and> a = b"
  using registered[of s k a p] registered[of s k' b p] by auto

lemma members_disjoint:
  "inv s \<Longrightarrow> mget (objects s) k = Some a \<Longrightarrow> mget (objects s) k' = Some b \<Longrightarrow> k \<noteq> k' \<Longrightarrow>
     members a \<inter> members b = {}"
  using one_object by blast

lemma index_total:
  "inv s \<Longrightarrow> mget (index s) p = None \<longleftrightarrow> (\<forall>k obj. mget (objects s) k = Some obj \<longrightarrow> p \<notin> members obj)"
  using unseated[of s p] registered[of s _ _ p] by (metis option.distinct(1))

end

end
