(* ===== verification/GoFloat.thy ===== *)
theory GoFloat
  imports Prelude "HOL-Library.Log_Nat" Complex_Main
begin

text \<open>
  Go's \<open>float64\<close>: IEEE 754 binary64 with round to nearest, ties to even. A finite value is
  the rational it denotes, so the two zeros are one (nothing in the modelled code tells
  them apart). Every operation computes the exact rational result and rounds it once, as
  amd64 does without fused multiply-add; comparisons with \<open>NaN\<close> are false.
\<close>

datatype float64 = NaN | PosInf | NegInf | Flt rat

subsection \<open>Powers of two\<close>

definition pow2 :: "int \<Rightarrow> rat" where
  "pow2 e = (if 0 \<le> e then 2 ^ nat e else 1 / 2 ^ nat (- e))"

lemma pow2_pos [simp]: "0 < pow2 e"
  by (simp add: pow2_def)

lemma pow2_nz [simp]: "pow2 e \<noteq> 0"
  using pow2_pos[of e] by linarith

lemma pow2_powi: "pow2 e = 2 powi e"
  by (auto simp: pow2_def power_int_def inverse_eq_divide power_divide)

lemma pow2_add: "pow2 (a + b) = pow2 a * pow2 b"
  by (simp add: pow2_powi power_int_add)

lemma pow2_diff: "pow2 (a - b) = pow2 a / pow2 b"
  by (simp add: pow2_powi power_int_diff)

lemma pow2_mono: "a \<le> b \<Longrightarrow> pow2 a \<le> pow2 b"
  by (simp add: pow2_powi power_int_increasing)

lemma pow2_strict_mono: "a < b \<Longrightarrow> pow2 a < pow2 b"
  by (simp add: pow2_powi power_int_strict_increasing)

lemma pow2_le_iff: "pow2 a \<le> pow2 b \<longleftrightarrow> a \<le> b"
  by (meson linorder_not_less pow2_mono pow2_strict_mono)

lemma pow2_less_iff: "pow2 a < pow2 b \<longleftrightarrow> a < b"
  by (meson linorder_not_less pow2_mono pow2_strict_mono)

lemma pow2_nat: "0 \<le> k \<Longrightarrow> pow2 k = of_int (2 ^ nat k)"
  by (simp add: pow2_def)

lemma pow2_of_nat: "pow2 (int n) = 2 ^ n"
  by (simp add: pow2_def)

subsection \<open>The exponent and rounding to an integer\<close>

definition expo :: "rat \<Rightarrow> int" where
  "expo q =
     (let (n, d) = quotient_of \<bar>q\<bar>; k = bitlen n - bitlen d
      in if pow2 k \<le> \<bar>q\<bar> then k else k - 1)"

lemma expo_bounds:
  assumes "q \<noteq> 0"
  shows "pow2 (expo q) \<le> \<bar>q\<bar>" and "\<bar>q\<bar> < pow2 (expo q + 1)"
proof -
  obtain n d where nd: "quotient_of \<bar>q\<bar> = (n, d)" by (cases "quotient_of \<bar>q\<bar>")
  have d: "0 < d" using quotient_of_denom_pos[OF nd] .
  have q: "\<bar>q\<bar> = of_int n / of_int d" using quotient_of_div[OF nd] .
  have "0 < \<bar>q\<bar>" using assms by simp
  then have n: "0 < n" using d by (simp add: q zero_less_divide_iff)
  have bit: "pow2 (bitlen x - 1) \<le> of_int x \<and> (of_int x :: rat) < pow2 (bitlen x)" if "0 < x" for x
  proof -
    have "1 \<le> bitlen x" using that by (simp add: bitlen_alt_def)
    moreover have "(of_int (2 ^ nat (bitlen x - 1)) :: rat) \<le> of_int x"
      "(of_int x :: rat) < of_int (2 ^ nat (bitlen x))"
      using bitlen_bounds[OF that] by (simp_all only: of_int_le_iff of_int_less_iff)
    ultimately show ?thesis by (simp add: pow2_nat)
  qed
  let ?k = "bitlen n - bitlen d"
  have pd: "(0::rat) < of_int d" using d by simp
  have up: "\<bar>q\<bar> < pow2 (?k + 1)"
  proof -
    have "\<bar>q\<bar> * pow2 (bitlen d - 1) \<le> \<bar>q\<bar> * of_int d"
      using bit[OF d] by (intro mult_left_mono) auto
    also have "\<dots> = of_int n" using pd by (simp add: q)
    also have "\<dots> < pow2 (bitlen n)" using bit[OF n] by simp
    finally have "\<bar>q\<bar> < pow2 (bitlen n) / pow2 (bitlen d - 1)"
      by (simp add: pos_less_divide_eq)
    then show ?thesis by (simp add: pow2_diff[symmetric] algebra_simps)
  qed
  have lo: "pow2 (?k - 1) \<le> \<bar>q\<bar>"
  proof -
    have "pow2 (bitlen n - 1) \<le> of_int n" using bit[OF n] by simp
    also have "\<dots> = \<bar>q\<bar> * of_int d" using pd by (simp add: q)
    also have "\<dots> \<le> \<bar>q\<bar> * pow2 (bitlen d)"
      using bit[OF d] by (intro mult_left_mono) auto
    finally have "pow2 (bitlen n - 1) / pow2 (bitlen d) \<le> \<bar>q\<bar>"
      by (simp add: pos_divide_le_eq)
    then show ?thesis by (simp add: pow2_diff[symmetric] algebra_simps)
  qed
  have e: "expo q = (if pow2 ?k \<le> \<bar>q\<bar> then ?k else ?k - 1)"
    by (simp add: expo_def nd Let_def)
  show "pow2 (expo q) \<le> \<bar>q\<bar>" using lo by (simp add: e)
  show "\<bar>q\<bar> < pow2 (expo q + 1)" using up by (simp add: e)
qed

lemma expo_le:
  assumes "q \<noteq> 0" and "\<bar>q\<bar> \<le> pow2 k"
  shows "expo q \<le> k"
  using expo_bounds(1)[OF assms(1)] assms(2) pow2_le_iff by (meson order_trans)

definition round_even :: "rat \<Rightarrow> int" where
  "round_even x =
     (let f = \<lfloor>x\<rfloor>; r = x - of_int f
      in if r < 1 / 2 then f else if 1 / 2 < r then f + 1 else if even f then f else f + 1)"

lemma round_even_of_int [simp]: "round_even (of_int n) = n"
  by (simp add: round_even_def)

lemma round_even_le: "x \<le> of_int n \<Longrightarrow> round_even x \<le> n"
proof -
  assume le: "x \<le> of_int n"
  have f: "\<lfloor>x\<rfloor> \<le> n" using le by linarith
  show ?thesis
  proof (cases "\<lfloor>x\<rfloor> = n")
    case True
    then have "x = of_int n" using le by linarith
    then show ?thesis by simp
  next
    case False
    with f show ?thesis by (auto simp: round_even_def Let_def)
  qed
qed

lemma round_even_ge: "of_int n \<le> x \<Longrightarrow> n \<le> round_even x"
proof -
  assume "of_int n \<le> x"
  then have "n \<le> \<lfloor>x\<rfloor>" by (simp add: le_floor_iff)
  then show ?thesis by (auto simp: round_even_def Let_def)
qed

subsection \<open>Rounding to binary64\<close>

definition ulp_exp :: "rat \<Rightarrow> int" where
  "ulp_exp q = max (expo q) (- 1022) - 52"

definition rnd64 :: "rat \<Rightarrow> float64" where
  "rnd64 q =
     (if q = 0 then Flt 0
      else let e = ulp_exp q; r = of_int (round_even (q / pow2 e)) * pow2 e
           in if pow2 1024 \<le> \<bar>r\<bar> then (if 0 < q then PosInf else NegInf) else Flt r)"

lemma rnd64_0 [simp]: "rnd64 0 = Flt 0"
  by (simp add: rnd64_def)

text \<open>A value bounded by a power of two rounds to a value within the same bound.\<close>

lemma rnd64_bound:
  assumes "\<bar>q\<bar> \<le> pow2 k" and "- 1022 \<le> k" and "k \<le> 1023"
  shows "\<exists>r. rnd64 q = Flt r \<and> \<bar>r\<bar> \<le> pow2 k"
proof (cases "q = 0")
  case True
  then show ?thesis by (simp add: pow2_pos less_imp_le)
next
  case False
  let ?e = "ulp_exp q"
  have e: "?e \<le> k" using expo_le[OF False assms(1)] assms(2) by (simp add: ulp_exp_def)
  have N: "pow2 k / pow2 ?e = of_int (2 ^ nat (k - ?e))"
    using e by (simp add: pow2_diff[symmetric] pow2_nat)
  have "q / pow2 ?e \<le> pow2 k / pow2 ?e" "- (pow2 k / pow2 ?e) \<le> q / pow2 ?e"
    using assms(1) divide_right_mono[of q "pow2 k" "pow2 ?e"] divide_right_mono[of "- pow2 k" q "pow2 ?e"]
    by (simp_all add: abs_le_iff less_imp_le)
  then have le: "round_even (q / pow2 ?e) \<le> 2 ^ nat (k - ?e)"
    and ge: "- (2 ^ nat (k - ?e)) \<le> round_even (q / pow2 ?e)"
    using round_even_le[of "q / pow2 ?e" "2 ^ nat (k - ?e)"]
      round_even_ge[of "- (2 ^ nat (k - ?e))" "q / pow2 ?e"] by (simp_all only: N of_int_minus)
  have "\<bar>of_int (round_even (q / pow2 ?e)) :: rat\<bar> \<le> of_int (2 ^ nat (k - ?e))"
    using le ge by (simp only: of_int_abs[symmetric] of_int_le_iff)
  then have "\<bar>of_int (round_even (q / pow2 ?e)) * pow2 ?e\<bar> \<le> (pow2 k / pow2 ?e) * pow2 ?e"
    unfolding N abs_mult by (intro mult_mono) (auto simp: less_imp_le)
  then have bound: "\<bar>of_int (round_even (q / pow2 ?e)) * pow2 ?e\<bar> \<le> pow2 k" by simp
  moreover have "pow2 k < pow2 1024" using assms(3) by (simp add: pow2_less_iff)
  ultimately show ?thesis using False by (simp add: rnd64_def Let_def)
qed

text \<open>A binary64 value is left alone.\<close>

lemma rnd64_exact:
  assumes q: "q = of_int m * pow2 k" and m: "\<bar>m\<bar> \<le> 2 ^ 53" and k: "- 1074 \<le> k" "k \<le> 960"
  shows "rnd64 q = Flt q"
proof (cases "q = 0")
  case True
  then show ?thesis by simp
next
  case False
  let ?e = "ulp_exp q"
  have "(of_int \<bar>m\<bar> :: rat) \<le> of_int (2 ^ 53)" using m by (simp only: of_int_le_iff)
  then have "\<bar>of_int m :: rat\<bar> \<le> pow2 53" by (simp add: pow2_def)
  then have absq: "\<bar>q\<bar> \<le> pow2 (53 + k)"
    unfolding q abs_mult pow2_add by (intro mult_mono) (auto simp: less_imp_le)
  have ex: "expo q \<le> 53 + k" by (rule expo_le[OF False absq])
  obtain j where j: "q / pow2 ?e = of_int j"
  proof (cases "?e \<le> k")
    case True
    then have "q / pow2 ?e = of_int (m * 2 ^ nat (k - ?e))"
      using pow2_diff[of k ?e] pow2_nat[of "k - ?e"]
      by (simp add: q times_divide_eq_right[symmetric] del: times_divide_eq_right)
    then show ?thesis using that by blast
  next
    case f: False
    then have eq: "expo q = 53 + k" and e: "?e = k + 1" using ex k by (auto simp: ulp_exp_def)
    have "\<bar>q\<bar> = pow2 (53 + k)" using expo_bounds(1)[OF False] absq eq by simp
    then have "q = pow2 (53 + k) \<or> q = - pow2 (53 + k)" by linarith
    moreover have "pow2 (53 + k) / pow2 (k + 1) = of_int (2 ^ 52)"
      by (simp add: pow2_diff[symmetric]) (simp add: pow2_def)
    ultimately have "q / pow2 ?e = of_int (2 ^ 52) \<or> q / pow2 ?e = of_int (- (2 ^ 52))"
      unfolding e by auto
    then show ?thesis using that by blast
  qed
  have r: "of_int (round_even (q / pow2 ?e)) * pow2 ?e = q"
    by (metis j nonzero_eq_divide_eq pow2_nz round_even_of_int)
  have "pow2 (53 + k) < pow2 1024" using k by (simp add: pow2_less_iff)
  then have "\<not> pow2 1024 \<le> \<bar>q\<bar>" using absq by linarith
  with False r show ?thesis by (simp add: rnd64_def Let_def)
qed

lemma rnd64_int: "\<bar>n\<bar> \<le> 2 ^ 53 \<Longrightarrow> rnd64 (of_int n) = Flt (of_int n)"
  by (rule rnd64_exact[of _ n 0]) (simp_all add: pow2_def)

lemma rnd64_half: "\<bar>n\<bar> \<le> 2 ^ 53 \<Longrightarrow> rnd64 (of_int n / 2) = Flt (of_int n / 2)"
  by (rule rnd64_exact[of _ n "- 1"]) (simp_all add: pow2_def)

subsection \<open>The operations of the language and of package math\<close>

instantiation float64 :: "{plus, minus, uminus, times, inverse, ord}"
begin

fun plus_float64 :: "float64 \<Rightarrow> float64 \<Rightarrow> float64" where
  "Flt a + Flt b = rnd64 (a + b)"
| "NaN + y = NaN"
| "x + NaN = NaN"
| "PosInf + NegInf = NaN"
| "NegInf + PosInf = NaN"
| "PosInf + y = PosInf"
| "NegInf + y = NegInf"
| "Flt a + y = y"

fun uminus_float64 :: "float64 \<Rightarrow> float64" where
  "- Flt a = Flt (- a)"
| "- NaN = NaN"
| "- PosInf = NegInf"
| "- NegInf = PosInf"

definition minus_float64 :: "float64 \<Rightarrow> float64 \<Rightarrow> float64" where
  "x - y = x + (- y :: float64)"

fun times_float64 :: "float64 \<Rightarrow> float64 \<Rightarrow> float64" where
  "Flt a * Flt b = rnd64 (a * b)"
| "NaN * y = NaN"
| "x * NaN = NaN"
| "Flt a * y = (if a = 0 then NaN else if 0 < a then y else - y)"
| "x * Flt b = (if b = 0 then NaN else if 0 < b then x else - x)"
| "PosInf * y = y"
| "NegInf * y = - y"

fun divide_float64 :: "float64 \<Rightarrow> float64 \<Rightarrow> float64" where
  "divide_float64 (Flt a) (Flt b) =
     (if b = 0 then (if a = 0 then NaN else if 0 < a then PosInf else NegInf) else rnd64 (a / b))"
| "divide_float64 NaN y = NaN"
| "divide_float64 x NaN = NaN"
| "divide_float64 (Flt a) y = Flt 0"
| "divide_float64 PosInf (Flt b) = (if b < 0 then NegInf else PosInf)"
| "divide_float64 NegInf (Flt b) = (if b < 0 then PosInf else NegInf)"
| "divide_float64 x y = NaN"

definition inverse_float64 :: "float64 \<Rightarrow> float64" where
  "inverse_float64 x = divide (Flt 1) x"

fun less_eq_float64 :: "float64 \<Rightarrow> float64 \<Rightarrow> bool" where
  "Flt a \<le> Flt b \<longleftrightarrow> a \<le> b"
| "NaN \<le> y \<longleftrightarrow> False"
| "x \<le> NaN \<longleftrightarrow> False"
| "NegInf \<le> y \<longleftrightarrow> True"
| "x \<le> PosInf \<longleftrightarrow> True"
| "PosInf \<le> y \<longleftrightarrow> False"
| "Flt a \<le> NegInf \<longleftrightarrow> False"

fun less_float64 :: "float64 \<Rightarrow> float64 \<Rightarrow> bool" where
  "Flt a < Flt b \<longleftrightarrow> a < b"
| "NaN < y \<longleftrightarrow> False"
| "x < NaN \<longleftrightarrow> False"
| "PosInf < y \<longleftrightarrow> False"
| "x < NegInf \<longleftrightarrow> False"
| "NegInf < y \<longleftrightarrow> True"
| "Flt a < PosInf \<longleftrightarrow> True"

instance ..

end

fun math_Abs :: "float64 \<Rightarrow> float64" where
  "math_Abs (Flt a) = Flt \<bar>a\<bar>"
| "math_Abs NaN = NaN"
| "math_Abs x = PosInf"

text \<open>\<open>math.Round\<close>: to the nearest integer, halves away from zero.\<close>

definition round_away :: "rat \<Rightarrow> int" where
  "round_away x = (if 0 \<le> x then \<lfloor>x + 1 / 2\<rfloor> else - \<lfloor>- x + 1 / 2\<rfloor>)"

fun math_Round :: "float64 \<Rightarrow> float64" where
  "math_Round (Flt a) = Flt (of_int (round_away a))"
| "math_Round x = x"

text \<open>
  The conversion \<open>int(f)\<close> truncates. Where the value does not fit, Go leaves the result to the
  implementation; amd64 gives the least 64-bit integer.
\<close>

definition trunc_rat :: "rat \<Rightarrow> int" where
  "trunc_rat x = (if 0 \<le> x then \<lfloor>x\<rfloor> else - \<lfloor>- x\<rfloor>)"

fun to_int :: "float64 \<Rightarrow> int" where
  "to_int (Flt a) =
     (let t = trunc_rat a in if - (2 ^ 63) \<le> t \<and> t < 2 ^ 63 then t else - (2 ^ 63))"
| "to_int x = - (2 ^ 63)"

text \<open>The conversion \<open>float64(n)\<close> of an integer, and the largest finite value.\<close>

definition from_int :: "int \<Rightarrow> float64" where
  "from_int n = rnd64 (of_int n)"

definition math_MaxFloat64 :: float64 where
  "math_MaxFloat64 = Flt (pow2 1024 - pow2 971)"

definition is_nan :: "float64 \<Rightarrow> bool" where
  "is_nan x \<longleftrightarrow> x = NaN"

lemma trunc_rat_of_int [simp]: "trunc_rat (of_int n) = n"
  by (simp add: trunc_rat_def of_int_minus[symmetric] del: of_int_minus)

lemma to_int_of_int [simp]: "- (2 ^ 63) \<le> n \<Longrightarrow> n < 2 ^ 63 \<Longrightarrow> to_int (Flt (of_int n)) = n"
  by simp

lemma from_int_exact: "\<bar>n\<bar> \<le> 2 ^ 53 \<Longrightarrow> from_int n = Flt (of_int n)"
  by (simp add: from_int_def rnd64_int)

lemma round_away_of_int [simp]: "round_away (of_int n) = n"
  by (simp add: round_away_def floor_eq_iff)

lemma round_away_half: "0 \<le> n \<Longrightarrow> round_away (of_int n + 1 / 2) = n + 1"
  by (simp add: round_away_def floor_eq_iff)

lemma to_int_round:
  "round_away q = n \<Longrightarrow> - (2 ^ 63) \<le> n \<Longrightarrow> n < 2 ^ 63 \<Longrightarrow> to_int (math_Round (Flt q)) = n"
  using to_int_of_int[of n] by (simp del: to_int.simps)

lemma less_float64_asym: "(x::float64) < y \<Longrightarrow> \<not> y \<le> x"
  by (cases x; cases y) auto

lemma not_less_float64: "\<not> is_nan x \<Longrightarrow> \<not> is_nan y \<Longrightarrow> \<not> x < y \<longleftrightarrow> y \<le> (x::float64)"
  by (cases x; cases y) (auto simp: is_nan_def)

lemma float64_refl: "\<not> is_nan x \<Longrightarrow> x \<le> (x::float64)"
  by (cases x) (auto simp: is_nan_def)

lemma less_float64_trans: "(x::float64) < y \<Longrightarrow> y < z \<Longrightarrow> x < z"
  by (cases x; cases y; cases z) auto

subsection \<open>Magnitudes\<close>

text \<open>\<open>fbound k x\<close>: a finite value of magnitude at most two to the \<open>k\<close>.\<close>

definition fbound :: "int \<Rightarrow> float64 \<Rightarrow> bool" where
  "fbound k x \<longleftrightarrow> (case x of Flt a \<Rightarrow> \<bar>a\<bar> \<le> pow2 k | _ \<Rightarrow> False)"

lemma fbound_Flt [simp]: "fbound k (Flt a) \<longleftrightarrow> \<bar>a\<bar> \<le> pow2 k"
  by (simp add: fbound_def)

lemma fbound_elim:
  assumes "fbound k x"
  obtains a where "x = Flt a" and "\<bar>a\<bar> \<le> pow2 k"
  using assms by (cases x) (auto simp: fbound_def)

lemma fbound_rnd64: "\<bar>q\<bar> \<le> pow2 k \<Longrightarrow> - 1022 \<le> k \<Longrightarrow> k \<le> 1023 \<Longrightarrow> fbound k (rnd64 q)"
  using rnd64_bound[of q k] by auto

lemma fbound_add:
  assumes "fbound k x" and "fbound k y" and "- 1022 \<le> k" and "k \<le> 1022"
  shows "fbound (k + 1) (x + y)"
proof -
  obtain a b where "x = Flt a" "\<bar>a\<bar> \<le> pow2 k" "y = Flt b" "\<bar>b\<bar> \<le> pow2 k"
    using assms(1,2) by (metis fbound_elim)
  moreover have "pow2 (k + 1) = 2 * pow2 k" by (simp add: pow2_add) (simp add: pow2_def)
  ultimately show ?thesis using assms(3,4) by (auto intro!: fbound_rnd64)
qed

lemma fbound_uminus [simp]: "fbound k (- x) = fbound k x"
  by (cases x) (auto simp: fbound_def)

lemma fbound_minus:
  "fbound k x \<Longrightarrow> fbound k y \<Longrightarrow> - 1022 \<le> k \<Longrightarrow> k \<le> 1022 \<Longrightarrow> fbound (k + 1) (x - y)"
  by (simp add: minus_float64_def fbound_add)

lemma fbound_times:
  assumes "fbound j x" and "fbound k y" and "- 1022 \<le> j + k" and "j + k \<le> 1023"
  shows "fbound (j + k) (x * y)"
proof -
  obtain a b where "x = Flt a" "\<bar>a\<bar> \<le> pow2 j" "y = Flt b" "\<bar>b\<bar> \<le> pow2 k"
    using assms(1,2) by (metis fbound_elim)
  moreover from this have "\<bar>a * b\<bar> \<le> pow2 (j + k)"
    unfolding pow2_add abs_mult by (intro mult_mono) (auto simp: less_imp_le)
  ultimately show ?thesis using assms(3,4) by (auto intro!: fbound_rnd64)
qed

lemma fbound_mono: "fbound j x \<Longrightarrow> j \<le> k \<Longrightarrow> fbound k x"
  by (erule fbound_elim) (auto dest: pow2_mono)

lemma fbound_less_max: "fbound k x \<Longrightarrow> k \<le> 1022 \<Longrightarrow> x < math_MaxFloat64"
proof (erule fbound_elim)
  fix a assume "k \<le> 1022" "x = Flt a" "\<bar>a\<bar> \<le> pow2 k"
  moreover have "pow2 1024 = pow2 1023 + pow2 1023" "pow2 971 < pow2 1023" "pow2 k < pow2 1023"
    using \<open>k \<le> 1022\<close> pow2_add[of 1023 1] by (simp_all add: pow2_less_iff) (simp add: pow2_def)
  ultimately show ?thesis by (simp add: math_MaxFloat64_def)
qed

lemma fbound_not_nan: "fbound k x \<Longrightarrow> \<not> is_nan x"
  by (cases x) (auto simp: fbound_def is_nan_def)

text \<open>Rounding keeps the sign, and does not pass an integer that needs no rounding.\<close>

lemma rnd64_le_int:
  assumes "q \<le> of_int n" and "\<bar>q\<bar> < pow2 52"
  shows "rnd64 q \<le> Flt (of_int n)"
proof (cases "q = 0")
  case True
  then show ?thesis using assms(1) by simp
next
  case False
  let ?e = "ulp_exp q"
  have "expo q \<le> 52" by (rule expo_le[OF False]) (use assms(2) in simp)
  then have e: "?e \<le> 0" by (simp add: ulp_exp_def)
  have N: "of_int n / pow2 ?e = (of_int (n * 2 ^ nat (- ?e)) :: rat)"
    using e by (simp add: pow2_def)
  have "q / pow2 ?e \<le> of_int (n * 2 ^ nat (- ?e))"
    unfolding N[symmetric] using assms(1) by (intro divide_right_mono) (simp_all add: less_imp_le)
  then have "round_even (q / pow2 ?e) \<le> n * 2 ^ nat (- ?e)" by (rule round_even_le)
  then have "(of_int (round_even (q / pow2 ?e)) :: rat) \<le> of_int n / pow2 ?e"
    unfolding N by (simp only: of_int_le_iff)
  then have "of_int (round_even (q / pow2 ?e)) * pow2 ?e \<le> (of_int n :: rat)"
    by (simp add: pos_le_divide_eq)
  moreover obtain r where "rnd64 q = Flt r" using rnd64_bound[of q 52] assms(2) by auto
  ultimately show ?thesis using False by (auto simp: rnd64_def Let_def split: if_splits)
qed

lemma rnd64_nonpos: "q \<le> 0 \<Longrightarrow> \<bar>q\<bar> \<le> pow2 k \<Longrightarrow> k < 52 \<Longrightarrow> rnd64 q \<le> Flt 0"
  using rnd64_le_int[of q 0] pow2_strict_mono[of k 52] by simp

lemma rnd64_nonneg:
  assumes "0 \<le> q" and "\<bar>q\<bar> \<le> pow2 k" and "- 1022 \<le> k" and "k \<le> 1023"
  shows "Flt 0 \<le> rnd64 q"
proof -
  obtain r where r: "rnd64 q = Flt r" using rnd64_bound[OF assms(2-4)] by auto
  have "0 \<le> q / pow2 (ulp_exp q)" using assms(1) by (simp add: less_imp_le)
  then have "0 \<le> round_even (q / pow2 (ulp_exp q))" using round_even_ge[of 0] by simp
  then show ?thesis using r by (auto simp: rnd64_def Let_def less_imp_le split: if_splits)
qed

text \<open>Evaluation on numbers that need no rounding.\<close>

named_theorems float_eval "evaluation of float64 arithmetic on small integers and halves"

lemma rnd64_numeral [float_eval]: "numeral n \<le> (2 ^ 53 :: int) \<Longrightarrow> rnd64 (numeral n) = Flt (numeral n)"
  using rnd64_int[of "numeral n"] by simp

lemma rnd64_neg_numeral [float_eval]:
  "numeral n \<le> (2 ^ 53 :: int) \<Longrightarrow> rnd64 (- numeral n) = Flt (- numeral n)"
  using rnd64_int[of "- numeral n"] by simp

lemma rnd64_one [float_eval]: "rnd64 1 = Flt 1" "rnd64 (- 1) = Flt (- 1)"
  using rnd64_int[of 1] rnd64_int[of "- 1"] by simp_all

text \<open>
  \<open>Duration.Seconds\<close> for a duration in nanoseconds, and its integer part \<open>int64(d.Seconds())\<close>.
\<close>

definition Seconds :: "int \<Rightarrow> float64" where
  "Seconds d = from_int (d sdiv 1000000000) + from_int (d smod 1000000000) / from_int 1000000000"

definition int_Seconds :: "int \<Rightarrow> int" where
  "int_Seconds d = to_int (Seconds d)"

end
