(* ===== verification/Board.thy ===== *)
theory Board
  imports GoFloat
begin

text \<open>
  The hexagonal board of \<open>internal/gameplay/engine.go\<close>: 14 rows of 17 cells, a cell holding
  a colour or \<open>-1\<close>, odd rows shifted right by one radius. This theory holds the geometry
  (cell centres, the nearest cell of a point, neighbours), the cell updates, and the two
  searches for an empty cell. Coordinates are \<open>int\<close> as in the source.
\<close>

type_synonym cell = "int \<times> int"
type_synonym board = "int list list"

definition gbRows :: int where "gbRows = 14"
definition gbCols :: int where "gbCols = 17"
definition gbRadius :: float64 where "gbRadius = Flt 16"
definition gbDiam :: float64 where "gbDiam = Flt 32"
definition gbRowGap :: float64 where "gbRowGap = Flt 28"
definition gbBoardW :: float64 where "gbBoardW = Flt 560"
definition gbShooterY :: float64 where "gbShooterY = Flt 688"

lemmas gb_defs = gbRows_def gbCols_def gbRadius_def gbDiam_def gbRowGap_def gbBoardW_def gbShooterY_def

definition inBoard :: "int \<Rightarrow> int \<Rightarrow> bool" where
  "inBoard r c \<longleftrightarrow> r \<ge> 0 \<and> r < gbRows \<and> c \<ge> 0 \<and> c < gbCols"

abbreviation in_board :: "cell \<Rightarrow> bool" where
  "in_board p \<equiv> inBoard (fst p) (snd p)"

text \<open>
  A board read \<open>board[r][c]\<close> and a write. Every index the code uses is inside the board
  (the bounds lemmas below), so no read or write panics on a \<open>wf_board\<close>.
\<close>

definition cell_at :: "board \<Rightarrow> int \<Rightarrow> int \<Rightarrow> int" where
  "cell_at b r c = (b ! nat r) ! nat c"

definition set_cell :: "board \<Rightarrow> int \<Rightarrow> int \<Rightarrow> int \<Rightarrow> board" where
  "set_cell b r c v = b[nat r := (b ! nat r)[nat c := v]]"

definition wf_board :: "board \<Rightarrow> bool" where
  "wf_board b \<longleftrightarrow> length b = nat gbRows \<and> (\<forall>row \<in> set b. length row = nat gbCols)"

text \<open>The loops \<open>for r \<dots> for c\<close> over the whole board visit the cells in this order.\<close>

definition row_cells :: "int \<Rightarrow> cell list" where
  "row_cells r = map (Pair r) [0..gbCols - 1]"

definition all_cells :: "cell list" where
  "all_cells = concat (map row_cells [0..gbRows - 1])"

lemma set_row_cells: "set (row_cells r) = {(r, c) | c. 0 \<le> c \<and> c < gbCols}"
  by (auto simp: row_cells_def gb_defs)

lemma set_all_cells [simp]: "p \<in> set all_cells \<longleftrightarrow> in_board p"
  by (cases p) (auto simp: all_cells_def set_row_cells inBoard_def gb_defs)

lemma distinct_all_cells [simp]: "distinct all_cells"
  by (simp add: all_cells_def row_cells_def gb_defs upto.simps)

lemma finite_in_board [simp]: "finite {p. in_board p}"
  by (metis (mono_tags, lifting) List.finite_set Collect_cong set_all_cells Collect_mem_eq)

lemma set_cell_wf [simp, wf_intros]: "wf_board b \<Longrightarrow> inBoard r c \<Longrightarrow> wf_board (set_cell b r c v)"
  unfolding wf_board_def set_cell_def inBoard_def
  by (auto dest!: set_update_subset_insert [THEN subsetD] simp: nth_mem)

lemma cell_at_set_cell [simp]:
  assumes "wf_board b" and "inBoard r c" and "inBoard r' c'"
  shows "cell_at (set_cell b r c v) r' c' = (if r' = r \<and> c' = c then v else cell_at b r' c')"
  using assms
  by (auto simp: cell_at_def set_cell_def wf_board_def inBoard_def nth_list_update eq_nat_nat_iff
      split: if_splits)

subsection \<open>Geometry\<close>

text \<open>\<open>cellCenter\<close>: the point at the centre of a cell.\<close>

definition row_shift :: "int \<Rightarrow> float64" where
  "row_shift row = (if row smod 2 = 1 then gbRadius else Flt 0)"

definition cellCenter :: "int \<Rightarrow> int \<Rightarrow> float64 \<times> float64" where
  "cellCenter row col =
     (let shift = row_shift row
      in (gbRadius + shift + from_int col * gbDiam, gbRadius + from_int row * gbRowGap))"

definition clamp_index :: "int \<Rightarrow> int \<Rightarrow> int" where
  "clamp_index n i = (let i' = (if i < 0 then 0 else i) in if i' \<ge> n then n - 1 else i')"

text \<open>\<open>nearestCell\<close>: a point's row, then its column in that row, both clamped.\<close>

definition nearestCell :: "float64 \<Rightarrow> float64 \<Rightarrow> int \<times> int" where
  "nearestCell x y =
     (let row = clamp_index gbRows (to_int (math_Round ((y - gbRadius) / gbRowGap)));
          shift = row_shift row;
          col = clamp_index gbCols (to_int (math_Round ((x - gbRadius - shift) / gbDiam)))
      in (row, col))"

definition clampCell :: "int \<Rightarrow> int \<Rightarrow> int \<times> int" where
  "clampCell row col = (clamp_index gbRows row, clamp_index gbCols col)"

definition nearestColForRowX :: "int \<Rightarrow> float64 \<Rightarrow> int" where
  "nearestColForRowX row x =
     (let shift = row_shift row;
          col = to_int (math_Round ((x - gbRadius - shift) / gbDiam))
      in if col < 0 then 0 else if col \<ge> gbCols then gbCols - 1 else col)"

definition neighbors :: "int \<Rightarrow> int \<Rightarrow> cell list" where
  "neighbors r c =
     (if r smod 2 = 1
      then [(r - 1, c), (r - 1, c + 1), (r, c - 1), (r, c + 1), (r + 1, c), (r + 1, c + 1)]
      else [(r - 1, c - 1), (r - 1, c), (r, c - 1), (r, c + 1), (r + 1, c - 1), (r + 1, c)])"

abbreviation nbrs :: "cell \<Rightarrow> cell list" where
  "nbrs p \<equiv> neighbors (fst p) (snd p)"

text \<open>Does the moving bubble touch an occupied cell?\<close>

definition touches :: "board \<Rightarrow> float64 \<Rightarrow> float64 \<Rightarrow> cell \<Rightarrow> bool" where
  "touches b x y p =
     (case p of (r, c) \<Rightarrow>
        if cell_at b r c < 0 then False
        else (case cellCenter r c of (cx, cy) \<Rightarrow>
          (let dx = x - cx; dy = y - cy
           in dx * dx + dy * dy \<le> (gbDiam - Flt 2) * (gbDiam - Flt 2))))"

definition collideBoard :: "board \<Rightarrow> float64 \<Rightarrow> float64 \<Rightarrow> bool" where
  "collideBoard b x y = list_ex (touches b x y) all_cells"

subsection \<open>The searches for an empty cell\<close>

fun nearest_empty_from :: "int list \<Rightarrow> int \<Rightarrow> int list \<Rightarrow> int option" where
  "nearest_empty_from row center [] = None"
| "nearest_empty_from row center (d # ds) =
     (let l = center - d; r = center + d
      in if l \<ge> 0 \<and> row ! nat l < 0 then Some l
         else if r < int (length row) \<and> row ! nat r < 0 then Some r
         else nearest_empty_from row center ds)"

definition nearestEmptyInRow :: "int list \<Rightarrow> int \<Rightarrow> int option" where
  "nearestEmptyInRow row center =
     (if center \<ge> 0 \<and> center < int (length row) \<and> row ! nat center < 0 then Some center
      else nearest_empty_from row center [1..int (length row) - 1])"

text \<open>
  \<open>findNearestEmpty\<close>: the loops over the 5 by 5 window around the base cell, with the best
  cell and its squared distance so far.
\<close>

definition window :: "cell list" where
  "window = concat (map (\<lambda>dr. map (Pair dr) [-2..2]) [-2..2])"

definition dist2 :: "int \<Rightarrow> int \<Rightarrow> float64 \<Rightarrow> float64 \<Rightarrow> float64" where
  "dist2 r c x y =
     (case cellCenter r c of (cx, cy) \<Rightarrow>
        (let dx = cx - x; dy = cy - y in dx * dx + dy * dy))"

definition consider_cell ::
  "board \<Rightarrow> int \<Rightarrow> int \<Rightarrow> float64 \<Rightarrow> float64 \<Rightarrow> int \<times> int \<times> float64 \<Rightarrow> cell \<Rightarrow> int \<times> int \<times> float64" where
  "consider_cell b baseR baseC x y acc d =
     (case acc of (bestR, bestC, best) \<Rightarrow>
        let r = baseR + fst d; c = baseC + snd d
        in if \<not> inBoard r c \<or> cell_at b r c \<ge> 0 then acc
           else (let d2 = dist2 r c x y in if d2 < best then (r, c, d2) else acc))"

definition findNearestEmpty :: "board \<Rightarrow> int \<Rightarrow> int \<Rightarrow> float64 \<Rightarrow> float64 \<Rightarrow> (int \<times> int) option" where
  "findNearestEmpty b baseR baseC x y =
     (case foldl (consider_cell b baseR baseC x y) (-1, -1, math_MaxFloat64) window of
        (bestR, bestC, best) \<Rightarrow> if bestR \<ge> 0 then Some (bestR, bestC) else None)"

lemma clamp_index_bounds: "0 < n \<Longrightarrow> 0 \<le> clamp_index n i \<and> clamp_index n i < n"
  by (auto simp: clamp_index_def Let_def)

lemma clamp_index_id [simp]: "0 \<le> i \<Longrightarrow> i < n \<Longrightarrow> clamp_index n i = i"
  by (simp add: clamp_index_def)

lemma nearestCell_in_board: "in_board (nearestCell x y)"
  using clamp_index_bounds[of gbRows] clamp_index_bounds[of gbCols]
  by (simp add: nearestCell_def Let_def inBoard_def) (simp add: gb_defs)

lemma clampCell_id: "inBoard r c \<Longrightarrow> clampCell r c = (r, c)"
  by (simp add: clampCell_def inBoard_def)

subsection \<open>Cell centres are exact, and the nearest cell of a centre is the cell\<close>

definition shift_of :: "int \<Rightarrow> int" where
  "shift_of row = (if row mod 2 = 1 then 16 else 0)"

lemma row_shift_exact: "0 \<le> r \<Longrightarrow> row_shift r = Flt (of_int (shift_of r))"
  by (simp add: row_shift_def shift_of_def smod_2_nonneg gb_defs)

lemma shift_of_range: "0 \<le> shift_of r" "shift_of r \<le> 16"
  by (auto simp: shift_of_def)

lemma Flt_int_add: "\<bar>a + b\<bar> \<le> 2 ^ 53 \<Longrightarrow> Flt (of_int a) + Flt (of_int b) = Flt (of_int (a + b))"
  using rnd64_int[of "a + b"] by simp

lemma Flt_int_sub: "\<bar>a - b\<bar> \<le> 2 ^ 53 \<Longrightarrow> Flt (of_int a) - Flt (of_int b) = Flt (of_int (a - b))"
  using rnd64_int[of "a - b"] by (simp add: minus_float64_def)

lemma Flt_int_mult: "\<bar>a * b\<bar> \<le> 2 ^ 53 \<Longrightarrow> Flt (of_int a) * Flt (of_int b) = Flt (of_int (a * b))"
  using rnd64_int[of "a * b"] by simp

lemma gb_ints:
  "gbRadius = Flt (of_int 16)" "gbDiam = Flt (of_int 32)" "gbRowGap = Flt (of_int 28)"
  by (simp_all add: gb_defs)

lemma cellCenter_exact:
  assumes "inBoard r c"
  shows "cellCenter r c = (Flt (of_int (16 + shift_of r + c * 32)), Flt (of_int (16 + r * 28)))"
proof -
  have r: "0 \<le> r" "r < 14" and c: "0 \<le> c" "c < 17"
    using assms by (auto simp: inBoard_def gb_defs)
  show ?thesis
    using r c shift_of_range[of r] unfolding cellCenter_def Let_def gb_ints
    by (simp add: row_shift_exact from_int_exact Flt_int_add Flt_int_mult del: plus_float64.simps
        times_float64.simps of_int_add of_int_mult of_int_numeral)
qed

lemma Flt_int_div:
  assumes "\<bar>a\<bar> \<le> 2 ^ 53" and "b \<noteq> 0"
  shows "Flt (of_int (a * b)) / Flt (of_int b) = Flt (of_int a)"
  using assms rnd64_int[of a] by simp

lemma nearestCell_center:
  assumes "inBoard r c" and "cellCenter r c = (x, y)"
  shows "nearestCell x y = (r, c)"
proof -
  have r: "0 \<le> r" "r < 14" and c: "0 \<le> c" "c < 17"
    using assms by (auto simp: inBoard_def gb_defs)
  have xy: "x = Flt (of_int (16 + shift_of r + c * 32))" "y = Flt (of_int (16 + r * 28))"
    using assms cellCenter_exact by auto
  have "(y - gbRadius) / gbRowGap = Flt (of_int r)"
    unfolding xy gb_ints using r Flt_int_div[of r 28] by (simp add: Flt_int_sub del: of_int_add of_int_mult of_int_numeral divide_float64.simps)
  then have row: "clamp_index gbRows (to_int (math_Round ((y - gbRadius) / gbRowGap))) = r"
    using r by (simp add: gb_defs)
  have "(x - gbRadius - row_shift r) / gbDiam = Flt (of_int c)"
    unfolding xy gb_ints using r c shift_of_range[of r] Flt_int_div[of c 32]
    by (simp add: row_shift_exact Flt_int_sub del: of_int_add of_int_mult of_int_numeral divide_float64.simps)
  then have col: "clamp_index gbCols (to_int (math_Round ((x - gbRadius - row_shift r) / gbDiam))) = c"
    using c by (simp add: gb_defs)
  show ?thesis by (simp add: nearestCell_def Let_def row col)
qed

lemma Flt_div_half: "Flt (of_int (n * 16)) / Flt (of_int 32) = rnd64 (of_int n / 2)"
  by (simp add: field_simps)

text \<open>
  Where \<open>AddTopLayer\<close> sends a column: an even row keeps it, an odd row moves it one to the
  right, with the last two columns of an odd row sharing the last one.
\<close>

lemma nearestColForRowX_below:
  assumes "inBoard r c" and "cellCenter r c = (x, y)"
  shows "nearestColForRowX (r + 1) x = (if r mod 2 = 1 then min (c + 1) 16 else c)"
proof -
  have r: "0 \<le> r" "r < 14" and c: "0 \<le> c" "c < 17"
    using assms by (auto simp: inBoard_def gb_defs)
  have x: "x = Flt (of_int (16 + shift_of r + c * 32))"
    using assms cellCenter_exact by auto
  have par: "(r + 1) mod 2 = 1 \<longleftrightarrow> r mod 2 \<noteq> 1" by presburger
  let ?n = "shift_of r - shift_of (r + 1) + c * 32"
  have sub: "x - gbRadius - row_shift (r + 1) = Flt (of_int ?n)"
    unfolding x gb_ints using r c shift_of_range[of r] shift_of_range[of "r + 1"]
    by (simp add: row_shift_exact Flt_int_sub algebra_simps del: of_int_add of_int_mult of_int_numeral of_int_diff)
  show ?thesis
  proof (cases "r mod 2 = 1")
    case True
    then have "?n = (2 * c + 1) * 16" using par by (simp add: shift_of_def)
    then have "(x - gbRadius - row_shift (r + 1)) / gbDiam = rnd64 (of_int (2 * c + 1) / 2)"
      unfolding sub gb_ints(2) by (simp only: Flt_div_half)
    also have "\<dots> = Flt (of_int c + 1 / 2)"
      using c rnd64_half[of "2 * c + 1"] by (simp add: add_divide_distrib)
    finally have *: "(x - gbRadius - row_shift (r + 1)) / gbDiam = Flt (of_int c + 1 / 2)" .
    have "to_int (math_Round ((x - gbRadius - row_shift (r + 1)) / gbDiam)) = c + 1"
      unfolding * using c by (intro to_int_round round_away_half) auto
    then show ?thesis using True c by (simp add: nearestColForRowX_def gb_defs)
  next
    case False
    then have n: "?n = (2 * c - 1) * 16" using par by (simp add: shift_of_def)
    then have "(x - gbRadius - row_shift (r + 1)) / gbDiam = rnd64 (of_int (2 * c - 1) / 2)"
      unfolding sub gb_ints(2) by (simp only: Flt_div_half)
    also have "\<dots> = Flt (of_int (2 * c - 1) / 2)" using c rnd64_half[of "2 * c - 1"] by simp
    finally have *: "(x - gbRadius - row_shift (r + 1)) / gbDiam = Flt (of_int (2 * c - 1) / 2)" .
    have "round_away (of_int (2 * c - 1) / 2) = (if c = 0 then - 1 else c)"
      using c by (auto simp: round_away_def floor_eq_iff field_simps)
    then have "to_int (math_Round ((x - gbRadius - row_shift (r + 1)) / gbDiam)) = (if c = 0 then - 1 else c)"
      unfolding * using c by (intro to_int_round) auto
    then show ?thesis using False c by (simp add: nearestColForRowX_def gb_defs)
  qed
qed

lemma neighbors_iff:
  assumes "0 \<le> r"
  shows "(r', c') \<in> set (neighbors r c) \<longleftrightarrow>
    r' = r \<and> (c' = c - 1 \<or> c' = c + 1) \<or>
    (r' = r - 1 \<or> r' = r + 1) \<and> (if r mod 2 = 1 then c' = c \<or> c' = c + 1 else c' = c - 1 \<or> c' = c)"
  using assms by (auto simp: neighbors_def smod_2_nonneg)

lemma neighbors_sym:
  assumes "inBoard r c" and "inBoard r' c'"
  shows "(r', c') \<in> set (neighbors r c) \<longleftrightarrow> (r, c) \<in> set (neighbors r' c')"
proof -
  have "0 \<le> r" "0 \<le> r'" using assms by (auto simp: inBoard_def)
  moreover have "(r' = r - 1 \<or> r' = r + 1) \<Longrightarrow> r' mod 2 = 1 \<longleftrightarrow> r mod 2 \<noteq> 1" by presburger
  ultimately show ?thesis unfolding neighbors_iff[OF \<open>0 \<le> r\<close>] neighbors_iff[OF \<open>0 \<le> r'\<close>]
    by (cases "r' = r - 1 \<or> r' = r + 1") auto
qed

subsection \<open>The search for the nearest empty cell\<close>

definition candidate :: "board \<Rightarrow> int \<Rightarrow> int \<Rightarrow> cell \<Rightarrow> bool" where
  "candidate b baseR baseC p \<longleftrightarrow>
     \<bar>fst p - baseR\<bar> \<le> 2 \<and> \<bar>snd p - baseC\<bar> \<le> 2 \<and> in_board p \<and> cell_at b (fst p) (snd p) < 0"

lemma set_window: "d \<in> set window \<longleftrightarrow> \<bar>fst d\<bar> \<le> 2 \<and> \<bar>snd d\<bar> \<le> 2"
proof -
  have "set window = {-2..2} \<times> {-2..2}"
    unfolding window_def set_concat set_map set_upto image_image by blast
  then show ?thesis by (cases d) auto
qed

definition best_so_far ::
  "board \<Rightarrow> int \<Rightarrow> int \<Rightarrow> float64 \<Rightarrow> float64 \<Rightarrow> cell list \<Rightarrow> int \<times> int \<times> float64 \<Rightarrow> bool" where
  "best_so_far b R C x y ds acc \<longleftrightarrow>
     (case acc of (r, c, best) \<Rightarrow>
        (r = - 1 \<and> best = math_MaxFloat64
          \<or> candidate b R C (r, c) \<and> best = dist2 r c x y \<and> best < math_MaxFloat64)
        \<and> (\<forall>d \<in> set ds. candidate b R C (R + fst d, C + snd d) \<longrightarrow>
              \<not> dist2 (R + fst d) (C + snd d) x y < best))"

lemma best_so_far_step:
  assumes "best_so_far b R C x y ds acc" and "d \<in> set window"
  shows "best_so_far b R C x y (ds @ [d]) (consider_cell b R C x y acc d)"
proof -
  obtain r c best where acc: "acc = (r, c, best)" by (cases acc)
  let ?p = "(R + fst d, C + snd d)" and ?d2 = "dist2 (R + fst d) (C + snd d) x y"
  have cand: "candidate b R C ?p \<longleftrightarrow> in_board ?p \<and> cell_at b (fst ?p) (snd ?p) < 0"
    using assms(2) by (auto simp: candidate_def set_window)
  show ?thesis
  proof (cases "candidate b R C ?p \<and> ?d2 < best")
    case True
    then have "consider_cell b R C x y acc d = (R + fst d, C + snd d, ?d2)"
      using cand by (simp add: consider_cell_def acc Let_def)
    moreover have "?d2 < math_MaxFloat64"
      using assms(1) True less_float64_trans[of ?d2 best] by (auto simp: best_so_far_def acc)
    moreover have "\<not> ?d2 < ?d2" by (cases ?d2) auto
    ultimately show ?thesis
      using assms(1) True less_float64_trans[of _ ?d2 best] by (auto simp: best_so_far_def acc)
  next
    case False
    then have "consider_cell b R C x y acc d = acc"
      using cand by (auto simp: consider_cell_def acc Let_def)
    then show ?thesis using assms(1) False by (auto simp: best_so_far_def acc)
  qed
qed

lemma best_so_far_fold:
  "set ds \<subseteq> set window \<Longrightarrow>
     best_so_far b R C x y ds (foldl (consider_cell b R C x y) (-1, -1, math_MaxFloat64) ds)"
proof (induction ds rule: rev_induct)
  case Nil
  then show ?case by (simp add: best_so_far_def)
next
  case (snoc d ds)
  then show ?case by (simp add: best_so_far_step)
qed

lemma candidate_in_window:
  "candidate b R C p \<Longrightarrow> \<exists>d \<in> set window. p = (R + fst d, C + snd d)"
  by (rule bexI[of _ "(fst p - R, snd p - C)"]) (auto simp: candidate_def set_window)

lemma findNearestEmpty_Some:
  assumes "findNearestEmpty b R C x y = Some (r, c)"
  shows "candidate b R C (r, c)"
    and "candidate b R C (r', c') \<Longrightarrow> \<not> dist2 r' c' x y < dist2 r c x y"
proof -
  let ?acc = "foldl (consider_cell b R C x y) (-1, -1, math_MaxFloat64) window"
  have best: "best_so_far b R C x y window ?acc" by (rule best_so_far_fold) simp
  obtain r0 c0 best where acc: "?acc = (r0, c0, best)" by (cases ?acc)
  have rc: "r0 = r" "c0 = c" "0 \<le> r"
    using assms by (auto simp: findNearestEmpty_def acc split: if_splits)
  show "candidate b R C (r, c)" using best rc unfolding acc by (auto simp: best_so_far_def)
  show "\<not> dist2 r' c' x y < dist2 r c x y" if "candidate b R C (r', c')"
    using best rc candidate_in_window[OF that] that unfolding acc
    by (auto simp: best_so_far_def)
qed

lemma dist2_bound:
  assumes "inBoard r c" and "fbound 10 x" and "fbound 10 y"
  shows "fbound 23 (dist2 r c x y)"
proof -
  have rc: "0 \<le> r" "r < 14" "0 \<le> c" "c < 17" using assms by (auto simp: inBoard_def gb_defs)
  have b: "fbound 10 (Flt (of_int n))" if "0 \<le> n" "n \<le> 1024" for n :: int
    using that by (simp add: pow2_def)
  let ?cx = "Flt (of_int (16 + shift_of r + c * 32))" and ?cy = "Flt (of_int (16 + r * 28))"
  have "fbound 11 (?cx - x)" "fbound 11 (?cy - y)"
    using fbound_minus[of 10 ?cx x, OF b assms(2)] fbound_minus[of 10 ?cy y, OF b assms(3)]
      rc shift_of_range[of r] by (simp_all del: of_int_add of_int_mult of_int_numeral)
  then show ?thesis
    using fbound_add[of 22 "(?cx - x) * (?cx - x)" "(?cy - y) * (?cy - y)"]
      fbound_times[of 11 "?cx - x" 11 "?cx - x"] fbound_times[of 11 "?cy - y" 11 "?cy - y"]
    by (simp add: dist2_def cellCenter_exact[OF assms(1)] Let_def del: of_int_add of_int_mult of_int_numeral)
qed

lemma findNearestEmpty_None:
  assumes "fbound 10 x" and "fbound 10 y"
  shows "findNearestEmpty b R C x y = None \<longleftrightarrow> (\<forall>p. \<not> candidate b R C p)"
proof
  let ?acc = "foldl (consider_cell b R C x y) (-1, -1, math_MaxFloat64) window"
  have best: "best_so_far b R C x y window ?acc" by (rule best_so_far_fold) simp
  obtain r0 c0 best where acc: "?acc = (r0, c0, best)" by (cases ?acc)
  assume "findNearestEmpty b R C x y = None"
  then have "r0 < 0" by (auto simp: findNearestEmpty_def acc split: if_splits)
  then have m: "best = math_MaxFloat64"
    using best unfolding acc by (auto simp: best_so_far_def candidate_def inBoard_def)
  show "\<forall>p. \<not> candidate b R C p"
  proof (intro allI notI)
    fix p assume c: "candidate b R C p"
    then have "in_board p" by (simp add: candidate_def)
    then have "dist2 (fst p) (snd p) x y < math_MaxFloat64"
      using dist2_bound[OF _ assms] fbound_less_max[of 23] by (cases p) auto
    then show False using best m candidate_in_window[OF c] c unfolding acc
      by (auto simp: best_so_far_def)
  qed
next
  assume none: "\<forall>p. \<not> candidate b R C p"
  show "findNearestEmpty b R C x y = None"
  proof (rule ccontr)
    assume "findNearestEmpty b R C x y \<noteq> None"
    then obtain r c where "findNearestEmpty b R C x y = Some (r, c)" by auto
    then show False using findNearestEmpty_Some(1) none by blast
  qed
qed

end
