(* ===== verification/Flood.thy ===== *)
theory Flood
  imports Board
begin

text \<open>
  The breadth-first searches of \<open>clearMatches\<close> and \<open>dropFloating\<close>
  (\<open>internal/gameplay/engine.go\<close>), the removals they decide, and their specification:
  the cells visited are exactly those linked to a seed through passable neighbours. The
  locale \<open>cell_search\<close> states what a search promises; both searches interpret it.
\<close>

subsection \<open>The specification: linked cells\<close>

inductive linked :: "('a \<Rightarrow> 'a list) \<Rightarrow> ('a \<Rightarrow> bool) \<Rightarrow> 'a \<Rightarrow> 'a \<Rightarrow> bool"
  for nbr :: "'a \<Rightarrow> 'a list" and ok :: "'a \<Rightarrow> bool" where
  here: "linked nbr ok s s"
| next_cell: "linked nbr ok s p \<Longrightarrow> n \<in> set (nbr p) \<Longrightarrow> ok n \<Longrightarrow> linked nbr ok s n"

inductive_cases linkedE: "linked nbr ok s p"

lemma linked_ok: "linked nbr ok s p \<Longrightarrow> ok s \<Longrightarrow> ok p"
  by (induction rule: linked.induct) auto

lemma linked_mono:
  "linked nbr ok s p \<Longrightarrow> (\<And>q. ok q \<Longrightarrow> ok' q) \<Longrightarrow> linked nbr ok' s p"
  by (induction rule: linked.induct) (auto intro: linked.intros)

lemma linked_trans: "linked nbr ok p q \<Longrightarrow> linked nbr ok s p \<Longrightarrow> linked nbr ok s q"
  by (induction rule: linked.induct) (auto intro: linked.intros)

locale cell_search =
  fixes nbr :: "'a \<Rightarrow> 'a list"
    and ok :: "'i \<Rightarrow> 'a \<Rightarrow> bool"
    and seeds :: "'i \<Rightarrow> 'a set"
    and visited :: "'i \<Rightarrow> 'a set"
  assumes seeds_visited: "s \<in> seeds i \<Longrightarrow> s \<in> visited i"
    and closed: "p \<in> visited i \<Longrightarrow> n \<in> set (nbr p) \<Longrightarrow> ok i n \<Longrightarrow> n \<in> visited i"
    and sound: "p \<in> visited i \<Longrightarrow> \<exists>s \<in> seeds i. linked nbr (ok i) s p"
begin

lemma linked_visited: "linked nbr (ok i) s p \<Longrightarrow> s \<in> visited i \<Longrightarrow> p \<in> visited i"
  by (induction rule: linked.induct) (auto intro: closed)

lemma visited_iff: "p \<in> visited i \<longleftrightarrow> (\<exists>s \<in> seeds i. linked nbr (ok i) s p)"
  using linked_visited seeds_visited sound by blast

text \<open>The search never needs a cell it does not visit.\<close>

lemma linked_within:
  assumes "linked nbr (ok i) s p" and "s \<in> visited i"
  shows "linked nbr (\<lambda>q. ok i q \<and> q \<in> visited i) s p"
  using assms
proof (induction rule: linked.induct)
  case (here s)
  show ?case by (rule linked.here)
next
  case (next_cell s p n)
  then have "p \<in> visited i" by (blast intro: linked_visited)
  with next_cell show ?case by (blast intro: linked.next_cell closed)
qed

lemma visited_linked_within:
  "p \<in> visited i \<Longrightarrow> \<exists>s \<in> seeds i. linked nbr (\<lambda>q. ok i q \<and> q \<in> visited i) s p"
  using sound linked_within seeds_visited by blast

end

subsection \<open>The queue loop\<close>

text \<open>
  One pass over the neighbours of a cell: those inside the board, passable and not yet
  visited are marked and appended to the queue.
\<close>

fun visit_nbrs :: "(cell \<Rightarrow> bool) \<Rightarrow> cell list \<Rightarrow> cell list \<times> cell list \<Rightarrow> cell list \<times> cell list" where
  "visit_nbrs pass [] (q, vis) = (q, vis)"
| "visit_nbrs pass ((r, c) # ns) (q, vis) =
     (if \<not> inBoard r c \<or> \<not> pass (r, c) then visit_nbrs pass ns (q, vis)
      else if (r, c) \<in> set vis then visit_nbrs pass ns (q, vis)
      else visit_nbrs pass ns (q @ [(r, c)], (r, c) # vis))"

lemma visit_nbrs_spec:
  "\<exists>new. visit_nbrs pass ns (q, vis) = (q @ new, rev new @ vis) \<and> distinct new
     \<and> set new = {n \<in> set ns. in_board n \<and> pass n} - set vis"
proof (induction ns arbitrary: q vis)
  case Nil
  then show ?case by simp
next
  case (Cons n ns)
  obtain r c where n: "n = (r, c)" by (cases n)
  show ?case
  proof (cases "inBoard r c \<and> pass (r, c) \<and> (r, c) \<notin> set vis")
    case True
    obtain new where new:
      "visit_nbrs pass ns (q @ [n], n # vis) = ((q @ [n]) @ new, rev new @ n # vis)"
      "distinct new" "set new = {m \<in> set ns. in_board m \<and> pass m} - set (n # vis)"
      using Cons.IH by blast
    have "visit_nbrs pass (n # ns) (q, vis) = (q @ n # new, rev (n # new) @ vis)"
      using True new(1) by (simp add: n)
    moreover have "distinct (n # new)" using new(2,3) by simp
    moreover have "set (n # new) = {m \<in> set (n # ns). in_board m \<and> pass m} - set vis"
      unfolding list.set(2) new(3) using True by (auto simp: n)
    ultimately show ?thesis by blast
  next
    case False
    then have "visit_nbrs pass (n # ns) (q, vis) = visit_nbrs pass ns (q, vis)"
      unfolding n by simp
    moreover have "{m \<in> set (n # ns). in_board m \<and> pass m} - set vis
        = {m \<in> set ns. in_board m \<and> pass m} - set vis"
      using False by (auto simp: n)
    ultimately show ?thesis using Cons.IH by simp
  qed
qed

function bfs :: "(cell \<Rightarrow> bool) \<Rightarrow> cell list \<Rightarrow> cell list \<Rightarrow> cell list \<Rightarrow> cell list \<times> cell list" where
  "bfs pass [] vis grp = (vis, grp)"
| "bfs pass (p # q) vis grp =
     (case visit_nbrs pass (nbrs p) (q, vis) of
        (q', vis') \<Rightarrow> bfs pass q' vis' (grp @ [p]))"
  by pat_completeness auto

text \<open>
  Each round takes one cell off the queue and adds to it only cells that were not yet
  visited, of which there are finitely many: the loop ends.
\<close>

definition unvisited :: "cell list \<Rightarrow> nat" where
  "unvisited vis = card ({p. in_board p} - set vis)"

lemma unvisited_append:
  assumes "distinct new" and "set new \<subseteq> {p. in_board p} - set vis"
  shows "unvisited (rev new @ vis) + length new = unvisited vis"
proof -
  let ?free = "{p. in_board p} - set vis"
  have "card (?free - set new) = card ?free - card (set new)"
    using assms(2) by (simp add: card_Diff_subset)
  moreover have "card (set new) \<le> card ?free" using assms(2) by (simp add: card_mono)
  moreover have "{p. in_board p} - set (rev new @ vis) = ?free - set new" by auto
  ultimately show ?thesis using assms(1) by (simp add: unvisited_def distinct_card)
qed

termination bfs
proof (relation "measure (\<lambda>(pass, q, vis, grp). unvisited vis + length q)")
  show "wf (measure (\<lambda>(pass :: cell \<Rightarrow> bool, q :: cell list, vis, grp :: cell list). unvisited vis + length q))"
    by simp
next
  fix pass and p :: cell and q vis grp q' vis'
  assume "(q', vis') = visit_nbrs pass (nbrs p) (q, vis)"
  then obtain new where "q' = q @ new" "vis' = rev new @ vis" "distinct new"
    "set new = {n \<in> set (nbrs p). in_board n \<and> pass n} - set vis"
    using visit_nbrs_spec[of pass "nbrs p" q vis] by auto
  then show "((pass, q', vis', grp @ [p]), pass, p # q, vis, grp)
      \<in> measure (\<lambda>(pass, q, vis, grp). unvisited vis + length q)"
    using unvisited_append[of new vis] by fastforce
qed

text \<open>What the loop keeps true, and what holds when the queue is empty.\<close>

definition bfs_inv :: "(cell \<Rightarrow> bool) \<Rightarrow> cell set \<Rightarrow> cell list \<Rightarrow> cell list \<Rightarrow> cell list \<Rightarrow> bool" where
  "bfs_inv pass S q vis grp \<longleftrightarrow>
     S \<subseteq> set vis \<and> set grp \<union> set q = set vis \<and> distinct (grp @ q) \<and>
     (\<forall>p \<in> set grp. \<forall>n \<in> set (nbrs p). in_board n \<and> pass n \<longrightarrow> n \<in> set vis) \<and>
     (\<forall>p \<in> set vis. \<exists>s \<in> S. linked nbrs (\<lambda>p. in_board p \<and> pass p) s p)"

lemma bfs_inv_step:
  assumes inv: "bfs_inv pass S (p # q) vis grp"
    and step: "visit_nbrs pass (nbrs p) (q, vis) = (q', vis')"
  shows "bfs_inv pass S q' vis' (grp @ [p])"
proof -
  obtain new where new: "q' = q @ new" "vis' = rev new @ vis" "distinct new"
    "set new = {n \<in> set (nbrs p). in_board n \<and> pass n} - set vis"
    using visit_nbrs_spec[of pass "nbrs p" q vis] step by auto
  have p: "p \<in> set vis" using inv by (auto simp: bfs_inv_def)
  then obtain s where s: "s \<in> S" "linked nbrs (\<lambda>p. in_board p \<and> pass p) s p"
    using inv by (auto simp: bfs_inv_def)
  have link: "\<exists>s \<in> S. linked nbrs (\<lambda>p. in_board p \<and> pass p) s n" if "n \<in> set new" for n
    using that s new(4) by (auto intro!: bexI[of _ s] intro: linked.next_cell)
  show ?thesis using inv link new unfolding bfs_inv_def by auto
qed

lemma bfs_inv_result:
  "bfs_inv pass S q vis grp \<Longrightarrow> bfs pass q vis grp = (vis', grp') \<Longrightarrow> bfs_inv pass S [] vis' grp'"
proof (induction pass q vis grp rule: bfs.induct)
  case (1 pass vis grp)
  then show ?case by simp
next
  case (2 pass p q vis grp)
  obtain q1 vis1 where step: "visit_nbrs pass (nbrs p) (q, vis) = (q1, vis1)" by fastforce
  then have "bfs pass q1 vis1 (grp @ [p]) = (vis', grp')" using "2.prems"(2) by simp
  then show ?case
    using "2.IH"[OF step[symmetric] bfs_inv_step[OF "2.prems"(1) step]] by blast
qed

lemma bfs_inv_start: "distinct q \<Longrightarrow> set vis = set q \<Longrightarrow> bfs_inv pass (set q) q vis []"
  by (auto simp: bfs_inv_def intro: linked.here)

lemma bfs_visits:
  assumes "distinct q" and "set vis = set q" and "bfs pass q vis [] = (vis', grp')"
  shows "set grp' = set vis'" and "distinct grp'"
    and "set q \<subseteq> set vis'"
    and "p \<in> set vis' \<Longrightarrow> n \<in> set (nbrs p) \<Longrightarrow> in_board n \<and> pass n \<Longrightarrow> n \<in> set vis'"
    and "p \<in> set vis' \<Longrightarrow> \<exists>s \<in> set q. linked nbrs (\<lambda>p. in_board p \<and> pass p) s p"
  using bfs_inv_result[OF bfs_inv_start[OF assms(1,2)] assms(3)] by (auto simp: bfs_inv_def)

subsection \<open>Removing the cells of the group: \<open>clearMatches\<close>\<close>

text \<open>The loop \<open>board[p.r][p.c] = -1\<close> over a list of cells.\<close>

definition erase_cell :: "board \<Rightarrow> cell \<Rightarrow> board" where
  "erase_cell b p = set_cell b (fst p) (snd p) (-1)"

lemma cell_at_set_cell_pair:
  "wf_board b \<Longrightarrow> in_board p \<Longrightarrow> in_board q \<Longrightarrow>
     cell_at (set_cell b (fst p) (snd p) v) (fst q) (snd q)
       = (if q = p then v else cell_at b (fst q) (snd q))"
  by (simp add: prod_eq_iff)

definition clearMatches :: "board \<Rightarrow> int \<Rightarrow> int \<Rightarrow> board \<times> int" where
  "clearMatches b sr sc =
     (let color = cell_at b sr sc
      in if color < 0 then (b, 0)
         else (case bfs (\<lambda>p. cell_at b (fst p) (snd p) = color) [(sr, sc)] [(sr, sc)] [] of
           (vis, grp) \<Rightarrow>
             if length grp < 3 then (b, 0)
             else (foldl erase_cell b grp, int (length grp))))"

subsection \<open>Removing what hangs in the air: \<open>dropFloating\<close>\<close>

definition drop_cell :: "cell list \<Rightarrow> board \<times> int \<Rightarrow> cell \<Rightarrow> board \<times> int" where
  "drop_cell vis acc p =
     (case acc of (b, dropped) \<Rightarrow>
        if cell_at b (fst p) (snd p) < 0 then (b, dropped)
        else if p \<in> set vis then (b, dropped)
        else (set_cell b (fst p) (snd p) (-1), dropped + 1))"

definition top_seeds :: "board \<Rightarrow> cell list" where
  "top_seeds b = filter (\<lambda>p. cell_at b (fst p) (snd p) \<ge> 0) (row_cells 0)"

definition dropFloating :: "board \<Rightarrow> board \<times> int" where
  "dropFloating b =
     (let q = top_seeds b;
          vis = fst (bfs (\<lambda>p. \<not> cell_at b (fst p) (snd p) < 0) q (rev q) [])
      in foldl (drop_cell vis) (b, 0) all_cells)"

subsection \<open>Both searches meet the interface\<close>

definition occupied :: "board \<Rightarrow> cell \<Rightarrow> bool" where
  "occupied b p \<longleftrightarrow> in_board p \<and> cell_at b (fst p) (snd p) \<ge> 0"

definition same_colour :: "board \<Rightarrow> int \<Rightarrow> cell \<Rightarrow> bool" where
  "same_colour b color p \<longleftrightarrow> in_board p \<and> cell_at b (fst p) (snd p) = color"

definition match_visited :: "board \<times> cell \<Rightarrow> cell set" where
  "match_visited i =
     (case i of (b, p) \<Rightarrow>
        set (fst (bfs (\<lambda>q. cell_at b (fst q) (snd q) = cell_at b (fst p) (snd p)) [p] [p] [])))"

definition top_visited :: "board \<Rightarrow> cell set" where
  "top_visited b =
     set (fst (bfs (\<lambda>p. \<not> cell_at b (fst p) (snd p) < 0) (top_seeds b) (rev (top_seeds b)) []))"

lemma same_colour_fun: "(\<lambda>p. in_board p \<and> cell_at b (fst p) (snd p) = color) = same_colour b color"
  by (auto simp: same_colour_def fun_eq_iff)

interpretation match: cell_search nbrs
  "\<lambda>(b, p). same_colour b (cell_at b (fst p) (snd p))" "\<lambda>(b, p). {p}" match_visited
proof (unfold_locales, goal_cases)
  case (1 s i)
  obtain b where i: "i = (b, s)" using 1 by (cases i) auto
  obtain vis grp where "bfs (\<lambda>q. cell_at b (fst q) (snd q) = cell_at b (fst s) (snd s)) [s] [s] [] = (vis, grp)"
    by fastforce
  then show ?case using bfs_visits(3)[of "[s]" "[s]" _ vis grp] by (auto simp: match_visited_def i)
next
  case (2 p i n)
  obtain b s where i: "i = (b, s)" by (cases i)
  obtain vis grp where "bfs (\<lambda>q. cell_at b (fst q) (snd q) = cell_at b (fst s) (snd s)) [s] [s] [] = (vis, grp)"
    by fastforce
  then show ?case
    using 2 bfs_visits(4)[of "[s]" "[s]" _ vis grp p n] by (auto simp: match_visited_def i same_colour_def)
next
  case (3 p i)
  obtain b s where i: "i = (b, s)" by (cases i)
  obtain vis grp where "bfs (\<lambda>q. cell_at b (fst q) (snd q) = cell_at b (fst s) (snd s)) [s] [s] [] = (vis, grp)"
    by fastforce
  then show ?case
    using 3 bfs_visits(5)[of "[s]" "[s]" "\<lambda>q. cell_at b (fst q) (snd q) = cell_at b (fst s) (snd s)" vis grp p]
    by (simp add: match_visited_def i same_colour_fun del: bfs.simps)
qed

lemma top_seeds_distinct: "distinct (top_seeds b)"
  by (simp add: top_seeds_def row_cells_def distinct_map inj_on_def)

lemma set_top_seeds: "set (top_seeds b) = {p. occupied b p \<and> fst p = 0}"
  by (auto simp: top_seeds_def set_row_cells occupied_def inBoard_def gb_defs)

lemma occupied_fun: "(\<lambda>p. in_board p \<and> \<not> cell_at b (fst p) (snd p) < 0) = occupied b"
  by (auto simp: occupied_def fun_eq_iff)

interpretation support: cell_search nbrs occupied "\<lambda>b. {p. occupied b p \<and> fst p = 0}" top_visited
proof (unfold_locales, goal_cases)
  case (1 s b)
  obtain vis grp where "bfs (\<lambda>p. \<not> cell_at b (fst p) (snd p) < 0) (top_seeds b) (rev (top_seeds b)) [] = (vis, grp)"
    by fastforce
  then show ?case
    using 1 bfs_visits(3)[OF top_seeds_distinct, of "rev (top_seeds b)" b _ vis grp]
    by (auto simp: top_visited_def set_top_seeds)
next
  case (2 p b n)
  obtain vis grp where "bfs (\<lambda>p. \<not> cell_at b (fst p) (snd p) < 0) (top_seeds b) (rev (top_seeds b)) [] = (vis, grp)"
    by fastforce
  then show ?case
    using 2 bfs_visits(4)[OF top_seeds_distinct, of "rev (top_seeds b)" b _ vis grp p n]
    by (auto simp: top_visited_def occupied_def)
next
  case (3 p b)
  obtain vis grp where "bfs (\<lambda>p. \<not> cell_at b (fst p) (snd p) < 0) (top_seeds b) (rev (top_seeds b)) [] = (vis, grp)"
    by fastforce
  then show ?case
    using 3 bfs_visits(5)[OF top_seeds_distinct, of "rev (top_seeds b)" b "\<lambda>p. \<not> cell_at b (fst p) (snd p) < 0" vis grp p]
    unfolding occupied_fun by (simp add: top_visited_def set_top_seeds)
qed

text \<open>The specification of the two removals, over linked cells only.\<close>

definition colour_group :: "board \<Rightarrow> cell \<Rightarrow> cell set" where
  "colour_group b p = {q. linked nbrs (same_colour b (cell_at b (fst p) (snd p))) p q}"

definition supported :: "board \<Rightarrow> cell \<Rightarrow> bool" where
  "supported b p \<longleftrightarrow> (\<exists>s. occupied b s \<and> fst s = 0 \<and> linked nbrs (occupied b) s p)"

lemma match_visited_eq: "match_visited (b, p) = colour_group b p"
  using match.visited_iff[of _ "(b, p)"] by (auto simp: colour_group_def)

lemma top_visited_eq: "p \<in> top_visited b \<longleftrightarrow> supported b p"
  using support.visited_iff[of p b] by (auto simp: supported_def)

lemma colour_group_board: "in_board p \<Longrightarrow> q \<in> colour_group b p \<Longrightarrow> same_colour b (cell_at b (fst p) (snd p)) q"
  unfolding colour_group_def by (auto dest!: linked_ok simp: same_colour_def)

lemma finite_colour_group: "in_board p \<Longrightarrow> finite (colour_group b p)"
  using colour_group_board by (intro finite_subset[OF _ finite_in_board]) (auto simp: same_colour_def)

subsection \<open>What the removals do\<close>

lemma erase_cells:
  assumes "wf_board b" and "\<forall>p \<in> set ps. in_board p"
  shows "wf_board (foldl erase_cell b ps)"
    and "in_board q \<Longrightarrow> cell_at (foldl erase_cell b ps) (fst q) (snd q)
           = (if q \<in> set ps then -1 else cell_at b (fst q) (snd q))"
  using assms by (induction ps arbitrary: b) (auto simp: erase_cell_def prod_eq_iff)

lemma clearMatches_result:
  assumes wf: "wf_board b" and p: "inBoard r c" and col: "cell_at b r c \<ge> 0"
    and res: "clearMatches b r c = (b', n)"
  shows "n = (if card (colour_group b (r, c)) < 3 then 0 else int (card (colour_group b (r, c))))"
    and "wf_board b'"
    and "in_board q \<Longrightarrow> cell_at b' (fst q) (snd q)
           = (if 3 \<le> card (colour_group b (r, c)) \<and> q \<in> colour_group b (r, c) then -1
              else cell_at b (fst q) (snd q))"
proof -
  obtain vis grp where bfs: "bfs (\<lambda>p. cell_at b (fst p) (snd p) = cell_at b r c) [(r, c)] [(r, c)] [] = (vis, grp)"
    by fastforce
  have vis: "set vis = colour_group b (r, c)"
    using match_visited_eq[of b "(r, c)"] bfs by (simp add: match_visited_def)
  have grp: "set grp = set vis" "distinct grp"
    using bfs_visits(1,2)[OF _ _ bfs] by auto
  have len: "length grp = card (colour_group b (r, c))"
    using grp vis distinct_card by metis
  have inb: "\<forall>q \<in> set grp. in_board q"
    using colour_group_board[of "(r, c)" _ b] p grp vis by (auto simp: same_colour_def)
  have res': "(if length grp < 3 then (b, 0) else (foldl erase_cell b grp, int (length grp))) = (b', n)"
    using res col bfs by (simp add: clearMatches_def Let_def)
  then show "n = (if card (colour_group b (r, c)) < 3 then 0 else int (card (colour_group b (r, c))))"
    by (auto simp: len split: if_splits)
  show "wf_board b'" using res' erase_cells(1)[OF wf inb] wf by (auto split: if_splits)
  show "cell_at b' (fst q) (snd q)
      = (if 3 \<le> card (colour_group b (r, c)) \<and> q \<in> colour_group b (r, c) then -1
         else cell_at b (fst q) (snd q))" if "in_board q"
    using res' erase_cells(2)[OF wf inb that] grp(1) vis len by (auto split: if_splits)
qed

lemma drop_cells:
  assumes "wf_board b" and "\<forall>p \<in> set ps. in_board p" and "distinct ps"
    and "foldl (drop_cell vis) (b, k) ps = (b', n)"
  shows "wf_board b'"
    and "in_board q \<Longrightarrow> cell_at b' (fst q) (snd q)
           = (if q \<in> set ps \<and> occupied b q \<and> q \<notin> set vis then -1 else cell_at b (fst q) (snd q))"
    and "n = k + int (length (filter (\<lambda>q. occupied b q \<and> q \<notin> set vis) ps))"
proof -
  have "wf_board b' \<and> (\<forall>q. in_board q \<longrightarrow> cell_at b' (fst q) (snd q)
           = (if q \<in> set ps \<and> occupied b q \<and> q \<notin> set vis then -1 else cell_at b (fst q) (snd q)))
       \<and> n = k + int (length (filter (\<lambda>q. occupied b q \<and> q \<notin> set vis) ps))"
    using assms
  proof (induction ps arbitrary: b k)
    case Nil
    then show ?case by auto
  next
    case (Cons p ps)
    show ?case
    proof (cases "occupied b p \<and> p \<notin> set vis")
      case False
      then have "drop_cell vis (b, k) p = (b, k)"
        using Cons.prems(2) by (auto simp: drop_cell_def occupied_def)
      then show ?thesis using False Cons by auto
    next
      case True
      let ?b = "set_cell b (fst p) (snd p) (-1)"
      have p: "in_board p" using Cons.prems(2) by simp
      have "drop_cell vis (b, k) p = (?b, k + 1)" using True by (auto simp: drop_cell_def occupied_def)
      moreover have occ: "occupied ?b q \<longleftrightarrow> occupied b q" if "q \<in> set ps" for q
        using Cons.prems(1-3) p that cell_at_set_cell_pair[of b p q "-1"] by (auto simp: occupied_def)
      moreover have "filter (\<lambda>q. occupied ?b q \<and> q \<notin> set vis) ps = filter (\<lambda>q. occupied b q \<and> q \<notin> set vis) ps"
        using occ by (intro filter_cong) auto
      ultimately show ?thesis
        using Cons.IH[of ?b "k + 1"] Cons.prems p True cell_at_set_cell_pair[of b p _ "-1"]
        by (auto simp del: cell_at_set_cell)
    qed
  qed
  then show "wf_board b'"
    and "in_board q \<Longrightarrow> cell_at b' (fst q) (snd q)
           = (if q \<in> set ps \<and> occupied b q \<and> q \<notin> set vis then -1 else cell_at b (fst q) (snd q))"
    and "n = k + int (length (filter (\<lambda>q. occupied b q \<and> q \<notin> set vis) ps))"
    by blast+
qed

text \<open>The bubbles on a board, as the counting loop of \<open>checkState\<close> finds them.\<close>

definition count_bubbles :: "board \<Rightarrow> int" where
  "count_bubbles b = int (length (filter (\<lambda>p. cell_at b (fst p) (snd p) \<ge> 0) all_cells))"

lemma length_filter_all_cells: "length (filter P all_cells) = card {p. in_board p \<and> P p}"
proof -
  have "set (filter P all_cells) = {p. in_board p \<and> P p}" by auto
  then show ?thesis using distinct_card[of "filter P all_cells"] by simp
qed

lemma count_bubbles_card: "count_bubbles b = int (card {p. occupied b p})"
  by (simp add: count_bubbles_def length_filter_all_cells occupied_def)

lemma finite_occupied [simp]: "finite {p. occupied b p}" "finite {p. occupied b p \<and> P p}"
  by (rule finite_subset[OF _ finite_in_board]; auto simp: occupied_def)+

lemma dropFloating_result:
  assumes wf: "wf_board b" and res: "dropFloating b = (b', n)"
  shows "wf_board b'"
    and "in_board q \<Longrightarrow> cell_at b' (fst q) (snd q)
           = (if occupied b q \<and> \<not> supported b q then -1 else cell_at b (fst q) (snd q))"
    and "n = int (card {q. occupied b q \<and> \<not> supported b q})"
proof -
  let ?vis = "fst (bfs (\<lambda>p. \<not> cell_at b (fst p) (snd p) < 0) (top_seeds b) (rev (top_seeds b)) [])"
  have vis: "q \<in> set ?vis \<longleftrightarrow> supported b q" for q
    using top_visited_eq[of q b] by (simp add: top_visited_def)
  have fold: "foldl (drop_cell ?vis) (b, 0) all_cells = (b', n)"
    using res by (simp add: dropFloating_def Let_def)
  note drop = drop_cells[OF wf _ distinct_all_cells fold]
  show "wf_board b'" by (rule drop(1)) simp
  show "cell_at b' (fst q) (snd q)
      = (if occupied b q \<and> \<not> supported b q then -1 else cell_at b (fst q) (snd q))" if "in_board q"
    using drop(2)[of q] that vis by auto
  have "n = 0 + int (length (filter (\<lambda>q. occupied b q \<and> q \<notin> set ?vis) all_cells))"
    by (rule drop(3)) simp
  then show "n = int (card {q. occupied b q \<and> \<not> supported b q})"
    by (simp add: length_filter_all_cells vis) (auto simp: occupied_def intro!: arg_cong[where f = card])
qed

text \<open>After the drop every bubble left hangs on the top row, and nothing more would drop.\<close>

lemma dropFloating_occupied:
  assumes "wf_board b" and "dropFloating b = (b', n)"
  shows "occupied b' q \<longleftrightarrow> occupied b q \<and> supported b q"
  using dropFloating_result(2)[OF assms, of q]
  by (cases "in_board q"; cases "supported b q") (auto simp: occupied_def split: if_splits)

lemma dropFloating_supported:
  assumes wf: "wf_board b" and res: "dropFloating b = (b', n)" and q: "occupied b' q"
  shows "supported b' q"
proof -
  have occ: "occupied b' p \<longleftrightarrow> occupied b p \<and> p \<in> top_visited b" for p
    using dropFloating_occupied[OF wf res] top_visited_eq by blast
  then obtain s where s: "occupied b s" "fst s = 0"
    "linked nbrs (\<lambda>p. occupied b p \<and> p \<in> top_visited b) s q"
    using support.visited_linked_within[of q b] q by auto
  moreover have "occupied b' s" using s support.seeds_visited[of s b] by (simp add: occ)
  ultimately show ?thesis unfolding supported_def using occ linked_mono by (metis (no_types, lifting))
qed

lemma dropFloating_conserves:
  assumes wf: "wf_board b" and res: "dropFloating b = (b', n)"
  shows "count_bubbles b' + n = count_bubbles b"
proof -
  let ?keep = "{q. occupied b q \<and> supported b q}" and ?drop = "{q. occupied b q \<and> \<not> supported b q}"
  have "card (?keep \<union> ?drop) = card ?keep + card ?drop" by (intro card_Un_disjoint) auto
  moreover have "?keep \<union> ?drop = {q. occupied b q}" by auto
  moreover have "{q. occupied b' q} = ?keep" using dropFloating_occupied[OF wf res] by auto
  ultimately show ?thesis using dropFloating_result(3)[OF wf res] by (simp add: count_bubbles_card)
qed

lemma clearMatches_conserves:
  assumes wf: "wf_board b" and p: "inBoard r c" and col: "cell_at b r c \<ge> 0"
    and res: "clearMatches b r c = (b', n)"
  shows "count_bubbles b' + n = count_bubbles b"
proof -
  let ?G = "colour_group b (r, c)"
  note r = clearMatches_result[OF wf p col res]
  have G: "?G \<subseteq> {q. occupied b q}"
    using colour_group_board[of "(r, c)" _ b] p col by (auto simp: same_colour_def occupied_def)
  show ?thesis
  proof (cases "card ?G < 3")
    case True
    then have "{q. occupied b' q} = {q. occupied b q}" using r(3) by (auto simp: occupied_def)
    then show ?thesis using True r(1) by (simp add: count_bubbles_card)
  next
    case False
    then have "{q. occupied b' q} = {q. occupied b q} - ?G" using r(3) by (auto simp: occupied_def split: if_splits)
    moreover have "card ({q. occupied b q} - ?G) = card {q. occupied b q} - card ?G"
      using finite_colour_group[of "(r, c)" b] p G by (simp add: card_Diff_subset)
    moreover have "card ?G \<le> card {q. occupied b q}" using G by (simp add: card_mono)
    ultimately show ?thesis using False r(1) by (simp add: count_bubbles_card)
  qed
qed

end
