(* ===== verification/GoJson.thy ===== *)
theory GoJson
  imports GoFloat "HOL-Library.Word"
begin

text \<open>
  The dynamically typed values of the source: what \<open>structpb.Struct.AsMap\<close> and
  \<open>json.Decode\<close> into \<open>map[string]any\<close> produce, and what is sent back. Numbers are
  \<open>float64\<close>. The readers are Go's comma-ok type assertions, which give the zero value when
  the value is absent or of another type; the conversions are those of the services
  (\<open>toMap\<close>, \<open>toFloat64\<close>, \<open>toUint16\<close> in \<open>internal/room/service.go\<close> and
  \<open>internal/gamesvc/server.go\<close>).
\<close>

datatype jval =
    JNull
  | JBool bool
  | JNum float64
  | JStr string
  | JArr "jval list"
  | JObj "(string \<times> jval) list"

type_synonym jobj = "(string \<times> jval) list"

text \<open>An index into a map of values: \<open>nil\<close> for an absent key.\<close>

definition jget :: "jobj \<Rightarrow> string \<Rightarrow> jval" where
  "jget m k = (case map_of m k of None \<Rightarrow> JNull | Some v \<Rightarrow> v)"

fun as_string :: "jval \<Rightarrow> string" where
  "as_string (JStr s) = s"
| "as_string _ = ''''"

fun as_arr :: "jval \<Rightarrow> jval list" where
  "as_arr (JArr vs) = vs"
| "as_arr _ = []"

fun toMap :: "jval \<Rightarrow> jobj" where
  "toMap (JObj m) = m"
| "toMap _ = []"

fun toFloat64 :: "jval \<Rightarrow> float64" where
  "toFloat64 (JNum n) = n"
| "toFloat64 _ = Flt 0"

fun as_bool :: "jval \<Rightarrow> bool" where
  "as_bool (JBool b) = b"
| "as_bool _ = False"

text \<open>The answer to an HTTP request: an error status with its text, or a JSON document.\<close>

datatype http_reply = HttpError nat string | HttpJson jval

text \<open>
  \<open>uint16(f)\<close> on amd64: truncate to a 32-bit integer (where the value does not fit, the least
  one) and keep the low 16 bits.
\<close>

fun to_int32 :: "float64 \<Rightarrow> int" where
  "to_int32 (Flt a) =
     (let t = trunc_rat a in if - (2 ^ 31) \<le> t \<and> t < 2 ^ 31 then t else - (2 ^ 31))"
| "to_int32 x = - (2 ^ 31)"

definition toUint16 :: "jval \<Rightarrow> 16 word" where
  "toUint16 v = word_of_int (to_int32 (toFloat64 v))"

text \<open>
  \<open>uint64(f)\<close> on amd64: from two to the 63 on, the part above it is converted and the top
  bit is set.
\<close>

definition to_uint64 :: "float64 \<Rightarrow> 64 word" where
  "to_uint64 f =
     (if f < Flt (2 ^ 63) then word_of_int (to_int f)
      else word_of_int (to_int (f - Flt (2 ^ 63)) + 2 ^ 63))"

abbreviation jint :: "int \<Rightarrow> jval" where
  "jint n \<equiv> JNum (from_int n)"

text \<open>Every service answers \<open>{code, msg, body}\<close>.\<close>

definition mapResp :: "int \<Rightarrow> string \<Rightarrow> jobj \<Rightarrow> jval" where
  "mapResp code msg body = JObj [(''code'', jint code), (''msg'', JStr msg), (''body'', JObj body)]"

lemma jget_simps [simp]:
  "jget [] k = JNull"
  "jget ((k', v) # m) k = (if k = k' then v else jget m k)"
  by (auto simp: jget_def)

lemma toUint16_nat: "n < 2 ^ 16 \<Longrightarrow> toUint16 (jint (int n)) = of_nat n"
  by (simp add: toUint16_def from_int_exact of_nat_of_int_iff trunc_rat_of_int[of "int n", simplified])

end
