(* ===== verification/Engine.thy ===== *)
theory Engine
  imports Flood GoJson
begin

text \<open>
  The rules of the game: \<open>internal/gameplay/engine.go\<close> from the player state to every
  operation on it. \<open>rand.Intn(6)\<close> and \<open>rand.Float64()\<close> draws, the clock and the two
  trigonometric functions are arguments; a nil state is \<open>None\<close>; an error result is \<open>Inl\<close>.
  The counters the rules add to (\<open>ShotSeq\<close>, \<open>Score\<close>) are 64-bit words; readings of the clock
  are integers, and the difference of two is taken in 64 bits.
\<close>

definition math_Pi :: rat where
  "math_Pi = 314159265358979323846264338327950288419716939937510582097494459 / 10 ^ 62"

definition gbShootV :: float64 where "gbShootV = Flt 520"
definition gbMinAngle :: float64 where "gbMinAngle = rnd64 (- math_Pi + 1 / 5)"
definition gbMaxAngle :: float64 where "gbMaxAngle = rnd64 (- 1 / 5)"
definition gbMaxDt :: float64 where "gbMaxDt = rnd64 (33 / 1000)"

datatype status = StPlaying | StWin | StLose

record moving_bubble =
  mX :: float64
  mY :: float64
  mVX :: float64
  mVY :: float64
  mColor :: int

record player_state =
  stBoard :: board
  CurrentColor :: int
  NextColor :: int
  AimAngle :: float64
  Moving :: "moving_bubble option"
  PendingShot :: bool
  ShotSeq :: "64 word"
  ShotAngle :: float64
  ShotColor :: int
  ShotAtMS :: int
  Score :: "64 word"
  Status :: status
  LastTickMS :: int

datatype engine_error = StateNotFound | GameFinished | BubbleInFlight | NoPendingShot | InvalidLanding

fun engine_error_text :: "engine_error \<Rightarrow> string" where
  "engine_error_text StateNotFound = ''state not found''"
| "engine_error_text GameFinished = ''game already finished''"
| "engine_error_text BubbleInFlight = ''bubble_in_flight''"
| "engine_error_text NoPendingShot = ''no_pending_shot''"
| "engine_error_text InvalidLanding = ''invalid landing position''"

subsection \<open>A new game\<close>

definition empty_board :: board where
  "empty_board = replicate (nat gbRows) (replicate (nat gbCols) (-1))"

text \<open>\<open>coin r c\<close> and \<open>pick r c\<close> are the draws made at cell \<open>(r, c)\<close>.\<close>

definition fill_cell :: "(int \<Rightarrow> int \<Rightarrow> float64) \<Rightarrow> (int \<Rightarrow> int \<Rightarrow> int) \<Rightarrow> board \<Rightarrow> cell \<Rightarrow> board" where
  "fill_cell coin pick b p =
     (case p of (r, c) \<Rightarrow> if coin r c < rnd64 (78 / 100) then set_cell b r c (pick r c) else b)"

definition NewInitialState ::
  "int \<Rightarrow> int \<Rightarrow> int \<Rightarrow> (int \<Rightarrow> int \<Rightarrow> float64) \<Rightarrow> (int \<Rightarrow> int \<Rightarrow> int) \<Rightarrow> player_state" where
  "NewInitialState now cur nxt coin pick =
     \<lparr>stBoard = foldl (fill_cell coin pick) empty_board (concat (map row_cells [0..4])),
      CurrentColor = cur, NextColor = nxt, AimAngle = rnd64 (- math_Pi / 2), Moving = None,
      PendingShot = False, ShotSeq = 0, ShotAngle = rnd64 (- math_Pi / 2), ShotColor = 0,
      ShotAtMS = 0, Score = 0, Status = StPlaying, LastTickMS = now\<rparr>"

subsection \<open>Winning and losing\<close>

definition bottom_reached :: "board \<Rightarrow> bool" where
  "bottom_reached b = list_ex (\<lambda>p. cell_at b (fst p) (snd p) \<ge> 0) (row_cells (gbRows - 1))"

definition checkState :: "player_state \<Rightarrow> player_state" where
  "checkState st =
     (if count_bubbles (stBoard st) = 0 then st\<lparr>Status := StWin\<rparr>
      else if bottom_reached (stBoard st) then st\<lparr>Status := StLose\<rparr>
      else st\<lparr>Status := StPlaying\<rparr>)"

subsection \<open>Placing a bubble and resolving\<close>

text \<open>The cell a bubble at \<open>(x, y)\<close> lands in: \<open>None\<close> when no empty cell is near.\<close>

definition landing_cell :: "board \<Rightarrow> float64 \<Rightarrow> float64 \<Rightarrow> (int \<times> int) option" where
  "landing_cell b x y =
     (case nearestCell x y of (r, c) \<Rightarrow> (case clampCell r c of (row, col) \<Rightarrow>
        if cell_at b row col \<ge> 0 then findNearestEmpty b row col x y else Some (row, col)))"

definition placeAndResolve :: "player_state \<Rightarrow> int \<Rightarrow> player_state" where
  "placeAndResolve st draw =
     (case Moving st of
        None \<Rightarrow> st
      | Some m \<Rightarrow>
        (case landing_cell (stBoard st) (mX m) (mY m) of
           None \<Rightarrow> st\<lparr>Moving := None\<rparr>
         | Some (row, col) \<Rightarrow>
           (let b0 = set_cell (stBoard st) row col (mColor m);
                (b1, removed) = clearMatches b0 row col;
                score1 = (if removed > 0 then Score st + word_of_int (removed * 10) else Score st);
                (b2, dropped) = dropFloating b1;
                score2 = (if dropped > 0 then score1 + word_of_int (dropped * 15) else score1)
            in checkState (st\<lparr>stBoard := b2, Moving := None, Score := score2,
                 CurrentColor := NextColor st, NextColor := draw\<rparr>))))"

subsection \<open>The clock\<close>

text \<open>The \<open>int64\<close> an integer wraps around to.\<close>

definition wrap64 :: "int \<Rightarrow> int" where
  "wrap64 n = sint (word_of_int n :: 64 word)"

definition clamp_dt :: "float64 \<Rightarrow> float64" where
  "clamp_dt dt = (let dt0 = (if dt < Flt 0 then Flt 0 else dt) in if dt0 > gbMaxDt then gbMaxDt else dt0)"

definition bounce :: "moving_bubble \<Rightarrow> moving_bubble" where
  "bounce m =
     (if mX m \<le> gbRadius then m\<lparr>mX := gbRadius, mVX := math_Abs (mVX m)\<rparr>
      else if mX m \<ge> gbBoardW - gbRadius
        then m\<lparr>mX := gbBoardW - gbRadius, mVX := - math_Abs (mVX m)\<rparr>
      else m)"

definition move_bubble :: "moving_bubble \<Rightarrow> float64 \<Rightarrow> moving_bubble" where
  "move_bubble m dt = bounce (m\<lparr>mX := mX m + mVX m * dt, mY := mY m + mVY m * dt\<rparr>)"

definition TickState :: "player_state option \<Rightarrow> int \<Rightarrow> int \<Rightarrow> player_state option" where
  "TickState ost nowMS draw =
     (case ost of
        None \<Rightarrow> None
      | Some st \<Rightarrow>
        if Status st \<noteq> StPlaying then Some (st\<lparr>LastTickMS := nowMS\<rparr>)
        else
          (let dt = clamp_dt (from_int (wrap64 (nowMS - LastTickMS st)) / Flt 1000);
               st1 = st\<lparr>LastTickMS := nowMS\<rparr>
           in case Moving st of
                None \<Rightarrow> Some st1
              | Some m \<Rightarrow>
                (let m' = move_bubble m dt; st2 = st1\<lparr>Moving := Some m'\<rparr>
                 in if mY m' \<le> gbRadius \<or> collideBoard (stBoard st) (mX m') (mY m')
                    then Some (placeAndResolve st2 draw) else Some st2)))"

subsection \<open>A new layer from above\<close>

definition shift_cell :: "board \<Rightarrow> board \<Rightarrow> cell \<Rightarrow> board" where
  "shift_cell b nb p =
     (case p of (r, c) \<Rightarrow>
        let color = cell_at b r c
        in if color < 0 then nb
           else
             (let targetRow = r + 1;
                  targetCol = nearestColForRowX targetRow (fst (cellCenter r c))
              in if cell_at nb targetRow targetCol \<ge> 0
                 then (case nearestEmptyInRow (nb ! nat targetRow) targetCol of
                         Some alt \<Rightarrow> set_cell nb targetRow alt color
                       | None \<Rightarrow> nb)
                 else set_cell nb targetRow targetCol color))"

definition AddTopLayer :: "player_state \<Rightarrow> (int \<Rightarrow> int) \<Rightarrow> player_state" where
  "AddTopLayer st draw =
     (let nb = foldl (shift_cell (stBoard st)) empty_board
                 (concat (map row_cells (rev [0..gbRows - 2])));
          nb' = foldl (\<lambda>b p. set_cell b (fst p) (snd p) (draw (snd p))) nb (row_cells 0)
      in checkState (st\<lparr>stBoard := nb'\<rparr>))"

subsection \<open>The player's actions\<close>

definition ClampAim :: "float64 \<Rightarrow> float64" where
  "ClampAim angle =
     (if angle < gbMinAngle then gbMinAngle else if angle > gbMaxAngle then gbMaxAngle else angle)"

definition Fire ::
  "(float64 \<Rightarrow> float64) \<Rightarrow> (float64 \<Rightarrow> float64) \<Rightarrow> player_state option \<Rightarrow> float64 \<Rightarrow> engine_error + player_state" where
  "Fire math_Cos math_Sin ost ang =
     (case ost of
        None \<Rightarrow> Inl StateNotFound
      | Some st \<Rightarrow>
        if Status st \<noteq> StPlaying then Inl GameFinished
        else if Moving st \<noteq> None then Inl BubbleInFlight
        else
          (let angle = ClampAim ang
           in Inr (st\<lparr>AimAngle := angle,
                Moving := Some \<lparr>mX = gbBoardW / Flt 2, mY = gbShooterY,
                   mVX = math_Cos angle * gbShootV, mVY = math_Sin angle * gbShootV,
                   mColor = CurrentColor st\<rparr>\<rparr>)))"

definition BeginClientShot :: "player_state option \<Rightarrow> float64 \<Rightarrow> int \<Rightarrow> engine_error + player_state" where
  "BeginClientShot ost ang nowMS =
     (case ost of
        None \<Rightarrow> Inl StateNotFound
      | Some st \<Rightarrow>
        if Status st \<noteq> StPlaying then Inl GameFinished
        else if Moving st \<noteq> None \<or> PendingShot st then Inl BubbleInFlight
        else
          (let angle = ClampAim ang
           in Inr (st\<lparr>AimAngle := angle, PendingShot := True, ShotSeq := ShotSeq st + 1,
                ShotAngle := angle, ShotColor := CurrentColor st, ShotAtMS := nowMS\<rparr>)))"

definition CommitLanding ::
  "player_state option \<Rightarrow> float64 \<Rightarrow> float64 \<Rightarrow> float64 \<Rightarrow> int \<Rightarrow> engine_error + player_state" where
  "CommitLanding ost angle x y draw =
     (case ost of
        None \<Rightarrow> Inl StateNotFound
      | Some st \<Rightarrow>
        if Status st \<noteq> StPlaying then Inl GameFinished
        else if \<not> PendingShot st \<or> Moving st \<noteq> None then Inl NoPendingShot
        else if x < Flt 0 \<or> x > gbBoardW \<or> y < Flt 0 \<or> y > gbShooterY + gbRadius
          then Inl InvalidLanding
        else
          Inr (placeAndResolve
            (st\<lparr>AimAngle := ClampAim angle, PendingShot := False,
               Moving := Some \<lparr>mX = x, mY = y, mVX = Flt 0, mVY = Flt 0, mColor = ShotColor st\<rparr>\<rparr>)
            draw))"

text \<open>\<open>CloneState\<close> reads through the pointer: on nil the program panics (\<open>None\<close>).\<close>

fun status_text :: "status \<Rightarrow> string" where
  "status_text StPlaying = ''playing''"
| "status_text StWin = ''win''"
| "status_text StLose = ''lose''"

definition moving_json :: "moving_bubble option \<Rightarrow> jval" where
  "moving_json om =
     (case om of
        None \<Rightarrow> JNull
      | Some m \<Rightarrow> JObj [(''x'', JNum (mX m)), (''y'', JNum (mY m)), (''vx'', JNum (mVX m)),
                        (''vy'', JNum (mVY m)), (''color'', jint (mColor m))])"

definition CloneState :: "player_state option \<Rightarrow> jval option" where
  "CloneState ost =
     (case ost of
        None \<Rightarrow> None
      | Some st \<Rightarrow> Some (JObj
         [(''board'', JArr (map (\<lambda>row. JArr (map jint row)) (stBoard st))),
          (''current_color'', jint (CurrentColor st)), (''next_color'', jint (NextColor st)),
          (''aim_angle'', JNum (AimAngle st)), (''moving'', moving_json (Moving st)),
          (''pending_shot'', JBool (PendingShot st)), (''shot_seq'', jint (sint (ShotSeq st))),
          (''shot_angle'', JNum (ShotAngle st)), (''shot_color'', jint (ShotColor st)),
          (''shot_at_ms'', jint (ShotAtMS st)), (''score'', jint (sint (Score st))),
          (''state'', JStr (status_text (Status st)))]))"

end
