(* ===== verification/EngineProps.thy ===== *)
theory EngineProps
  imports Engine
begin

text \<open>
  Correctness of the rules of the game: well-formed states stay well-formed under every
  operation, a landed bubble is resolved as the rules say, a new layer loses no bubble, a
  moving bubble stays between the walls, and a finished game is frozen.
\<close>

subsection \<open>Well-formed states\<close>

definition colour :: "int \<Rightarrow> bool" where
  "colour k \<longleftrightarrow> 0 \<le> k \<and> k < 6"

definition wf_cells :: "board \<Rightarrow> bool" where
  "wf_cells b \<longleftrightarrow> wf_board b \<and> (\<forall>p. occupied b p \<longrightarrow> colour (cell_at b (fst p) (snd p)))"

definition wf_state :: "player_state \<Rightarrow> bool" where
  "wf_state st \<longleftrightarrow> wf_cells (stBoard st) \<and> colour (CurrentColor st) \<and> colour (NextColor st)
     \<and> colour (ShotColor st) \<and> (\<forall>m. Moving st = Some m \<longrightarrow> colour (mColor m))"

lemma wf_cells_board: "wf_cells b \<Longrightarrow> wf_board b"
  by (simp add: wf_cells_def)

lemma wf_empty_board [simp]: "wf_board empty_board"
  by (auto simp: wf_board_def empty_board_def)

lemma cell_empty_board [simp]: "in_board p \<Longrightarrow> cell_at empty_board (fst p) (snd p) = -1"
  by (simp add: cell_at_def empty_board_def inBoard_def nat_less_eq_zless)

lemma occupied_empty_board [simp]: "\<not> occupied empty_board p"
  by (auto simp: occupied_def)

lemma wf_cells_empty [simp]: "wf_cells empty_board"
  by (simp add: wf_cells_def)

lemma occupied_set_cell:
  assumes "wf_board b" and "in_board p"
  shows "occupied (set_cell b (fst p) (snd p) v) q
    \<longleftrightarrow> (if q = p then 0 \<le> v else occupied b q)"
  using assms by (auto simp: occupied_def cell_at_set_cell_pair simp del: cell_at_set_cell)

lemma wf_cells_set_cell [wf_intros]:
  assumes "wf_cells b" and "in_board p" and "colour v \<or> v = -1"
  shows "wf_cells (set_cell b (fst p) (snd p) v)"
proof -
  have wf: "wf_board b" using assms by (simp add: wf_cells_def)
  then show ?thesis
    using assms occupied_set_cell[OF wf assms(2)] cell_at_set_cell_pair[OF wf assms(2)]
    by (auto simp: wf_cells_def occupied_def colour_def simp del: cell_at_set_cell split: if_splits)
qed

text \<open>A removal keeps the colours of the bubbles it leaves.\<close>

lemma wf_cells_removal:
  assumes "wf_cells b" and "wf_board b'"
    and "\<And>q. in_board q \<Longrightarrow> cell_at b' (fst q) (snd q) = -1
           \<or> cell_at b' (fst q) (snd q) = cell_at b (fst q) (snd q)"
  shows "wf_cells b'"
  using assms unfolding wf_cells_def occupied_def by fastforce

subsection \<open>The landing cell\<close>

lemma landing_cell_Some:
  assumes "landing_cell b x y = Some (r, c)"
  shows "inBoard r c" and "cell_at b r c < 0"
proof -
  obtain r0 c0 where n: "nearestCell x y = (r0, c0)" by (cases "nearestCell x y")
  have in0: "inBoard r0 c0" using nearestCell_in_board[of x y] by (simp add: n)
  have cases: "(if cell_at b r0 c0 \<ge> 0 then findNearestEmpty b r0 c0 x y else Some (r0, c0)) = Some (r, c)"
    using assms by (simp add: landing_cell_def n clampCell_id[OF in0])
  show "inBoard r c" "cell_at b r c < 0"
    using cases in0 findNearestEmpty_Some(1)[of b r0 c0 x y r c]
    by (auto simp: candidate_def split: if_splits)
qed

lemma landing_cell_None:
  assumes "fbound 10 x" and "fbound 10 y" and "nearestCell x y = (r0, c0)"
  shows "landing_cell b x y = None \<longleftrightarrow>
    (\<forall>p. in_board p \<and> \<bar>fst p - r0\<bar> \<le> 2 \<and> \<bar>snd p - c0\<bar> \<le> 2 \<longrightarrow> occupied b p)"
proof -
  have in0: "inBoard r0 c0" using nearestCell_in_board[of x y] by (simp add: assms(3))
  have "landing_cell b x y = None \<longleftrightarrow> cell_at b r0 c0 \<ge> 0 \<and> (\<forall>p. \<not> candidate b r0 c0 p)"
    using findNearestEmpty_None[OF assms(1,2)] by (simp add: landing_cell_def assms(3) clampCell_id[OF in0])
  also have "\<dots> \<longleftrightarrow> (\<forall>p. \<not> candidate b r0 c0 p)"
    using in0 by (auto simp: candidate_def split_paired_all) (smt (verit))
  finally show ?thesis by (auto simp: candidate_def occupied_def not_less)
qed

subsection \<open>Resolving a landing\<close>

lemma checkState_simps [simp]:
  "stBoard (checkState st) = stBoard st" "CurrentColor (checkState st) = CurrentColor st"
  "NextColor (checkState st) = NextColor st" "Moving (checkState st) = Moving st"
  "PendingShot (checkState st) = PendingShot st" "Score (checkState st) = Score st"
  "ShotColor (checkState st) = ShotColor st" "ShotSeq (checkState st) = ShotSeq st"
  "LastTickMS (checkState st) = LastTickMS st" "AimAngle (checkState st) = AimAngle st"
  by (simp_all add: checkState_def)

lemma bottom_reached_iff: "bottom_reached b \<longleftrightarrow> (\<exists>c. occupied b (gbRows - 1, c))"
  by (auto simp: bottom_reached_def list_ex_iff set_row_cells occupied_def inBoard_def gb_defs)

lemma Status_checkState:
  "Status (checkState st) =
     (if \<forall>p. \<not> occupied (stBoard st) p then StWin
      else if \<exists>c. occupied (stBoard st) (gbRows - 1, c) then StLose else StPlaying)"
  by (auto simp: checkState_def count_bubbles_card bottom_reached_iff)

text \<open>
  What a resolved landing is, in terms of the specification: the group of the landed bubble
  disappears when it has three or more, then exactly those bubbles that no longer hang on the
  top row. \<open>b0\<close> is the board with the landed bubble, \<open>b1\<close> the one without its group; both are
  determined cell by cell, and so is the resulting board.
\<close>

definition resolved :: "board \<Rightarrow> int \<times> int \<Rightarrow> int \<Rightarrow> board \<Rightarrow> int \<Rightarrow> int \<Rightarrow> bool" where
  "resolved b p color b' removed dropped \<longleftrightarrow>
     (let b0 = set_cell b (fst p) (snd p) color; grp = colour_group b0 p;
          gone = (if 3 \<le> card grp then grp else {})
      in \<exists>b1. wf_board b1
       \<and> (\<forall>q. in_board q \<longrightarrow> cell_at b1 (fst q) (snd q) = (if q \<in> gone then -1 else cell_at b0 (fst q) (snd q)))
       \<and> removed = int (card gone)
       \<and> wf_board b'
       \<and> (\<forall>q. in_board q \<longrightarrow> cell_at b' (fst q) (snd q)
            = (if occupied b1 q \<and> \<not> supported b1 q then -1 else cell_at b1 (fst q) (snd q)))
       \<and> dropped = int (card {q. occupied b1 q \<and> \<not> supported b1 q})
       \<and> (\<forall>q. occupied b' q \<longrightarrow> supported b' q)
       \<and> count_bubbles b' + removed + dropped = count_bubbles b + 1)"

lemma count_bubbles_place:
  assumes "wf_board b" and "in_board p" and "cell_at b (fst p) (snd p) < 0" and "0 \<le> v"
  shows "count_bubbles (set_cell b (fst p) (snd p) v) = count_bubbles b + 1"
proof -
  have "{q. occupied (set_cell b (fst p) (snd p) v) q} = insert p {q. occupied b q}"
    using assms occupied_set_cell[OF assms(1,2)] by auto
  moreover have "\<not> occupied b p" using assms(3) by (simp add: occupied_def)
  ultimately show ?thesis by (simp add: count_bubbles_card)
qed

lemma placeAndResolve_placed:
  assumes wf: "wf_state st" and mov: "Moving st = Some m"
    and land: "landing_cell (stBoard st) (mX m) (mY m) = Some p"
  shows "\<exists>b' removed dropped.
    resolved (stBoard st) p (mColor m) b' removed dropped \<and> wf_cells b' \<and>
    placeAndResolve st draw = checkState (st\<lparr>stBoard := b', Moving := None,
      Score := Score st + word_of_int (removed * 10 + dropped * 15),
      CurrentColor := NextColor st, NextColor := draw\<rparr>)"
proof -
  obtain r c where p: "p = (r, c)" by (cases p)
  have cell: "inBoard r c" "cell_at (stBoard st) r c < 0"
    using landing_cell_Some land by (auto simp: p)
  have col: "colour (mColor m)" and wfc: "wf_cells (stBoard st)"
    using wf mov by (auto simp: wf_state_def)
  define b0 where "b0 = set_cell (stBoard st) r c (mColor m)"
  have wf0: "wf_cells b0"
    using wf_cells_set_cell[of "stBoard st" "(r, c)"] wfc cell col by (simp add: b0_def)
  have wfb: "wf_board (stBoard st)" "wf_board b0" using wfc wf0 by (simp_all add: wf_cells_def)
  have c0: "cell_at b0 r c \<ge> 0" using wfb cell col by (simp add: b0_def colour_def)
  have cnt0: "count_bubbles b0 = count_bubbles (stBoard st) + 1"
    using count_bubbles_place[of "stBoard st" "(r, c)" "mColor m"] wfb cell col
    by (simp add: b0_def colour_def)
  obtain b1 removed where clear: "clearMatches b0 r c = (b1, removed)" by fastforce
  note r1 = clearMatches_result[OF wfb(2) cell(1) c0 clear]
  obtain b2 dropped where drop: "dropFloating b1 = (b2, dropped)" by fastforce
  note r2 = dropFloating_result[OF r1(2) drop]
  have wf1: "wf_cells b1" by (rule wf_cells_removal[OF wf0 r1(2)]) (auto simp: r1(3))
  have wf2: "wf_cells b2" by (rule wf_cells_removal[OF wf1 r2(1)]) (auto simp: r2(2))
  have sc: "removed \<ge> 0" "dropped \<ge> 0" using r1(1) r2(3) by auto
  have res: "resolved (stBoard st) p (mColor m) b2 removed dropped"
    unfolding resolved_def p fst_conv snd_conv b0_def[symmetric] Let_def
  proof (intro exI[of _ b1] conjI)
    show "count_bubbles b2 + removed + dropped = count_bubbles (stBoard st) + 1"
      using cnt0 clearMatches_conserves[OF wfb(2) cell(1) c0 clear] dropFloating_conserves[OF r1(2) drop] by simp
  qed (use r1 r2 dropFloating_supported[OF r1(2) drop] in auto)
  have "placeAndResolve st draw = checkState (st\<lparr>stBoard := b2, Moving := None,
      Score := Score st + word_of_int (removed * 10 + dropped * 15),
      CurrentColor := NextColor st, NextColor := draw\<rparr>)"
    using sc by (cases "removed = 0"; cases "dropped = 0")
      (simp_all add: placeAndResolve_def mov land p Let_def clear drop b0_def[symmetric] add.assoc)
  with res wf2 show ?thesis by blast
qed

lemma placeAndResolve_full:
  "Moving st = Some m \<Longrightarrow> landing_cell (stBoard st) (mX m) (mY m) = None \<Longrightarrow>
     placeAndResolve st draw = st\<lparr>Moving := None\<rparr>"
  by (simp add: placeAndResolve_def)

lemma wf_state_checkState [simp, wf_intros]: "wf_state (checkState st) = wf_state st"
  by (simp add: wf_state_def)

lemma wf_placeAndResolve [wf_intros]:
  assumes wf: "wf_state st" and draw: "colour draw"
  shows "wf_state (placeAndResolve st draw)"
proof (cases "Moving st")
  case None
  then show ?thesis using wf by (simp add: placeAndResolve_def)
next
  case (Some m)
  show ?thesis
  proof (cases "landing_cell (stBoard st) (mX m) (mY m)")
    case None
    then show ?thesis using wf Some by (simp add: placeAndResolve_full wf_state_def)
  next
    case (Some p)
    then show ?thesis
      using placeAndResolve_placed[OF wf \<open>Moving st = Some m\<close> Some, of draw] wf draw
      by (auto simp: wf_state_def)
  qed
qed

subsection \<open>The row search\<close>

text \<open>An empty cell of the row at distance \<open>d\<close> from the centre.\<close>

definition empty_in_row :: "int list \<Rightarrow> int \<Rightarrow> bool" where
  "empty_in_row row k \<longleftrightarrow> 0 \<le> k \<and> k < int (length row) \<and> row ! nat k < 0"

lemma nearest_empty_from_spec:
  assumes "0 \<le> center" and "center < int (length row)" and "\<forall>d \<in> set ds. 0 < d"
  shows "case nearest_empty_from row center ds of
      None \<Rightarrow> \<forall>d \<in> set ds. \<not> empty_in_row row (center - d) \<and> \<not> empty_in_row row (center + d)
    | Some k \<Rightarrow> \<exists>ds1 d ds2. ds = ds1 @ d # ds2 \<and> (k = center - d \<or> k = center + d) \<and> empty_in_row row k
        \<and> (\<forall>d' \<in> set ds1. \<not> empty_in_row row (center - d') \<and> \<not> empty_in_row row (center + d'))"
  using assms(3)
proof (induction ds)
  case Nil
  then show ?case by simp
next
  case (Cons d ds)
  have d: "0 < d" using Cons.prems by simp
  consider "empty_in_row row (center - d)" | "\<not> empty_in_row row (center - d)" "empty_in_row row (center + d)"
    | "\<not> empty_in_row row (center - d)" "\<not> empty_in_row row (center + d)" by blast
  then show ?case
  proof cases
    case 1
    then have "nearest_empty_from row center (d # ds) = Some (center - d)"
      by (simp add: empty_in_row_def)
    then show ?thesis using 1 by (auto intro!: exI[of _ "[]"])
  next
    case 2
    then have "nearest_empty_from row center (d # ds) = Some (center + d)"
      using assms d by (auto simp: empty_in_row_def Let_def)
    then show ?thesis using 2 by (auto intro!: exI[of _ "[]"])
  next
    case 3
    then have eq: "nearest_empty_from row center (d # ds) = nearest_empty_from row center ds"
      using assms d by (auto simp: empty_in_row_def Let_def)
    show ?thesis
    proof (cases "nearest_empty_from row center ds")
      case None
      then show ?thesis using Cons 3 eq by auto
    next
      case (Some k)
      then obtain ds1 e ds2 where "ds = ds1 @ e # ds2" "k = center - e \<or> k = center + e" "empty_in_row row k"
        "\<forall>d' \<in> set ds1. \<not> empty_in_row row (center - d') \<and> \<not> empty_in_row row (center + d')"
        using Cons by auto
      then show ?thesis using 3 Some unfolding eq
        by (auto intro!: exI[of _ "d # ds1"])
    qed
  qed
qed

lemma nearestEmptyInRow_Some:
  assumes "0 \<le> center" and "center < int (length row)" and "nearestEmptyInRow row center = Some k"
  shows "empty_in_row row k" and "empty_in_row row k' \<Longrightarrow> \<bar>k - center\<bar> \<le> \<bar>k' - center\<bar>"
proof -
  have "empty_in_row row k \<and> (empty_in_row row k' \<longrightarrow> \<bar>k - center\<bar> \<le> \<bar>k' - center\<bar>)"
  proof (cases "empty_in_row row center")
    case True
    then have "k = center" using assms by (simp add: nearestEmptyInRow_def empty_in_row_def)
    then show ?thesis using True by simp
  next
    case False
    let ?ds = "[1..int (length row) - 1]"
    have "nearest_empty_from row center ?ds = Some k"
      using False assms by (simp add: nearestEmptyInRow_def empty_in_row_def)
    then obtain ds1 d ds2 where ds: "?ds = ds1 @ d # ds2" "k = center - d \<or> k = center + d" "empty_in_row row k"
      and none: "\<forall>d' \<in> set ds1. \<not> empty_in_row row (center - d') \<and> \<not> empty_in_row row (center + d')"
      using nearest_empty_from_spec[OF assms(1,2), of ?ds] by auto
    have srt: "sorted ?ds" by (rule sorted_upto)
    have d: "1 \<le> d" using ds(1) by (metis atLeastAtMost_iff in_set_conv_decomp set_upto)
    have "\<bar>k - center\<bar> \<le> \<bar>k' - center\<bar>" if k': "empty_in_row row k'"
    proof (rule ccontr)
      assume "\<not> \<bar>k - center\<bar> \<le> \<bar>k' - center\<bar>"
      then have lt: "\<bar>k' - center\<bar> < d" using ds(2) d by auto
      have "k' \<noteq> center" using False k' by auto
      then have "\<bar>k' - center\<bar> \<in> set ?ds" using k' assms by (auto simp: empty_in_row_def)
      then have "\<bar>k' - center\<bar> \<in> set ds1" using lt srt unfolding ds(1) by (auto simp: sorted_append)
      then show False using none k' by (auto simp: abs_if split: if_splits)
    qed
    then show ?thesis using ds(3) by blast
  qed
  then show "empty_in_row row k" and "empty_in_row row k' \<Longrightarrow> \<bar>k - center\<bar> \<le> \<bar>k' - center\<bar>" by blast+
qed

lemma nearestEmptyInRow_None:
  assumes "0 \<le> center" and "center < int (length row)" and "nearestEmptyInRow row center = None"
  shows "\<not> empty_in_row row k"
proof
  assume k: "empty_in_row row k"
  let ?ds = "[1..int (length row) - 1]"
  have c: "\<not> empty_in_row row center" and "nearest_empty_from row center ?ds = None"
    using assms by (auto simp: nearestEmptyInRow_def empty_in_row_def split: if_splits)
  then have none: "\<forall>d \<in> set ?ds. \<not> empty_in_row row (center - d) \<and> \<not> empty_in_row row (center + d)"
    using nearest_empty_from_spec[OF assms(1,2), of ?ds] by auto
  have "k \<noteq> center" using k c by auto
  then have "\<bar>k - center\<bar> \<in> set ?ds" using k assms by (auto simp: empty_in_row_def)
  then have "\<not> empty_in_row row (center - \<bar>k - center\<bar>) \<and> \<not> empty_in_row row (center + \<bar>k - center\<bar>)"
    using none by blast
  then show False using k by (auto simp: abs_if split: if_splits)
qed

subsection \<open>The new layer\<close>

lemma nearestColForRowX_range: "0 \<le> nearestColForRowX r x \<and> nearestColForRowX r x < gbCols"
  by (auto simp: nearestColForRowX_def Let_def gb_defs)

lemma empty_in_row_board:
  assumes "wf_board b" and "0 \<le> r" and "r < gbRows"
  shows "empty_in_row (b ! nat r) k \<longleftrightarrow> inBoard r k \<and> \<not> occupied b (r, k)"
proof -
  have "length (b ! nat r) = nat gbCols" using assms by (simp add: wf_board_def)
  then show ?thesis using assms by (auto simp: empty_in_row_def occupied_def inBoard_def cell_at_def gb_defs)
qed

definition row_bubbles :: "board \<Rightarrow> int \<Rightarrow> cell set" where
  "row_bubbles b r = {q. occupied b q \<and> fst q = r}"

lemma finite_row_bubbles [simp]: "finite (row_bubbles b r)"
  by (simp add: row_bubbles_def)

text \<open>
  One bubble moved down: it always finds a cell in its target row, because the bubbles
  already there came from other cells of the same source row.
\<close>

lemma shift_cell_placed:
  assumes wf: "wf_board nb" and occ: "occupied b (r, c)" and r: "r < gbRows - 1"
    and room: "card (row_bubbles nb (r + 1)) < 17"
  shows "\<exists>k. inBoard (r + 1) k \<and> \<not> occupied nb (r + 1, k)
    \<and> shift_cell b nb (r, c) = set_cell nb (r + 1) k (cell_at b r c)
    \<and> (\<not> occupied nb (r + 1, nearestColForRowX (r + 1) (fst (cellCenter r c))) \<longrightarrow>
         k = nearestColForRowX (r + 1) (fst (cellCenter r c)))"
proof -
  let ?t = "nearestColForRowX (r + 1) (fst (cellCenter r c))"
  have inb: "inBoard r c" and col: "\<not> cell_at b r c < 0" using occ by (auto simp: occupied_def)
  have t: "inBoard (r + 1) ?t" using inb r nearestColForRowX_range[of "r + 1"] by (simp add: inBoard_def)
  have row: "0 \<le> r + 1" "r + 1 < gbRows" using inb r by (auto simp: inBoard_def)
  have len: "length (nb ! nat (r + 1)) = 17" using wf row by (simp add: wf_board_def gb_defs)
  show ?thesis
  proof (cases "occupied nb (r + 1, ?t)")
    case False
    then have "shift_cell b nb (r, c) = set_cell nb (r + 1) ?t (cell_at b r c)"
      using col t by (auto simp: shift_cell_def Let_def occupied_def)
    then show ?thesis using False t by blast
  next
    case True
    have ex: "\<exists>k. empty_in_row (nb ! nat (r + 1)) k"
    proof (rule ccontr)
      assume "\<not> ?thesis"
      then have "set (row_cells (r + 1)) \<subseteq> row_bubbles nb (r + 1)"
        using empty_in_row_board[OF wf row] row by (auto simp: set_row_cells row_bubbles_def inBoard_def)
      moreover have "card (set (row_cells (r + 1))) = 17"
        by (subst distinct_card) (simp_all add: row_cells_def distinct_map inj_on_def gb_defs)
      ultimately show False using room card_mono[OF finite_row_bubbles] by (metis leD)
    qed
    then obtain k where k: "nearestEmptyInRow (nb ! nat (r + 1)) ?t = Some k"
      using nearestEmptyInRow_None[of ?t "nb ! nat (r + 1)"] t len
      by (cases "nearestEmptyInRow (nb ! nat (r + 1)) ?t") (auto simp: inBoard_def gb_defs)
    then have "empty_in_row (nb ! nat (r + 1)) k"
      using nearestEmptyInRow_Some(1)[of ?t "nb ! nat (r + 1)"] t len by (auto simp: inBoard_def gb_defs)
    then have "inBoard (r + 1) k \<and> \<not> occupied nb (r + 1, k)" using empty_in_row_board[OF wf row] by blast
    moreover have "shift_cell b nb (r, c) = set_cell nb (r + 1) k (cell_at b r c)"
      using col k True by (simp add: shift_cell_def Let_def occupied_def)
    ultimately show ?thesis using True by blast
  qed
qed

definition shift_inv :: "board \<Rightarrow> cell list \<Rightarrow> board \<Rightarrow> bool" where
  "shift_inv b ps nb \<longleftrightarrow>
     wf_board nb \<and> (\<forall>q. occupied nb q \<longrightarrow> 1 \<le> fst q) \<and>
     card {q. occupied nb q} = card {p \<in> set ps. occupied b p} \<and>
     (\<forall>r. card (row_bubbles nb (r + 1)) = card {p \<in> set ps. occupied b p \<and> fst p = r}) \<and>
     (\<forall>q. occupied nb q \<longrightarrow> (\<exists>p. occupied b p \<and> cell_at nb (fst q) (snd q) = cell_at b (fst p) (snd p))) \<and>
     (\<forall>q. occupied nb q \<and> (fst q - 1) mod 2 = 0 \<longrightarrow>
        (fst q - 1, snd q) \<in> set ps \<and> cell_at nb (fst q) (snd q) = cell_at b (fst q - 1) (snd q))"

text \<open>One more cell of the row above leaves room in the row below.\<close>

lemma shift_inv_room:
  assumes inv: "shift_inv b ps nb" and new: "p \<notin> set ps" and p: "in_board p"
  shows "card (row_bubbles nb (fst p + 1)) < 17"
proof -
  let ?seen = "{q \<in> set ps. occupied b q \<and> fst q = fst p}"
  have "?seen \<subseteq> set (row_cells (fst p)) - {p}"
    using new by (cases p) (auto simp: set_row_cells occupied_def inBoard_def)
  moreover have "card (set (row_cells (fst p))) = 17"
    by (subst distinct_card) (simp_all add: row_cells_def distinct_map inj_on_def gb_defs)
  moreover have "p \<in> set (row_cells (fst p))" using p by (cases p) (auto simp: set_row_cells inBoard_def)
  ultimately have "card ?seen \<le> 16" using card_mono[of "set (row_cells (fst p)) - {p}" ?seen] by simp
  then show ?thesis using inv by (simp add: shift_inv_def)
qed

text \<open>The numbers of bubbles after a bubble was put at a free cell of the next row.\<close>

lemma shift_inv_counts:
  assumes inv: "shift_inv b ps nb" and new: "p \<notin> set ps" and occp: "occupied b p"
    and free: "\<not> occupied nb (fst p + 1, k)" and occ: "\<And>q. occupied nb' q \<longleftrightarrow> q = (fst p + 1, k) \<or> occupied nb q"
  shows "card {q. occupied nb' q} = card {q \<in> set (ps @ [p]). occupied b q}"
    and "card (row_bubbles nb' (r + 1)) = card {q \<in> set (ps @ [p]). occupied b q \<and> fst q = r}"
proof -
  have "{q. occupied nb' q} = insert (fst p + 1, k) {q. occupied nb q}"
    "{q \<in> set (ps @ [p]). occupied b q} = insert p {q \<in> set ps. occupied b q}" using occ occp by auto
  then show "card {q. occupied nb' q} = card {q \<in> set (ps @ [p]). occupied b q}"
    using inv free new by (simp add: shift_inv_def)
  show "card (row_bubbles nb' (r + 1)) = card {q \<in> set (ps @ [p]). occupied b q \<and> fst q = r}"
  proof (cases "r = fst p")
    case True
    have "row_bubbles nb' (r + 1) = insert (r + 1, k) (row_bubbles nb (r + 1))"
      "{q \<in> set (ps @ [p]). occupied b q \<and> fst q = r} = insert p {q \<in> set ps. occupied b q \<and> fst q = r}"
      "(r + 1, k) \<notin> row_bubbles nb (r + 1)"
      using occ occp free True by (auto simp: row_bubbles_def)
    then show ?thesis using inv new by (simp add: shift_inv_def)
  next
    case False
    then have "row_bubbles nb' (r + 1) = row_bubbles nb (r + 1)"
      "{q \<in> set (ps @ [p]). occupied b q \<and> fst q = r} = {q \<in> set ps. occupied b q \<and> fst q = r}"
      using occ by (auto simp: row_bubbles_def)
    then show ?thesis using inv by (simp add: shift_inv_def)
  qed
qed

text \<open>From an even row, which is not shifted, a bubble falls straight down.\<close>

lemma shift_inv_even:
  assumes inv: "shift_inv b ps nb" and new: "(r, c) \<notin> set ps" and inb: "inBoard r c" and ev: "r mod 2 = 0"
    and tgt: "\<not> occupied nb (r + 1, nearestColForRowX (r + 1) (fst (cellCenter r c))) \<longrightarrow>
         k = nearestColForRowX (r + 1) (fst (cellCenter r c))"
  shows "k = c"
proof -
  have "nearestColForRowX (r + 1) (fst (cellCenter r c)) = c"
    using nearestColForRowX_below[OF inb, of "fst (cellCenter r c)" "snd (cellCenter r c)"] ev by simp
  moreover have "\<not> occupied nb (r + 1, c)"
  proof
    assume "occupied nb (r + 1, c)"
    then have "(r, c) \<in> set ps" using inv ev unfolding shift_inv_def by (metis add_diff_cancel_right' fst_conv snd_conv)
    then show False using new by blast
  qed
  ultimately show ?thesis using tgt by simp
qed

lemma shift_inv_put:
  assumes inv: "shift_inv b ps nb" and new: "(r, c) \<notin> set ps" and occp: "occupied b (r, c)" and r: "0 \<le> r"
    and k: "inBoard (r + 1) k" "\<not> occupied nb (r + 1, k)" and even: "r mod 2 = 0 \<Longrightarrow> k = c"
  shows "shift_inv b (ps @ [(r, c)]) (set_cell nb (r + 1) k (cell_at b r c))"
proof -
  let ?nb = "set_cell nb (r + 1) k (cell_at b r c)"
  have wf: "wf_board nb" using inv by (simp add: shift_inv_def)
  have v: "0 \<le> cell_at b r c" using occp by (simp add: occupied_def)
  have occ: "occupied ?nb q \<longleftrightarrow> q = (r + 1, k) \<or> occupied nb q" for q
    using occupied_set_cell[OF wf, of "(r + 1, k)" "cell_at b r c" q] k v by auto
  have at: "occupied ?nb q \<Longrightarrow> cell_at ?nb (fst q) (snd q) =
      (if q = (r + 1, k) then cell_at b r c else cell_at nb (fst q) (snd q))" for q
    using cell_at_set_cell_pair[OF wf, of "(r + 1, k)" q "cell_at b r c"] k by (auto simp: occupied_def)
  note counts = shift_inv_counts[OF inv new occp, unfolded fst_conv, OF k(2) occ]
  show ?thesis
    unfolding shift_inv_def
  proof (intro conjI allI impI)
    show "wf_board ?nb" using wf k by simp
    show "card {q. occupied ?nb q} = card {q \<in> set (ps @ [(r, c)]). occupied b q}" by (rule counts(1))
    show "card (row_bubbles ?nb (r' + 1)) = card {q \<in> set (ps @ [(r, c)]). occupied b q \<and> fst q = r'}" for r' by (rule counts(2))
    fix q
    show "1 \<le> fst q" if "occupied ?nb q"
      using that inv r occ by (cases q) (auto simp: shift_inv_def)
    show "\<exists>p. occupied b p \<and> cell_at ?nb (fst q) (snd q) = cell_at b (fst p) (snd p)" if q: "occupied ?nb q"
      using at[OF q] inv q occ occp by (auto simp: shift_inv_def split: if_splits)
    show "(fst q - 1, snd q) \<in> set (ps @ [(r, c)])" if q: "occupied ?nb q \<and> (fst q - 1) mod 2 = 0"
      using inv q occ even by (auto simp: shift_inv_def)
    show "cell_at ?nb (fst q) (snd q) = cell_at b (fst q - 1) (snd q)" if q: "occupied ?nb q \<and> (fst q - 1) mod 2 = 0"
      using at[of q] inv q occ even by (auto simp: shift_inv_def split: if_splits)
  qed
qed

lemma shift_inv_step:
  assumes inv: "shift_inv b ps nb" and new: "p \<notin> set ps" and p: "in_board p" "fst p < gbRows - 1"
  shows "shift_inv b (ps @ [p]) (shift_cell b nb p)"
proof (cases "occupied b p")
  case False
  then have "shift_cell b nb p = nb" using p by (cases p) (auto simp: shift_cell_def occupied_def Let_def)
  moreover have "{q \<in> set (ps @ [p]). occupied b q} = {q \<in> set ps. occupied b q}"
    "\<And>r. {q \<in> set (ps @ [p]). occupied b q \<and> fst q = r} = {q \<in> set ps. occupied b q \<and> fst q = r}"
    using False by auto
  ultimately show ?thesis using inv unfolding shift_inv_def by auto
next
  case True
  obtain r c where pc: "p = (r, c)" by (cases p)
  have wf: "wf_board nb" using inv by (simp add: shift_inv_def)
  have room: "card (row_bubbles nb (r + 1)) < 17" using shift_inv_room[OF inv new p(1)] by (simp add: pc)
  obtain k where k: "inBoard (r + 1) k" "\<not> occupied nb (r + 1, k)"
    and sh: "shift_cell b nb p = set_cell nb (r + 1) k (cell_at b r c)"
    and tgt: "\<not> occupied nb (r + 1, nearestColForRowX (r + 1) (fst (cellCenter r c))) \<longrightarrow>
         k = nearestColForRowX (r + 1) (fst (cellCenter r c))"
    using shift_cell_placed[OF wf, of b r c] True p room by (auto simp: pc)
  have inb: "inBoard r c" using p by (simp add: pc)
  have here: "(r, c) \<notin> set ps" "occupied b (r, c)" "0 \<le> r" using new True inb by (auto simp: pc inBoard_def)
  have "r mod 2 = 0 \<Longrightarrow> k = c" by (rule shift_inv_even[OF inv here(1) inb _ tgt])
  from shift_inv_put[OF inv here k this] show ?thesis unfolding sh by (simp add: pc)
qed

lemma shift_inv_fold:
  "distinct ps \<Longrightarrow> \<forall>p \<in> set ps. in_board p \<and> fst p < gbRows - 1 \<Longrightarrow>
     shift_inv b ps (foldl (shift_cell b) empty_board ps)"
proof (induction ps rule: rev_induct)
  case Nil
  then show ?case by (simp add: shift_inv_def row_bubbles_def)
next
  case (snoc p ps)
  then show ?case by (simp add: shift_inv_step)
qed

definition layer_cells :: "cell list" where
  "layer_cells = concat (map row_cells (rev [0..gbRows - 2]))"

lemma distinct_layer_cells: "distinct layer_cells"
  unfolding layer_cells_def
  by (rule distinct_concat) (auto simp: distinct_map inj_on_def row_cells_def gb_defs)

lemma set_layer_cells: "set layer_cells = {p. in_board p \<and> fst p < gbRows - 1}"
  by (auto simp: layer_cells_def set_row_cells inBoard_def gb_defs)

text \<open>The top row is filled with the drawn colours.\<close>

lemma fill_row:
  assumes "wf_board b" and "\<forall>p \<in> set ps. in_board p"
  shows "wf_board (foldl (\<lambda>b p. set_cell b (fst p) (snd p) (f (snd p))) b ps)"
    and "in_board q \<Longrightarrow> cell_at (foldl (\<lambda>b p. set_cell b (fst p) (snd p) (f (snd p))) b ps) (fst q) (snd q)
           = (if q \<in> set ps then f (snd q) else cell_at b (fst q) (snd q))"
  using assms
  by (induction ps arbitrary: b) (auto simp: cell_at_set_cell_pair simp del: cell_at_set_cell)

lemma top_row_cells: "p \<in> set (row_cells 0) \<longleftrightarrow> in_board p \<and> fst p = 0"
  by (cases p) (auto simp: set_row_cells inBoard_def gb_defs)

definition layered :: "board \<Rightarrow> (int \<Rightarrow> int) \<Rightarrow> board" where
  "layered b draw =
     foldl (\<lambda>b p. set_cell b (fst p) (snd p) (draw (snd p)))
       (foldl (shift_cell b) empty_board layer_cells) (row_cells 0)"

lemma AddTopLayer_layered: "AddTopLayer st draw = checkState (st\<lparr>stBoard := layered (stBoard st) draw\<rparr>)"
  by (simp add: AddTopLayer_def layered_def layer_cells_def Let_def)

lemma layered_props:
  fixes b :: board
  assumes draw: "\<And>c. colour (draw c)"
  defines "nb \<equiv> foldl (shift_cell b) empty_board layer_cells"
  shows "shift_inv b layer_cells nb"
    and "wf_board (layered b draw)"
    and "occupied (layered b draw) q \<longleftrightarrow> in_board q \<and> fst q = 0 \<or> occupied nb q"
    and "in_board q \<Longrightarrow> cell_at (layered b draw) (fst q) (snd q)
           = (if fst q = 0 then draw (snd q) else cell_at nb (fst q) (snd q))"
proof -
  show inv: "shift_inv b layer_cells nb"
    unfolding nb_def by (rule shift_inv_fold) (simp_all add: distinct_layer_cells set_layer_cells)
  then have wf: "wf_board nb" by (simp add: shift_inv_def)
  note fill = fill_row[OF wf, where ps = "row_cells 0" and f = draw]
  show "wf_board (layered b draw)" unfolding layered_def nb_def[symmetric]
    by (rule fill(1)) (use top_row_cells in blast)
  have "\<forall>p \<in> set (row_cells 0). in_board p" using top_row_cells by blast
  then show at: "cell_at (layered b draw) (fst q) (snd q)
      = (if fst q = 0 then draw (snd q) else cell_at nb (fst q) (snd q))" if "in_board q" for q
    using fill(2)[where q = q] that unfolding layered_def nb_def[symmetric] by (simp add: top_row_cells)
  show "occupied (layered b draw) q \<longleftrightarrow> in_board q \<and> fst q = 0 \<or> occupied nb q"
    using at[of q] draw[of "snd q"] by (auto simp: occupied_def colour_def split: if_splits)
qed

text \<open>Everything above the last row comes down one row; the top row is full.\<close>

lemma layered_count:
  assumes draw: "\<And>c. colour (draw c)"
  shows "count_bubbles (layered b draw) = 17 + int (card {p. occupied b p \<and> fst p < gbRows - 1})"
proof -
  let ?nb = "foldl (shift_cell b) empty_board layer_cells"
  note L = layered_props[OF draw, where b = b]
  have "{q. occupied (layered b draw) q} = set (row_cells 0) \<union> {q. occupied ?nb q}"
    using L(3) by (auto simp: top_row_cells)
  moreover have "set (row_cells 0) \<inter> {q. occupied ?nb q} = {}"
    using L(1) by (auto simp: top_row_cells shift_inv_def)
  moreover have "card (set (row_cells 0)) = 17"
    by (subst distinct_card) (simp_all add: row_cells_def distinct_map inj_on_def gb_defs)
  moreover have "{p \<in> set layer_cells. occupied b p} = {p. occupied b p \<and> fst p < gbRows - 1}"
    by (auto simp: set_layer_cells occupied_def)
  ultimately show ?thesis
    using L(1) by (simp add: count_bubbles_card card_Un_disjoint shift_inv_def)
qed

lemma layered_row_count:
  assumes draw: "\<And>c. colour (draw c)" and r: "0 \<le> r" "r < gbRows - 1"
  shows "card (row_bubbles (layered b draw) (r + 1)) = card (row_bubbles b r)"
proof -
  note L = layered_props[OF draw, where b = b]
  have "row_bubbles (layered b draw) (r + 1) = row_bubbles (foldl (shift_cell b) empty_board layer_cells) (r + 1)"
    using L(3) r by (auto simp: row_bubbles_def)
  moreover have "{p \<in> set layer_cells. occupied b p \<and> fst p = r} = row_bubbles b r"
    using r by (auto simp: set_layer_cells occupied_def row_bubbles_def)
  ultimately show ?thesis using L(1) by (simp add: shift_inv_def)
qed

lemma layered_even_rows:
  assumes draw: "\<And>c. colour (draw c)" and r: "0 \<le> r" "r < gbRows - 1" "r mod 2 = 0" and c: "0 \<le> c" "c < gbCols"
  shows "occupied (layered b draw) (r + 1, c) \<longrightarrow> occupied b (r, c) \<and> cell_at (layered b draw) (r + 1) c = cell_at b r c"
proof
  note L = layered_props[OF draw, where b = b]
  let ?nb = "foldl (shift_cell b) empty_board layer_cells"
  assume "occupied (layered b draw) (r + 1, c)"
  then have occ: "occupied ?nb (r + 1, c)" using L(3)[where q = "(r + 1, c)"] r by auto
  have "inBoard (r + 1) c" using r c by (simp add: inBoard_def)
  then have at: "cell_at (layered b draw) (r + 1) c = cell_at ?nb (r + 1) c"
    using L(4)[where q = "(r + 1, c)"] r by simp
  have "\<And>q. occupied ?nb q \<and> (fst q - 1) mod 2 = 0 \<Longrightarrow> cell_at ?nb (fst q) (snd q) = cell_at b (fst q - 1) (snd q)"
    using L(1) by (simp add: shift_inv_def)
  from this[of "(r + 1, c)"] have "cell_at ?nb (r + 1) c = cell_at b r c" using occ r by simp
  then show "occupied b (r, c) \<and> cell_at (layered b draw) (r + 1) c = cell_at b r c"
    using occ at r c by (auto simp: occupied_def inBoard_def)
qed

lemma wf_cells_layered:
  assumes "wf_cells b" and draw: "\<And>c. colour (draw c)"
  shows "wf_cells (layered b draw)"
proof -
  note L = layered_props[OF draw, where b = b]
  have "colour (cell_at (layered b draw) (fst q) (snd q))" if "occupied (layered b draw) q" for q
  proof (cases "fst q = 0")
    case True
    then show ?thesis using L(4)[where q = q] that draw by (simp add: occupied_def)
  next
    case False
    then have "occupied (foldl (shift_cell b) empty_board layer_cells) q" using L(3) that by auto
    then obtain p where "occupied b p"
      "cell_at (foldl (shift_cell b) empty_board layer_cells) (fst q) (snd q) = cell_at b (fst p) (snd p)"
      using L(1) unfolding shift_inv_def by blast
    then show ?thesis using False L(4)[where q = q] that assms(1) by (auto simp: occupied_def wf_cells_def)
  qed
  then show ?thesis using L(2) by (simp add: wf_cells_def)
qed

lemma wf_AddTopLayer [wf_intros]:
  "wf_state st \<Longrightarrow> (\<And>c. colour (draw c)) \<Longrightarrow> wf_state (AddTopLayer st draw)"
  using wf_cells_layered[of "stBoard st" draw] by (simp add: AddTopLayer_layered wf_state_def)

subsection \<open>The clock keeps a bubble between the walls\<close>

definition between_walls :: "float64 \<Rightarrow> bool" where
  "between_walls x \<longleftrightarrow> gbRadius \<le> x \<and> x \<le> gbBoardW - gbRadius"

lemma board_right: "gbBoardW - gbRadius = Flt 544"
  by (simp add: gb_defs minus_float64_def float_eval)

lemma bounce_between: "\<not> is_nan (mX m) \<Longrightarrow> between_walls (mX (bounce m))"
  unfolding between_walls_def bounce_def board_right
  by (cases "mX m") (auto simp: gb_defs is_nan_def)

text \<open>
  Speeds stay within 520, a bubble never moves down, and it stays between the walls, below the
  top edge and not below the shooter: no coordinate is NaN or infinite and no step overflows.
\<close>

definition wf_motion :: "moving_bubble \<Rightarrow> bool" where
  "wf_motion m \<longleftrightarrow> between_walls (mX m) \<and> fbound 10 (mVX m)
     \<and> gbRadius < mY m \<and> mY m \<le> gbShooterY \<and> fbound 10 (mVY m) \<and> mVY m \<le> Flt 0"

lemma between_fbound: "between_walls x \<Longrightarrow> fbound 10 x"
  unfolding between_walls_def board_right by (cases x) (auto simp: gb_defs pow2_def)

lemma math_Abs_fbound [simp]: "fbound k (math_Abs x) = fbound k x"
  by (cases x) (auto simp: fbound_def)

lemma clamp_dt_fbound:
  assumes "\<not> is_nan dt"
  shows "fbound 0 (clamp_dt dt) \<and> Flt 0 \<le> clamp_dt dt"
proof -
  have nonneg: "Flt 0 \<le> gbMaxDt"
    unfolding gbMaxDt_def by (rule rnd64_nonneg[where k = 0]) (auto simp: pow2_def)
  have "fbound 0 gbMaxDt" unfolding gbMaxDt_def by (rule fbound_rnd64) (auto simp: pow2_def)
  then obtain g where g: "gbMaxDt = Flt g" "\<bar>g\<bar> \<le> 1" by (auto simp: pow2_def elim: fbound_elim)
  have pos: "0 \<le> g" using nonneg unfolding g(1) by simp
  show ?thesis using assms g(2) pos
    by (cases dt) (auto simp: clamp_dt_def Let_def g(1) is_nan_def pow2_def)
qed

lemma elapsed_not_nan: "\<not> is_nan (from_int n / Flt 1000)"
proof -
  have cases: "(\<exists>r. rnd64 q = Flt r) \<or> rnd64 q = PosInf \<or> rnd64 q = NegInf" for q
    by (simp add: rnd64_def Let_def)
  have nn: "\<not> is_nan (rnd64 q)" for q using cases[of q] by (auto simp: is_nan_def)
  show ?thesis using cases[of "of_int n"] nn by (auto simp: from_int_def is_nan_def)
qed

lemma rising:
  assumes y: "Flt 16 < y" "y \<le> Flt 688" and v: "fbound 10 v" "v \<le> Flt 0" and dt: "fbound 0 dt" "Flt 0 \<le> dt"
  shows "fbound 11 (y + v * dt) \<and> y + v * dt \<le> Flt 688"
proof -
  obtain a where a: "y = Flt a" "16 < a" "a \<le> 688" using y by (cases y) auto
  obtain b where b: "v = Flt b" "\<bar>b\<bar> \<le> pow2 10" "b \<le> 0" using v by (auto elim!: fbound_elim)
  obtain d where d: "dt = Flt d" "\<bar>d\<bar> \<le> pow2 0" "0 \<le> d" using dt by (auto elim!: fbound_elim)
  have "fbound 10 (v * dt)" using fbound_times[of 10 v 0 dt] v dt by simp
  moreover have "v * dt \<le> Flt 0" unfolding b(1) d(1) times_float64.simps
  proof (rule rnd64_nonpos[where k = 10])
    show "b * d \<le> 0" using b(3) d(3) by (rule mult_nonpos_nonneg)
    show "\<bar>b * d\<bar> \<le> pow2 10"
      using mult_mono[OF b(2) d(2)] by (simp add: abs_mult pow2_def)
  qed simp
  ultimately obtain s where s: "v * dt = Flt s" "\<bar>s\<bar> \<le> pow2 10" "s \<le> 0" by (auto elim!: fbound_elim)
  have q: "\<bar>a + s\<bar> \<le> pow2 11" using a(2,3) s(2,3) by (auto simp: pow2_def abs_le_iff)
  have "fbound 11 (rnd64 (a + s))" using fbound_rnd64[OF q] by simp
  moreover have "rnd64 (a + s) \<le> Flt (of_int 688)"
    by (rule rnd64_le_int) (use a(3) s(3) q in \<open>auto simp: pow2_def abs_le_iff\<close>)
  ultimately show ?thesis by (simp add: a(1) s(1))
qed

lemma wf_motion_move:
  assumes m: "wf_motion m" and dt: "fbound 0 dt" "Flt 0 \<le> dt" and up: "\<not> mY (move_bubble m dt) \<le> gbRadius"
  shows "wf_motion (move_bubble m dt)"
proof -
  let ?x = "mX m + mVX m * dt" and ?y = "mY m + mVY m * dt"
  have "fbound 10 (mVX m * dt)" using fbound_times[of 10 "mVX m" 0 dt] m dt by (simp add: wf_motion_def)
  then have "fbound 11 ?x" using fbound_add[of 10 "mX m"] between_fbound m by (simp add: wf_motion_def)
  then have nan: "\<not> is_nan ?x" by (rule fbound_not_nan)
  have "fbound 10 (mVX (bounce m'))" if "fbound 10 (mVX m')" for m'
    using that by (simp add: bounce_def)
  moreover have y: "mY (move_bubble m dt) = ?y" "mVY (move_bubble m dt) = mVY m"
    by (simp_all add: move_bubble_def bounce_def)
  moreover have "fbound 11 ?y \<and> ?y \<le> gbShooterY"
    using rising[of "mY m" "mVY m" dt] m dt by (simp add: wf_motion_def gb_defs)
  moreover from this have "gbRadius < ?y"
    using up by (auto simp: y gbRadius_def elim!: fbound_elim)
  ultimately show ?thesis using bounce_between nan m by (auto simp: wf_motion_def) (simp_all add: move_bubble_def)
qed

text \<open>
  What is asked of \<open>math.Cos\<close> and \<open>math.Sin\<close>: on the angles the shooter can aim at (between
  \<open>-pi + 0.2\<close> and \<open>-0.2\<close>) both are between -1 and 1 and the sine is not positive. Nothing is
  asked at other angles, nor at NaN and the infinities.
\<close>

definition trig_ok :: "(float64 \<Rightarrow> float64) \<Rightarrow> (float64 \<Rightarrow> float64) \<Rightarrow> bool" where
  "trig_ok cs sn \<longleftrightarrow> (\<forall>a. gbMinAngle \<le> a \<and> a \<le> gbMaxAngle \<longrightarrow>
     fbound 0 (cs a) \<and> fbound 0 (sn a) \<and> sn a \<le> Flt 0)"

subsection \<open>Every operation keeps a state well-formed\<close>

lemma wf_TickState [wf_intros]:
  "wf_state st \<Longrightarrow> colour draw \<Longrightarrow> TickState (Some st) now draw = Some st' \<Longrightarrow> wf_state st'"
  by (auto simp: TickState_def Let_def wf_state_def move_bubble_def bounce_def split: if_splits option.splits
      intro!: wf_placeAndResolve[unfolded wf_state_def, simplified])

lemma wf_Fire [wf_intros]: "wf_state st \<Longrightarrow> Fire cs sn (Some st) a = Inr st' \<Longrightarrow> wf_state st'"
  by (auto simp: Fire_def Let_def wf_state_def split: if_splits)

lemma wf_BeginClientShot [wf_intros]:
  "wf_state st \<Longrightarrow> BeginClientShot (Some st) a now = Inr st' \<Longrightarrow> wf_state st'"
  by (auto simp: BeginClientShot_def Let_def wf_state_def split: if_splits)

lemma wf_CommitLanding [wf_intros]:
  "wf_state st \<Longrightarrow> colour draw \<Longrightarrow> CommitLanding (Some st) a x y draw = Inr st' \<Longrightarrow> wf_state st'"
  by (auto simp: CommitLanding_def wf_state_def split: if_splits
      intro!: wf_placeAndResolve[unfolded wf_state_def, simplified])

lemma wf_fill_cells:
  assumes "wf_cells b" and "\<forall>p \<in> set ps. in_board p" and "\<And>r c. colour (pick r c)"
  shows "wf_cells (foldl (fill_cell coin pick) b ps)"
  using assms(1,2)
proof (induction ps arbitrary: b)
  case Nil
  then show ?case by simp
next
  case (Cons p ps)
  have "wf_cells (fill_cell coin pick b p)"
    using Cons.prems wf_cells_set_cell[of b p] assms(3) by (cases p) (auto simp: fill_cell_def)
  then show ?case using Cons by simp
qed

lemma wf_NewInitialState [wf_intros]:
  assumes "colour cur" and "colour nxt" and "\<And>r c. colour (pick r c)"
  shows "wf_state (NewInitialState now cur nxt coin pick)"
proof -
  have "\<forall>p \<in> set (concat (map row_cells [0..4])). in_board p"
    by (auto simp: set_row_cells inBoard_def gb_defs)
  then have "wf_cells (foldl (fill_cell coin pick) empty_board (concat (map row_cells [0..4])))"
    using wf_fill_cells[OF wf_cells_empty, of _ pick coin] assms(3) by blast
  then show ?thesis using assms by (simp add: wf_state_def NewInitialState_def colour_def)
qed

lemma placeAndResolve_Moving: "Moving (placeAndResolve st draw) = None"
  by (simp add: placeAndResolve_def Let_def split: option.splits prod.splits)

lemma placeAndResolve_PendingShot [simp]: "PendingShot (placeAndResolve st draw) = PendingShot st"
  by (simp add: placeAndResolve_def Let_def split: option.splits prod.splits)

lemma placeAndResolve_ShotSeq [simp]: "ShotSeq (placeAndResolve st draw) = ShotSeq st"
  by (simp add: placeAndResolve_def Let_def split: option.splits prod.splits)

subsection \<open>The aim\<close>

lemma clamp_between:
  fixes lo :: float64
  assumes "lo < hi" and "\<not> is_nan lo" and "\<not> is_nan hi" and "\<not> is_nan a"
  defines "f \<equiv> \<lambda>a. if a < lo then lo else if a > hi then hi else a"
  shows "lo \<le> f a \<and> f a \<le> hi \<and> (lo \<le> a \<and> a \<le> hi \<longrightarrow> f a = a) \<and> f (f a) = f a"
  using assms(1-4) unfolding f_def
  by (cases lo; cases hi; cases a) (auto simp: is_nan_def split: if_splits)

lemma rnd64_below:
  assumes q: "q \<le> - pow2 k" "\<bar>q\<bar> \<le> pow2 1023" and k: "- 1022 \<le> k"
  shows "\<exists>r. rnd64 q = Flt r \<and> r \<le> - pow2 k"
proof -
  have neg: "q < 0" using q pow2_pos[of k] by linarith
  note e = expo_bounds[of q]
  have "pow2 k < pow2 (expo q + 1)" using e neg q(1) by linarith
  then have ke: "k \<le> expo q" by (simp add: pow2_less_iff)
  then have u: "ulp_exp q = expo q - 52" using k by (simp add: ulp_exp_def)
  have "pow2 (expo q) = pow2 52 * pow2 (ulp_exp q)" by (simp add: u flip: pow2_add)
  then have "q \<le> of_int (- (2 ^ 52)) * pow2 (ulp_exp q)" using e neg by (simp add: pow2_def)
  then have "q / pow2 (ulp_exp q) \<le> of_int (- (2 ^ 52))" by (simp add: pos_divide_le_eq)
  then have "round_even (q / pow2 (ulp_exp q)) \<le> - (2 ^ 52)" by (rule round_even_le)
  then have "of_int (round_even (q / pow2 (ulp_exp q))) \<le> (of_int (- (2 ^ 52)) :: rat)"
    by (simp only: of_int_le_iff)
  then have "of_int (round_even (q / pow2 (ulp_exp q))) * pow2 (ulp_exp q)
      \<le> of_int (- (2 ^ 52)) * pow2 (ulp_exp q)"
    by (rule mult_right_mono[OF _ less_imp_le[OF pow2_pos]])
  moreover have "of_int (- (2 ^ 52)) * pow2 (ulp_exp q) = - pow2 (expo q)"
    using pow2_add[of 52 "ulp_exp q"] by (simp add: u) (simp add: pow2_def)
  moreover have "- pow2 (expo q) \<le> - pow2 k" using pow2_mono[OF ke] by simp
  ultimately have "of_int (round_even (q / pow2 (ulp_exp q))) * pow2 (ulp_exp q) \<le> - pow2 k" by linarith
  moreover obtain r where "rnd64 q = Flt r" using rnd64_bound[OF q(2)] by auto
  ultimately show ?thesis using neg by (auto simp: rnd64_def Let_def split: if_splits)
qed

lemma aim_range: "gbMinAngle < gbMaxAngle \<and> \<not> is_nan gbMinAngle \<and> \<not> is_nan gbMaxAngle
  \<and> gbMaxAngle < Flt 0"
proof -
  obtain r where r: "gbMinAngle = Flt r" "r \<le> - 2"
    using rnd64_below[of "- math_Pi + 1 / 5" 1] by (auto simp: gbMinAngle_def math_Pi_def pow2_def)
  obtain r' where r': "gbMaxAngle = Flt r'" "\<bar>r'\<bar> \<le> 1 / 4"
    using rnd64_bound[of "- 1 / 5" "- 2"] by (auto simp: gbMaxAngle_def pow2_def)
  obtain r'' where "gbMaxAngle = Flt r''" "r'' \<le> - 1 / 8"
    using rnd64_below[of "- 1 / 5" "- 3"] by (auto simp: gbMaxAngle_def pow2_def)
  then have "r' \<le> - 1 / 8" using r'(1) by (metis float64.inject)
  then show ?thesis using r(2) r'(2) unfolding r(1) r'(1) by (simp add: is_nan_def)
qed

subsection \<open>Reachable states and runs of a session\<close>

text \<open>
  A server keeps the old state when an operation reports an error (\<open>_ = gameplay.\<dots>\<close>).
\<close>

definition keep_on_error :: "player_state \<Rightarrow> engine_error + player_state \<Rightarrow> player_state" where
  "keep_on_error st r = (case r of Inl _ \<Rightarrow> st | Inr st' \<Rightarrow> st')"

datatype play_event =
    EvTick int int
  | EvFire float64
  | EvShot float64 int
  | EvLand float64 float64 float64 int
  | EvAim float64
  | EvLayer "int \<Rightarrow> int"

fun play :: "(float64 \<Rightarrow> float64) \<Rightarrow> (float64 \<Rightarrow> float64) \<Rightarrow> player_state \<Rightarrow> play_event \<Rightarrow> player_state" where
  "play cs sn st (EvTick now draw) = the (TickState (Some st) now draw)"
| "play cs sn st (EvFire a) = keep_on_error st (Fire cs sn (Some st) a)"
| "play cs sn st (EvShot a now) = keep_on_error st (BeginClientShot (Some st) a now)"
| "play cs sn st (EvLand a x y draw) = keep_on_error st (CommitLanding (Some st) a x y draw)"
| "play cs sn st (EvAim a) = st\<lparr>AimAngle := ClampAim a\<rparr>"
| "play cs sn st (EvLayer draw) = AddTopLayer st draw"

text \<open>
  The draws of \<open>rand.Intn(6)\<close> in an event are colours, and the angle of a shot is a number: it
  comes from a JSON document, which cannot hold NaN.
\<close>

fun fair_event :: "play_event \<Rightarrow> bool" where
  "fair_event (EvTick now draw) = colour draw"
| "fair_event (EvLand a x y draw) = colour draw"
| "fair_event (EvLayer draw) = (\<forall>c. colour (draw c))"
| "fair_event (EvFire a) = (\<not> is_nan a)"
| "fair_event _ = True"

inductive reachable_state :: "(float64 \<Rightarrow> float64) \<Rightarrow> (float64 \<Rightarrow> float64) \<Rightarrow> player_state \<Rightarrow> bool"
  for cs sn where
  new_game: "colour cur \<Longrightarrow> colour nxt \<Longrightarrow> \<forall>r c. colour (pick r c) \<Longrightarrow>
     reachable_state cs sn (NewInitialState now cur nxt coin pick)"
| event: "reachable_state cs sn st \<Longrightarrow> fair_event e \<Longrightarrow> reachable_state cs sn (play cs sn st e)"
| outcome: "reachable_state cs sn st \<Longrightarrow> reachable_state cs sn (st\<lparr>Status := s\<rparr>)"
| stopped: "reachable_state cs sn st \<Longrightarrow>
     reachable_state cs sn (st\<lparr>Moving := None, PendingShot := False, Status := s\<rparr>)"

definition moving_ok :: "player_state \<Rightarrow> bool" where
  "moving_ok st \<longleftrightarrow> (\<forall>m. Moving st = Some m \<longrightarrow> wf_motion m)"

lemma TickState_Some: "\<exists>st'. TickState (Some st) now draw = Some st'"
  by (auto simp: TickState_def Let_def split: option.splits)

lemma moving_ok_TickState:
  assumes "moving_ok st" and "TickState (Some st) now draw = Some st'"
  shows "moving_ok st'"
proof -
  let ?dt = "clamp_dt (from_int (wrap64 (now - LastTickMS st)) / Flt 1000)"
  have dt: "fbound 0 ?dt" "Flt 0 \<le> ?dt"
    using clamp_dt_fbound[OF elapsed_not_nan] by blast+
  show ?thesis
    using assms wf_motion_move[OF _ dt]
    by (auto simp: TickState_def Let_def moving_ok_def placeAndResolve_Moving split: if_splits option.splits)
qed

lemma times_nonpos:
  assumes "fbound 0 v" and "v \<le> Flt 0"
  shows "fbound 10 (v * gbShootV) \<and> v * gbShootV \<le> Flt 0"
proof -
  obtain b where b: "v = Flt b" "\<bar>b\<bar> \<le> 1" "b \<le> 0" using assms by (auto simp: pow2_def elim!: fbound_elim)
  have "fbound (0 + 10) (v * gbShootV)"
    by (rule fbound_times) (use assms in \<open>auto simp: gbShootV_def pow2_def\<close>)
  moreover have "rnd64 (b * 520) \<le> Flt 0"
    by (rule rnd64_nonpos[where k = 10]) (use b in \<open>auto simp: pow2_def abs_le_iff\<close>)
  ultimately show ?thesis by (simp add: b(1) gbShootV_def)
qed

lemma start_motion:
  assumes "fbound 0 vx" and "fbound 0 vy" and "vy \<le> Flt 0"
  shows "wf_motion \<lparr>mX = gbBoardW / Flt 2, mY = gbShooterY, mVX = vx * gbShootV, mVY = vy * gbShootV, mColor = k\<rparr>"
proof -
  have "fbound 10 gbShootV" by (simp add: gbShootV_def pow2_def)
  then have "fbound (0 + 10) (vx * gbShootV)" using assms by (intro fbound_times) auto
  moreover have "gbBoardW / Flt 2 = Flt 280" by (simp add: gb_defs float_eval)
  ultimately show ?thesis using times_nonpos[OF assms(2,3)]
    unfolding wf_motion_def between_walls_def board_right by (simp add: gbRadius_def gbShooterY_def)
qed

lemma wf_play:
  assumes "wf_state st" and "fair_event e"
  shows "wf_state (play cs sn st e)"
proof (cases e)
  case (EvTick now draw)
  then show ?thesis using TickState_Some[of st now draw] wf_TickState assms by auto
next
  case (EvFire a)
  then show ?thesis using assms by (auto simp: keep_on_error_def dest: wf_Fire split: sum.splits)
next
  case (EvShot a now)
  then show ?thesis using assms by (auto simp: keep_on_error_def dest: wf_BeginClientShot split: sum.splits)
next
  case (EvLand a x y draw)
  then show ?thesis using assms by (auto simp: keep_on_error_def dest: wf_CommitLanding split: sum.splits)
next
  case (EvAim a)
  then show ?thesis using assms by (simp add: wf_state_def)
next
  case (EvLayer draw)
  then show ?thesis using assms by (auto intro: wf_AddTopLayer)
qed

lemma moving_play:
  assumes mov: "moving_ok st" and e: "fair_event e" and cs: "trig_ok cs sn"
  shows "moving_ok (play cs sn st e)"
proof (cases e)
  case (EvTick now draw)
  then show ?thesis using TickState_Some[of st now draw] moving_ok_TickState mov by auto
next
  case (EvFire a)
  then have "gbMinAngle \<le> ClampAim a \<and> ClampAim a \<le> gbMaxAngle"
    using clamp_between[of gbMinAngle gbMaxAngle a] aim_range e by (simp add: ClampAim_def)
  then show ?thesis using EvFire mov start_motion[of "cs (ClampAim a)" "sn (ClampAim a)"] cs
    by (auto simp: keep_on_error_def Fire_def Let_def moving_ok_def trig_ok_def split: sum.splits)
next
  case (EvShot a now)
  then show ?thesis using mov by (auto simp: keep_on_error_def BeginClientShot_def Let_def moving_ok_def)
next
  case (EvLand a x y draw)
  then show ?thesis using mov
    by (auto simp: keep_on_error_def CommitLanding_def moving_ok_def placeAndResolve_Moving)
next
  case (EvAim a)
  then show ?thesis using mov by (simp add: moving_ok_def)
next
  case (EvLayer draw)
  then show ?thesis using mov by (simp add: moving_ok_def AddTopLayer_layered)
qed

lemma play_invariant:
  assumes "wf_state st" and "moving_ok st" and "fair_event e" and "trig_ok cs sn"
  shows "wf_state (play cs sn st e)" and "moving_ok (play cs sn st e)"
  using wf_play moving_play assms by auto

subsection \<open>Counting shots and landings\<close>

fun accepted_shot :: "player_state \<Rightarrow> play_event \<Rightarrow> nat" where
  "accepted_shot st (EvShot a now) = (case BeginClientShot (Some st) a now of Inr _ \<Rightarrow> 1 | Inl _ \<Rightarrow> 0)"
| "accepted_shot st _ = 0"

fun accepted_landing :: "player_state \<Rightarrow> play_event \<Rightarrow> nat" where
  "accepted_landing st (EvLand a x y draw) =
     (case CommitLanding (Some st) a x y draw of Inr _ \<Rightarrow> 1 | Inl _ \<Rightarrow> 0)"
| "accepted_landing st _ = 0"

fun shots :: "(float64 \<Rightarrow> float64) \<Rightarrow> (float64 \<Rightarrow> float64) \<Rightarrow> player_state \<Rightarrow> play_event list \<Rightarrow> nat" where
  "shots cs sn st [] = 0"
| "shots cs sn st (e # es) = accepted_shot st e + shots cs sn (play cs sn st e) es"

fun landings :: "(float64 \<Rightarrow> float64) \<Rightarrow> (float64 \<Rightarrow> float64) \<Rightarrow> player_state \<Rightarrow> play_event list \<Rightarrow> nat" where
  "landings cs sn st [] = 0"
| "landings cs sn st (e # es) = accepted_landing st e + landings cs sn (play cs sn st e) es"

abbreviation pending_count :: "player_state \<Rightarrow> nat" where
  "pending_count st \<equiv> (if PendingShot st then 1 else 0)"

lemma TickState_keeps_shot:
  "PendingShot (the (TickState (Some st) now draw)) = PendingShot st"
  "ShotSeq (the (TickState (Some st) now draw)) = ShotSeq st"
  by (simp_all add: TickState_def Let_def split: option.splits)

lemma checkState_shot [simp]:
  "PendingShot (checkState st) = PendingShot st" "ShotSeq (checkState st) = ShotSeq st"
  by (simp_all add: checkState_def)

lemma one_event_balance:
  "pending_count (play cs sn st e) + accepted_landing st e = pending_count st + accepted_shot st e
   \<and> ShotSeq (play cs sn st e) = ShotSeq st + of_nat (accepted_shot st e)"
  by (cases e) (auto simp: TickState_keeps_shot keep_on_error_def Fire_def BeginClientShot_def
      CommitLanding_def AddTopLayer_def Let_def)

lemma shots_balance:
  "pending_count (foldl (play cs sn) st es) + landings cs sn st es = pending_count st + shots cs sn st es
   \<and> ShotSeq (foldl (play cs sn) st es) = ShotSeq st + of_nat (shots cs sn st es)"
proof (induction es arbitrary: st)
  case Nil
  show ?case by simp
next
  case (Cons e es)
  note IH = Cons.IH[of "play cs sn st e"] and one = one_event_balance[of cs sn st e]
  have "pending_count (foldl (play cs sn) st (e # es)) + landings cs sn st (e # es)
      = pending_count st + shots cs sn st (e # es)"
    using conjunct1[OF IH] conjunct1[OF one] unfolding landings.simps shots.simps foldl_Cons by linarith
  moreover have "ShotSeq (foldl (play cs sn) st (e # es)) = ShotSeq st + of_nat (shots cs sn st (e # es))"
    using conjunct2[OF IH] conjunct2[OF one] by (simp add: add.assoc)
  ultimately show ?case by blast
qed

subsection \<open>A finished game\<close>

fun is_layer :: "play_event \<Rightarrow> bool" where
  "is_layer (EvLayer draw) = True"
| "is_layer _ = False"

lemma play_finished:
  assumes "Status st \<noteq> StPlaying" and "\<not> is_layer e"
  shows "\<exists>a t. play cs sn st e = st\<lparr>AimAngle := a, LastTickMS := t\<rparr>"
proof -
  have same: "\<exists>a t. st = st\<lparr>AimAngle := a, LastTickMS := t\<rparr>"
    by (intro exI[of _ "AimAngle st"] exI[of _ "LastTickMS st"]) simp
  show ?thesis
  proof (cases e)
    case (EvTick now draw)
    then have "play cs sn st e = st\<lparr>AimAngle := AimAngle st, LastTickMS := now\<rparr>"
      using assms(1) by (simp add: TickState_def)
    then show ?thesis by blast
  next
    case (EvAim a)
    then have "play cs sn st e = st\<lparr>AimAngle := ClampAim a, LastTickMS := LastTickMS st\<rparr>" by simp
    then show ?thesis by blast
  qed (use assms same in \<open>auto simp: keep_on_error_def Fire_def BeginClientShot_def CommitLanding_def\<close>)
qed

subsection \<open>The states of the servers, where no bubble flies\<close>

definition player_ok :: "player_state \<Rightarrow> bool" where
  "player_ok st \<longleftrightarrow> wf_state st \<and> Moving st = None"

text \<open>An operation on one player that keeps whoever has lost a loser.\<close>

definition loser_stays :: "player_state \<Rightarrow> player_state \<Rightarrow> bool" where
  "loser_stays st st' \<longleftrightarrow> (Status st = StLose \<longrightarrow> Status st' = StLose)"

lemma shot_ok:
  assumes "BeginClientShot (Some st) a t = Inr st'" and "player_ok st"
  shows "player_ok st' \<and> loser_stays st st'"
  using assms wf_BeginClientShot[of st a t st']
  by (auto simp: player_ok_def loser_stays_def BeginClientShot_def Let_def split: if_splits)

lemma landing_ok:
  assumes "CommitLanding (Some st) a x y draw = Inr st'" and "player_ok st" and "colour draw"
  shows "player_ok st' \<and> loser_stays st st'"
  using assms wf_CommitLanding[of st draw a x y st']
  by (auto simp: player_ok_def loser_stays_def CommitLanding_def placeAndResolve_Moving split: if_splits)

lemma tick_ok:
  assumes "player_ok st"
  shows "player_ok (the (TickState (Some st) now draw)) \<and> loser_stays st (the (TickState (Some st) now draw))"
  using assms by (auto simp: player_ok_def loser_stays_def TickState_def Let_def wf_state_def)

text \<open>
  What a server may assume of the rules when it keeps a table of states: a property of states that new games have and
  every operation it calls keeps. The servers' tables are handled under this interface.
\<close>

locale game_rules =
  fixes ok :: "player_state \<Rightarrow> bool"
  assumes new: "colour cur \<Longrightarrow> colour nxt \<Longrightarrow> \<forall>r c. colour (pick r c) \<Longrightarrow> ok (NewInitialState now cur nxt coin pick)"
    and shot: "BeginClientShot (Some st) a t = Inr st' \<Longrightarrow> ok st \<Longrightarrow> ok st'"
    and landing: "CommitLanding (Some st) a x y draw = Inr st' \<Longrightarrow> ok st \<Longrightarrow> colour draw \<Longrightarrow> ok st'"
    and tick: "ok st \<Longrightarrow> colour draw \<Longrightarrow> ok (the (TickState (Some st) now draw))"
    and layer: "ok st \<Longrightarrow> \<forall>i. colour (row i) \<Longrightarrow> ok (AddTopLayer st row)"
    and aim: "ok st \<Longrightarrow> ok (st\<lparr>AimAngle := ClampAim a\<rparr>)"
    and outcome: "ok st \<Longrightarrow> ok (st\<lparr>Status := v\<rparr>)"
    and settle: "ok st \<Longrightarrow> ok (st\<lparr>Moving := None, PendingShot := False\<rparr>)"

lemma AddTopLayer_Moving [simp]: "Moving (AddTopLayer st draw) = Moving st"
  by (simp add: AddTopLayer_def Let_def checkState_def)

lemma Moving_NewInitialState: "Moving (NewInitialState t c n coin pick) = None"
  by (simp add: NewInitialState_def)

lemma player_ok_new:
  "colour cur \<Longrightarrow> colour nxt \<Longrightarrow> \<forall>r c. colour (pick r c) \<Longrightarrow> player_ok (NewInitialState now cur nxt coin pick)"
  using wf_NewInitialState[of cur nxt pick] by (simp only: player_ok_def Moving_NewInitialState)

lemma player_ok_layer: "player_ok st \<Longrightarrow> \<forall>c. colour (draw c) \<Longrightarrow> player_ok (AddTopLayer st draw)"
  using wf_AddTopLayer[of st draw] by (simp only: player_ok_def AddTopLayer_Moving)

interpretation still: game_rules player_ok
proof (unfold_locales, goal_cases)
  case (2 st a t st')
  then show ?case using shot_ok by blast
next
  case (3 st a x y draw st')
  then show ?case using landing_ok by blast
next
  case (4 st draw now)
  then show ?case using tick_ok by blast
qed (simp_all add: player_ok_new player_ok_layer, simp_all add: player_ok_def wf_state_def)

end
