(* ===== verification/EngineSpec.thy ===== *)
theory EngineSpec
  imports EngineProps
begin

text \<open>
  The properties of the game engine (\<open>internal/gameplay/engine.go\<close>), each with a witness at
  a concrete board. The sample board has two bubbles of colour 2 in the top row; the sample
  shot has the same colour and lands beside them.
\<close>

definition sample_board :: board where
  "sample_board = set_cell (set_cell empty_board 0 0 2) 0 1 2"

definition sample_state :: player_state where
  "sample_state =
     \<lparr>stBoard = sample_board, CurrentColor = 2, NextColor = 3, AimAngle = Flt (- 1), Moving = None,
      PendingShot = True, ShotSeq = 1, ShotAngle = Flt (- 1), ShotColor = 2, ShotAtMS = 5, Score = 0,
      Status = StPlaying, LastTickMS = 0\<rparr>"

lemma wf_sample_board: "wf_cells sample_board"
proof -
  have "wf_cells (set_cell empty_board 0 0 2)"
    using wf_cells_set_cell[of empty_board "(0, 0)" 2] by (simp add: inBoard_def gb_defs colour_def)
  then show ?thesis
    using wf_cells_set_cell[of "set_cell empty_board 0 0 2" "(0, 1)" 2]
    by (simp add: sample_board_def inBoard_def gb_defs colour_def)
qed

lemma wf_sample: "wf_state sample_state"
  using wf_sample_board by (simp add: wf_state_def sample_state_def colour_def)

lemma sample_lands:
  "CommitLanding (Some sample_state) (Flt (- 1)) (Flt 80) (Flt 16) 4 =
     Inr (projr (CommitLanding (Some sample_state) (Flt (- 1)) (Flt 80) (Flt 16) 4))"
  by (simp add: CommitLanding_def sample_state_def gb_defs float_eval)

text \<open>
  C1: a landing the server accepts is resolved by the rules. Where an empty cell is near, the
  bubble is placed in it with the colour it was shot with; if its group of linked cells of
  that colour has at least three cells, exactly that group disappears, and then exactly the
  bubbles that no longer hang on the top row; every other cell keeps its value, every bubble
  left hangs on the top row, and the bubbles removed, dropped and left add up; each removed
  bubble scores 10 and each dropped one 15 (in 64-bit arithmetic); the next colour moves up
  and the game is won or lost by what is left. Where all cells near are taken, board, score
  and colours stay. The shot is consumed in both cases.
\<close>

theorem landing_resolved:
  assumes "wf_state st" and "colour draw"
    and "CommitLanding (Some st) angle x y draw = Inr st'"
  shows "Moving st' = None \<and> \<not> PendingShot st' \<and>
    (case landing_cell (stBoard st) x y of
       None \<Rightarrow> stBoard st' = stBoard st \<and> Score st' = Score st
         \<and> CurrentColor st' = CurrentColor st \<and> NextColor st' = NextColor st
     | Some p \<Rightarrow> in_board p \<and> cell_at (stBoard st) (fst p) (snd p) < 0 \<and>
         (\<exists>removed dropped.
            resolved (stBoard st) p (ShotColor st) (stBoard st') removed dropped
            \<and> Score st' = Score st + word_of_int (removed * 10 + dropped * 15))
         \<and> CurrentColor st' = NextColor st \<and> NextColor st' = draw
         \<and> Status st' = (if \<forall>q. \<not> occupied (stBoard st') q then StWin
              else if \<exists>c. occupied (stBoard st') (gbRows - 1, c) then StLose else StPlaying))"
proof -
  let ?m = "\<lparr>mX = x, mY = y, mVX = Flt 0, mVY = Flt 0, mColor = ShotColor st\<rparr>"
  let ?st = "st\<lparr>AimAngle := ClampAim angle, PendingShot := False, Moving := Some ?m\<rparr>"
  have st': "st' = placeAndResolve ?st draw"
    using assms(3) by (auto simp: CommitLanding_def split: if_splits)
  have wf: "wf_state ?st" using assms(1) by (simp add: wf_state_def)
  show ?thesis
  proof (cases "landing_cell (stBoard st) x y")
    case None
    then show ?thesis using placeAndResolve_full[of ?st ?m draw] by (simp add: st')
  next
    case (Some p)
    then obtain b' removed dropped where
      "resolved (stBoard st) p (ShotColor st) b' removed dropped"
      "st' = checkState (?st\<lparr>stBoard := b', Moving := None,
         Score := Score ?st + word_of_int (removed * 10 + dropped * 15),
         CurrentColor := NextColor ?st, NextColor := draw\<rparr>)"
      using placeAndResolve_placed[OF wf, of ?m p draw] unfolding st' by auto
    moreover have "in_board p \<and> cell_at (stBoard st) (fst p) (snd p) < 0"
      using landing_cell_Some[of "stBoard st" x y "fst p" "snd p"] Some by simp
    ultimately show ?thesis using Some by (auto simp: Status_checkState)
  qed
qed

theorem landing_resolved_witness:
  "\<exists>st'. CommitLanding (Some sample_state) (Flt (- 1)) (Flt 80) (Flt 16) 4 = Inr st' \<and>
     Moving st' = None \<and> \<not> PendingShot st'"
  using landing_resolved[OF wf_sample _ sample_lands] sample_lands by (auto simp: colour_def)

text \<open>
  C2: \<open>dropFloating\<close> removes exactly the bubbles that are not linked, through occupied
  neighbours, to a bubble of the top row; it returns their number; afterwards every bubble
  left is linked to the top row, and a second call removes nothing.
\<close>

theorem dropFloating_correct:
  assumes "wf_board b"
  shows "case dropFloating b of (b', n) \<Rightarrow>
    wf_board b'
    \<and> (\<forall>q. in_board q \<longrightarrow> cell_at b' (fst q) (snd q)
         = (if occupied b q \<and> \<not> supported b q then -1 else cell_at b (fst q) (snd q)))
    \<and> n = int (card {q. occupied b q \<and> \<not> supported b q})
    \<and> (\<forall>q. occupied b' q \<longrightarrow> supported b' q)
    \<and> snd (dropFloating b') = 0"
proof -
  obtain b' n where d: "dropFloating b = (b', n)" by fastforce
  note r = dropFloating_result[OF assms d]
  have sup: "\<forall>q. occupied b' q \<longrightarrow> supported b' q" using dropFloating_supported[OF assms d] by blast
  obtain b'' n' where d': "dropFloating b' = (b'', n')" by fastforce
  have "{q. occupied b' q \<and> \<not> supported b' q} = {}" using sup by blast
  then have "n' = 0" using dropFloating_result(3)[OF r(1) d'] by simp
  then show ?thesis unfolding d prod.case d' snd_conv
    by (intro conjI allI impI) (use r sup in blast)+
qed

theorem dropFloating_correct_witness:
  "wf_board sample_board \<and> snd (dropFloating (fst (dropFloating sample_board))) = 0"
  using dropFloating_correct[of sample_board] wf_sample_board
  by (simp add: wf_cells_def case_prod_beta)

text \<open>
  C3: \<open>clearMatches\<close>, started at an occupied cell, finds exactly the cells linked to it
  through neighbours of its colour. Fewer than three: nothing changes and it returns 0.
  Otherwise exactly these cells become empty and it returns their number.
\<close>

theorem clearMatches_correct:
  assumes "wf_board b" and "inBoard r c" and "cell_at b r c \<ge> 0"
  shows "case clearMatches b r c of (b', n) \<Rightarrow>
    (let grp = colour_group b (r, c) in
       wf_board b' \<and> n = (if card grp < 3 then 0 else int (card grp)) \<and>
       (\<forall>q. in_board q \<longrightarrow> cell_at b' (fst q) (snd q)
          = (if 3 \<le> card grp \<and> q \<in> grp then -1 else cell_at b (fst q) (snd q))) \<and>
       count_bubbles b' + n = count_bubbles b)"
proof -
  obtain b' n where d: "clearMatches b r c = (b', n)" by fastforce
  show ?thesis
    unfolding d prod.case Let_def
    using clearMatches_result[OF assms d] clearMatches_conserves[OF assms d]
    by (intro conjI allI impI) blast+
qed

theorem clearMatches_correct_witness:
  "count_bubbles (fst (clearMatches sample_board 0 0)) + snd (clearMatches sample_board 0 0)
     = count_bubbles sample_board"
proof -
  have "wf_board (set_cell empty_board 0 0 2)" by (simp add: inBoard_def gb_defs)
  then have "cell_at sample_board 0 0 \<ge> 0"
    by (simp add: sample_board_def inBoard_def gb_defs)
  then show ?thesis
    using clearMatches_correct[of sample_board 0 0] wf_sample_board
    by (simp add: case_prod_beta Let_def wf_cells_def inBoard_def gb_defs)
qed

text \<open>
  C4: \<open>AddTopLayer\<close> loses no bubble of rows 0 to 12: every row comes down with as many
  bubbles as it had (also an odd row, whose last two columns aim at the same cell), bubbles
  that come down from an even row keep column and colour, and the top row is filled with the
  17 drawn colours. The game is lost exactly when row 12 had a bubble, and never won.
\<close>

theorem AddTopLayer_keeps_bubbles:
  assumes "\<forall>c. colour (draw c)"
  shows "count_bubbles (stBoard (AddTopLayer st draw))
        = 17 + int (card {p. occupied (stBoard st) p \<and> fst p < gbRows - 1})
    \<and> (\<forall>r. 0 \<le> r \<and> r < gbRows - 1 \<longrightarrow>
        card (row_bubbles (stBoard (AddTopLayer st draw)) (r + 1)) = card (row_bubbles (stBoard st) r))
    \<and> (\<forall>r c. 0 \<le> r \<and> r < gbRows - 1 \<and> r mod 2 = 0 \<and> 0 \<le> c \<and> c < gbCols
          \<and> occupied (stBoard (AddTopLayer st draw)) (r + 1, c) \<longrightarrow>
        occupied (stBoard st) (r, c) \<and>
        cell_at (stBoard (AddTopLayer st draw)) (r + 1) c = cell_at (stBoard st) r c)
    \<and> (\<forall>c. 0 \<le> c \<and> c < gbCols \<longrightarrow> cell_at (stBoard (AddTopLayer st draw)) 0 c = draw c)
    \<and> Status (AddTopLayer st draw)
        = (if row_bubbles (stBoard st) (gbRows - 2) = {} then StPlaying else StLose)"
proof (intro conjI)
  have draw: "\<And>c. colour (draw c)" using assms by blast
  let ?b = "layered (stBoard st) draw"
  have b: "stBoard (AddTopLayer st draw) = ?b" by (simp add: AddTopLayer_layered)
  show cnt: "count_bubbles (stBoard (AddTopLayer st draw))
      = 17 + int (card {p. occupied (stBoard st) p \<and> fst p < gbRows - 1})"
    unfolding b by (rule layered_count[OF draw])
  show "\<forall>r. 0 \<le> r \<and> r < gbRows - 1 \<longrightarrow>
      card (row_bubbles (stBoard (AddTopLayer st draw)) (r + 1)) = card (row_bubbles (stBoard st) r)"
    unfolding b using layered_row_count[of draw, OF draw] by blast
  show "\<forall>r c. 0 \<le> r \<and> r < gbRows - 1 \<and> r mod 2 = 0 \<and> 0 \<le> c \<and> c < gbCols
        \<and> occupied (stBoard (AddTopLayer st draw)) (r + 1, c) \<longrightarrow>
      occupied (stBoard st) (r, c) \<and>
      cell_at (stBoard (AddTopLayer st draw)) (r + 1) c = cell_at (stBoard st) r c"
    unfolding b
  proof (intro allI impI)
    fix r c
    assume h: "0 \<le> r \<and> r < gbRows - 1 \<and> r mod 2 = 0 \<and> 0 \<le> c \<and> c < gbCols
      \<and> occupied ?b (r + 1, c)"
    show "occupied (stBoard st) (r, c) \<and> cell_at ?b (r + 1) c = cell_at (stBoard st) r c"
      by (rule mp[OF layered_even_rows[OF draw]]) (use h in auto)
  qed
  show "\<forall>c. 0 \<le> c \<and> c < gbCols \<longrightarrow> cell_at (stBoard (AddTopLayer st draw)) 0 c = draw c"
  proof (intro allI impI)
    fix c assume "0 \<le> c \<and> c < gbCols"
    then show "cell_at (stBoard (AddTopLayer st draw)) 0 c = draw c"
      unfolding b using layered_props(4)[of draw, OF draw, where q = "(0, c)" and b = "stBoard st"] by (simp add: inBoard_def gb_defs)
  qed
  have "0 < count_bubbles ?b" using cnt by (simp add: b)
  then have "{q. occupied ?b q} \<noteq> {}" by (auto simp only: count_bubbles_card card.empty)
  then have some: "\<not> (\<forall>q. \<not> occupied ?b q)" by blast
  have "card (row_bubbles ?b (gbRows - 2 + 1)) = card (row_bubbles (stBoard st) (gbRows - 2))"
    by (rule layered_row_count[OF draw]) (auto simp: gb_defs)
  then have "row_bubbles ?b (gbRows - 1) = {} \<longleftrightarrow> row_bubbles (stBoard st) (gbRows - 2) = {}"
    by (simp add: gbRows_def) (metis card_0_eq finite_row_bubbles)
  moreover have "(\<exists>c. occupied ?b (gbRows - 1, c)) \<longleftrightarrow> row_bubbles ?b (gbRows - 1) \<noteq> {}"
    by (auto simp: row_bubbles_def)
  ultimately show "Status (AddTopLayer st draw)
      = (if row_bubbles (stBoard st) (gbRows - 2) = {} then StPlaying else StLose)"
    using some by (simp add: AddTopLayer_layered Status_checkState)
qed

theorem AddTopLayer_keeps_bubbles_witness:
  "count_bubbles (stBoard (AddTopLayer sample_state (\<lambda>c. 1)))
     = 17 + int (card {p. occupied sample_board p \<and> fst p < gbRows - 1})"
  using AddTopLayer_keeps_bubbles[of "\<lambda>c. 1" sample_state]
  by (simp add: colour_def sample_state_def)

text \<open>
  C5: for a cosine and a sine that are between -1 and 1 on the angles the shooter can aim at,
  the sine not positive there, every state a session can reach from a new game by ticks,
  shots, landings, aiming, layers and the server's forced outcomes is well formed: 14 rows of
  17 cells, each empty or one of the six colours, the shooter's two colours valid; and a
  bubble in flight is between the walls, below the top edge and not below the shooter, with
  speeds of at most 1024, so that neither its coordinates nor its speeds are NaN or infinite.
\<close>

theorem reachable_state_safe:
  assumes "trig_ok cs sn" and "reachable_state cs sn st"
  shows "wf_state st \<and> (\<forall>m. Moving st = Some m \<longrightarrow> wf_motion m)"
proof -
  have "wf_state st \<and> moving_ok st"
    using assms(2)
  proof (induction rule: reachable_state.induct)
    case (new_game cur nxt pick now coin)
    then show ?case by (simp add: wf_NewInitialState) (simp add: NewInitialState_def moving_ok_def)
  next
    case (event st e)
    then show ?case using play_invariant[of st e cs sn] assms(1) by blast
  next
    case (outcome st s)
    then show ?case by (simp add: wf_state_def moving_ok_def)
  next
    case (stopped st s)
    then show ?case by (simp add: wf_state_def moving_ok_def)
  qed
  then show ?thesis by (simp add: moving_ok_def)
qed

lemma fresh_reachable:
  "reachable_state cs sn (NewInitialState 0 1 2 (\<lambda>r c. Flt 1) (\<lambda>r c. 0))"
  by (rule new_game) (simp_all add: colour_def)

theorem reachable_state_safe_witness:
  "wf_state (play (\<lambda>a. Flt 0) (\<lambda>a. Flt (- 1)) (NewInitialState 0 1 2 (\<lambda>r c. Flt 1) (\<lambda>r c. 0)) (EvFire (Flt (- 1))))"
proof -
  have "fair_event (EvFire (Flt (- 1)))" by (simp add: is_nan_def)
  from reachable_state_safe[OF _ event[OF fresh_reachable[of "\<lambda>a. Flt 0" "\<lambda>a. Flt (- 1)"] this]]
  show ?thesis by (simp add: trig_ok_def pow2_def)
qed

text \<open>
  C6: shots and landings alternate. Over any sequence of events on a new game, the shots the
  engine accepted equal the landings it accepted plus one if a shot is pending at the end; the
  sequence number the players see is the number of accepted shots, as a 64-bit integer (modulo
  two to the 64).
\<close>

theorem shots_and_landings:
  "shots cs sn (NewInitialState now cur nxt coin pick) es
     = landings cs sn (NewInitialState now cur nxt coin pick) es
       + (if PendingShot (foldl (play cs sn) (NewInitialState now cur nxt coin pick) es) then 1 else 0)
   \<and> ShotSeq (foldl (play cs sn) (NewInitialState now cur nxt coin pick) es)
     = of_nat (shots cs sn (NewInitialState now cur nxt coin pick) es)"
proof -
  have "\<not> PendingShot (NewInitialState now cur nxt coin pick) \<and> ShotSeq (NewInitialState now cur nxt coin pick) = 0"
    by (simp add: NewInitialState_def)
  then show ?thesis
    using shots_balance[of cs sn "NewInitialState now cur nxt coin pick" es] by auto
qed

text \<open>
  C7: a finished game is frozen. From a state that is won or lost, no sequence of ticks,
  shots, landings and aiming changes anything but the aim and the time of the last tick.
\<close>

theorem finished_game_frozen:
  assumes "Status st \<noteq> StPlaying" and "\<forall>e \<in> set es. \<not> is_layer e"
  shows "\<exists>a t. foldl (play cs sn) st es = st\<lparr>AimAngle := a, LastTickMS := t\<rparr>"
  using assms(2)
proof (induction es rule: rev_induct)
  case Nil
  show ?case by (intro exI[of _ "AimAngle st"] exI[of _ "LastTickMS st"]) simp
next
  case (snoc e es)
  then obtain a t where "foldl (play cs sn) st es = st\<lparr>AimAngle := a, LastTickMS := t\<rparr>" by auto
  then show ?case using play_finished[of "st\<lparr>AimAngle := a, LastTickMS := t\<rparr>" e cs sn] assms(1) snoc.prems
    by (auto intro: exI)
qed

theorem finished_game_frozen_witness:
  "Score (foldl (play (\<lambda>a. Flt 0) (\<lambda>a. Flt 0)) (sample_state\<lparr>Status := StWin\<rparr>)
     [EvTick 40 1, EvShot (Flt 0) 50, EvLand (Flt 0) (Flt 80) (Flt 16) 3]) = 0"
  using finished_game_frozen[of "sample_state\<lparr>Status := StWin\<rparr>"
    "[EvTick 40 1, EvShot (Flt 0) 50, EvLand (Flt 0) (Flt 80) (Flt 16) 3]" "\<lambda>a. Flt 0" "\<lambda>a. Flt 0"]
  by (auto simp: sample_state_def)

text \<open>
  C8: cells and pixels agree. Every point has its nearest cell on the board, the centre of a
  cell is an exact pixel, and the nearest cell of a cell's centre is that cell.
\<close>

theorem nearestCell_roundtrip:
  "in_board (nearestCell x y)
   \<and> (\<forall>r c. inBoard r c \<longrightarrow>
        cellCenter r c = (Flt (of_int (16 + shift_of r + c * 32)), Flt (of_int (16 + r * 28)))
        \<and> (case cellCenter r c of (cx, cy) \<Rightarrow> nearestCell cx cy = (r, c)))"
proof (intro conjI allI impI)
  show "in_board (nearestCell x y)" by (rule nearestCell_in_board)
next
  fix r c assume "inBoard r c"
  then show "cellCenter r c = (Flt (of_int (16 + shift_of r + c * 32)), Flt (of_int (16 + r * 28)))"
    by (rule cellCenter_exact)
next
  fix r c assume "inBoard r c"
  then show "case cellCenter r c of (cx, cy) \<Rightarrow> nearestCell cx cy = (r, c)"
    using nearestCell_center[of r c] by (simp split: prod.splits)
qed

theorem nearestCell_roundtrip_witness:
  "nearestCell (Flt 64) (Flt 44) = (1, 1)"
proof -
  have "inBoard 1 1" by (simp add: inBoard_def gb_defs)
  from mp[OF spec[OF spec[OF conjunct2[OF nearestCell_roundtrip[of "Flt 0" "Flt 0"]]]] this]
  have c: "cellCenter 1 1 = (Flt 64, Flt 44) \<and> (case cellCenter 1 1 of (cx, cy) \<Rightarrow> nearestCell cx cy = (1, 1))"
    by (simp only: shift_of_def) (elim conjE, simp)
  from conjunct2[OF c] show ?thesis unfolding conjunct1[OF c] prod.case .
qed

text \<open>
  C9: when the cell hit is taken, \<open>findNearestEmpty\<close> answers with an empty cell of the board
  in the 5 by 5 window around it whose centre no other such cell is nearer to; it answers
  that there is none exactly when no cell of the window is empty.
\<close>

theorem findNearestEmpty_optimal:
  assumes "fbound 10 x" and "fbound 10 y"
  shows "case findNearestEmpty b R C x y of
      None \<Rightarrow> \<forall>p. \<not> candidate b R C p
    | Some p \<Rightarrow> candidate b R C p \<and>
        (\<forall>q. candidate b R C q \<longrightarrow> \<not> dist2 (fst q) (snd q) x y < dist2 (fst p) (snd p) x y)"
proof (cases "findNearestEmpty b R C x y")
  case None
  then have "\<forall>p. \<not> candidate b R C p" using findNearestEmpty_None[OF assms] by blast
  then show ?thesis unfolding None option.case .
next
  case (Some p)
  then show ?thesis using findNearestEmpty_Some[of b R C x y "fst p" "snd p"] by auto
qed

theorem findNearestEmpty_optimal_witness:
  "findNearestEmpty sample_board 0 0 (Flt 16) (Flt 16) \<noteq> Some (0, 1)"
proof
  assume f: "findNearestEmpty sample_board 0 0 (Flt 16) (Flt 16) = Some (0, 1)"
  have "candidate sample_board 0 0 (0, 1)"
    using findNearestEmpty_optimal[of "Flt 16" "Flt 16" sample_board 0 0] f
    by (simp add: pow2_def)
  then show False by (simp add: candidate_def sample_board_def inBoard_def gb_defs)
qed

text \<open>
  \<open>ClampAim\<close> keeps every angle that is a number within the shooter's range, leaves an
  angle of the range alone, and so is idempotent.
\<close>

theorem ClampAim_range:
  assumes "\<not> is_nan a"
  shows "gbMinAngle \<le> ClampAim a \<and> ClampAim a \<le> gbMaxAngle
    \<and> (gbMinAngle \<le> a \<and> a \<le> gbMaxAngle \<longrightarrow> ClampAim a = a)
    \<and> ClampAim (ClampAim a) = ClampAim a"
  using clamp_between[of gbMinAngle gbMaxAngle a] aim_range assms by (simp add: ClampAim_def)

theorem ClampAim_range_witness:
  "ClampAim (Flt 0) \<le> gbMaxAngle \<and> ClampAim (Flt 0) = gbMaxAngle"
  using ClampAim_range[of "Flt 0"] aim_range
  by (auto simp: ClampAim_def is_nan_def dest: less_float64_trans)

end
