(* ===== verification/Packet.thy ===== *)
theory Packet
  imports Prelude "HOL-Library.Word"
begin

text \<open>
  The packets between client and gateway: \<open>internal/protocol/packet.go\<close>. The header is 14
  bytes: magic, version, flags, command, sequence number and payload length, big endian. A
  reader is the list of bytes it still delivers before its end; a writer is any state with a
  write operation that may fail.
\<close>

unbundle bit_operations_syntax

type_synonym byte = "8 word"

subsection \<open>Big-endian integers (package encoding/binary)\<close>

fun be_uint16 :: "byte list \<Rightarrow> 16 word" where
  "be_uint16 [b0, b1] = ucast b1 OR push_bit 8 (ucast b0)"
| "be_uint16 _ = 0"

fun be_uint32 :: "byte list \<Rightarrow> 32 word" where
  "be_uint32 [b0, b1, b2, b3] =
     ucast b3 OR push_bit 8 (ucast b2) OR push_bit 16 (ucast b1) OR push_bit 24 (ucast b0)"
| "be_uint32 _ = 0"

definition put_uint16 :: "16 word \<Rightarrow> byte list" where
  "put_uint16 v = [ucast (drop_bit 8 v), ucast v]"

definition put_uint32 :: "32 word \<Rightarrow> byte list" where
  "put_uint32 v = [ucast (drop_bit 24 v), ucast (drop_bit 16 v), ucast (drop_bit 8 v), ucast v]"

lemma length_put [simp]: "length (put_uint16 v) = 2" "length (put_uint32 w) = 4"
  by (simp_all add: put_uint16_def put_uint32_def)

lemma be_put_uint16 [simp]: "be_uint16 (put_uint16 v) = v"
  unfolding put_uint16_def be_uint16.simps
  by (rule bit_word_eqI) (auto simp: bit_simps not_less)

lemma be_put_uint32 [simp]: "be_uint32 (put_uint32 v) = v"
  unfolding put_uint32_def be_uint32.simps
proof (rule bit_word_eqI)
  fix n assume "n < LENGTH(32)"
  then consider "n < 8" | "8 \<le> n" "n < 16" | "16 \<le> n" "n < 24" | "24 \<le> n" "n < 32"
    by fastforce
  then show "bit (ucast (ucast v :: byte) OR push_bit 8 (ucast (ucast (drop_bit 8 v) :: byte))
      OR push_bit 16 (ucast (ucast (drop_bit 16 v) :: byte))
      OR push_bit 24 (ucast (ucast (drop_bit 24 v) :: byte)) :: 32 word) n = bit v n"
    by cases (simp_all add: bit_simps, auto)
qed

lemma put_be_uint16: "put_uint16 (be_uint16 [a, b]) = [a, b]"
  unfolding put_uint16_def be_uint16.simps list.inject
  by (intro conjI refl; rule bit_word_eqI) (auto simp: bit_simps dest: bit_imp_le_length)

lemma put_be_uint32: "put_uint32 (be_uint32 [a, b, c, d]) = [a, b, c, d]"
  unfolding put_uint32_def be_uint32.simps list.inject
  by (intro conjI refl; rule bit_word_eqI) (auto simp: bit_simps dest: bit_imp_le_length)

subsection \<open>Packets\<close>

definition Magic :: "16 word" where "Magic = 0xCAFE"
definition Version :: byte where "Version = 1"
definition HeaderSize :: nat where "HeaderSize = 14"

record packet =
  pktCmd :: "16 word"
  pktSeq :: "32 word"
  pktPayload :: "byte list"

datatype packet_error = EOF | UnexpectedEOF | BadMagic | UnsupportedVersion | PayloadTooLarge

fun packet_error_text :: "packet_error \<Rightarrow> string" where
  "packet_error_text EOF = ''EOF''"
| "packet_error_text UnexpectedEOF = ''unexpected EOF''"
| "packet_error_text BadMagic = ''bad packet magic''"
| "packet_error_text UnsupportedVersion = ''unsupported protocol version''"
| "packet_error_text PayloadTooLarge = ''payload too large''"

text \<open>\<open>io.ReadFull\<close>: \<open>n\<close> bytes or an error, and what the reader still delivers.\<close>

definition ReadFull :: "nat \<Rightarrow> byte list \<Rightarrow> (packet_error + byte list) \<times> byte list" where
  "ReadFull n r =
     (if n \<le> length r then (Inr (take n r), drop n r)
      else (Inl (if r = [] then EOF else UnexpectedEOF), []))"

text \<open>\<open>slice h i j\<close> is the Go slice \<open>h[i:j]\<close>.\<close>

definition slice :: "byte list \<Rightarrow> nat \<Rightarrow> nat \<Rightarrow> byte list" where
  "slice h i j = take (j - i) (drop i h)"

definition ReadPacket :: "byte list \<Rightarrow> 32 word \<Rightarrow> (packet_error + packet) \<times> byte list" where
  "ReadPacket r maxPayload =
     (case ReadFull HeaderSize r of
        (Inl err, r1) \<Rightarrow> (Inl err, r1)
      | (Inr header, r1) \<Rightarrow>
        if be_uint16 (slice header 0 2) \<noteq> Magic then (Inl BadMagic, r1)
        else if header ! 2 \<noteq> Version then (Inl UnsupportedVersion, r1)
        else
          (let cmd = be_uint16 (slice header 4 6);
               seq = be_uint32 (slice header 6 10);
               payloadLen = be_uint32 (slice header 10 14)
           in if payloadLen > maxPayload then (Inl PayloadTooLarge, r1)
              else (case ReadFull (unat payloadLen) r1 of
                  (Inl err, r2) \<Rightarrow> (Inl err, r2)
                | (Inr payload, r2) \<Rightarrow>
                    (Inr \<lparr>pktCmd = cmd, pktSeq = seq, pktPayload = payload\<rparr>, r2))))"

definition packet_header :: "packet \<Rightarrow> byte list" where
  "packet_header p =
     put_uint16 Magic @ [Version, 0] @ put_uint16 (pktCmd p) @ put_uint32 (pktSeq p)
       @ put_uint32 (word_of_nat (length (pktPayload p)))"

text \<open>
  \<open>write bs w\<close> is one call of the writer's \<open>Write\<close>: an error if there is one, and its new
  state. \<open>Inl None\<close> is the length error of the function itself.
\<close>

definition WritePacket ::
  "(byte list \<Rightarrow> 'w \<Rightarrow> 'e option \<times> 'w) \<Rightarrow> 'w \<Rightarrow> packet \<Rightarrow> 'e option option \<times> 'w" where
  "WritePacket write w p =
     (if length (pktPayload p) > unat (NOT 0 :: 32 word) then (Some None, w)
      else
        (case write (packet_header p) w of
           (Some err, w1) \<Rightarrow> (Some (Some err), w1)
         | (None, w1) \<Rightarrow>
           if length (pktPayload p) = 0 then (None, w1)
           else (case write (pktPayload p) w1 of
               (Some err, w2) \<Rightarrow> (Some (Some err), w2)
             | (None, w2) \<Rightarrow> (None, w2))))"

text \<open>A writer that collects bytes and does not fail, and the bytes of a packet.\<close>

definition buffer_write :: "byte list \<Rightarrow> byte list \<Rightarrow> unit option \<times> byte list" where
  "buffer_write bs w = (None, w @ bs)"

definition packet_bytes :: "packet \<Rightarrow> byte list" where
  "packet_bytes p = packet_header p @ pktPayload p"

definition fits :: "packet \<Rightarrow> bool" where
  "fits p \<longleftrightarrow> length (pktPayload p) < 2 ^ 32"

lemma max_uint32: "unat (NOT 0 :: 32 word) = 2 ^ 32 - 1"
  by (simp add: unsigned_minus_1_eq_mask mask_eq_exp_minus_1)

lemma WritePacket_buffer: "fits p \<Longrightarrow> WritePacket buffer_write w p = (None, w @ packet_bytes p)"
  unfolding WritePacket_def max_uint32 by (auto simp: fits_def buffer_write_def packet_bytes_def)

lemma WritePacket_too_long: "\<not> fits p \<Longrightarrow> WritePacket write w p = (Some None, w)"
  unfolding WritePacket_def max_uint32 by (auto simp: fits_def)

subsection \<open>Reading what was written\<close>

text \<open>
  What every format here promises: decoding what was encoded, with anything after it, gives
  the value and leaves the rest. It makes encodings unambiguous, also in sequence.
\<close>

locale codec =
  fixes enc :: "'a \<Rightarrow> byte list" and dec :: "byte list \<Rightarrow> ('a \<times> byte list) option" and ok :: "'a \<Rightarrow> bool"
  assumes dec_enc: "ok x \<Longrightarrow> dec (enc x @ rest) = Some (x, rest)"
begin

lemma prefix_free: "ok x \<Longrightarrow> ok y \<Longrightarrow> enc x @ r = enc y @ s \<Longrightarrow> x = y \<and> r = s"
  by (metis dec_enc option.inject prod.inject)

lemma enc_inj: "inj_on enc {x. ok x}"
  using prefix_free[where r = "[]" and s = "[]"] by (intro inj_onI) simp

lemma sequence_unambiguous:
  "list_all ok xs \<Longrightarrow> list_all ok ys \<Longrightarrow> length xs = length ys \<Longrightarrow>
     concat (map enc xs) @ r = concat (map enc ys) @ s \<Longrightarrow> xs = ys \<and> r = s"
proof (induction xs arbitrary: ys)
  case Nil
  then show ?case by simp
next
  case (Cons x xs)
  then obtain y ys' where ys: "ys = y # ys'" by (cases ys) simp_all
  have "enc x @ (concat (map enc xs) @ r) = enc y @ (concat (map enc ys') @ s)" using Cons.prems ys by simp
  then have "x = y \<and> concat (map enc xs) @ r = concat (map enc ys') @ s"
    using Cons.prems ys by (intro prefix_free) simp_all
  then show ?case using Cons.IH[of ys'] Cons.prems ys by simp
qed

end

definition dec_uint32 :: "byte list \<Rightarrow> (32 word \<times> byte list) option" where
  "dec_uint32 r = (if 4 \<le> length r then Some (be_uint32 (take 4 r), drop 4 r) else None)"

interpretation uint32: codec put_uint32 dec_uint32 "\<lambda>_. True"
  by unfold_locales (simp add: dec_uint32_def)

definition dec_packet :: "32 word \<Rightarrow> byte list \<Rightarrow> (packet \<times> byte list) option" where
  "dec_packet maxPayload r =
     (case ReadPacket r maxPayload of (Inr p, r') \<Rightarrow> Some (p, r') | (Inl _, r') \<Rightarrow> None)"

definition acceptable :: "32 word \<Rightarrow> packet \<Rightarrow> bool" where
  "acceptable maxPayload p \<longleftrightarrow> length (pktPayload p) \<le> unat maxPayload"

lemma unat_uint32: "unat (m :: 32 word) < 2 ^ 32"
  using unsigned_less[of m] by simp

lemma acceptable_fits: "acceptable m p \<Longrightarrow> fits p"
  unfolding acceptable_def fits_def using unat_uint32[of m] by (rule order.strict_trans1[rotated])

lemma length_header [simp]: "length (packet_header p) = HeaderSize"
  by (simp add: packet_header_def HeaderSize_def)

lemma header_slices:
  "slice (packet_header p) 0 2 = put_uint16 Magic"
  "slice (packet_header p) 4 6 = put_uint16 (pktCmd p)"
  "slice (packet_header p) 6 10 = put_uint32 (pktSeq p)"
  "slice (packet_header p) 10 14 = put_uint32 (word_of_nat (length (pktPayload p)))"
  "packet_header p ! 2 = Version"
  by (simp_all only: packet_header_def slice_def put_uint16_def put_uint32_def) simp_all

lemma header_length_field: "fits p \<Longrightarrow> unat (word_of_nat (length (pktPayload p)) :: 32 word) = length (pktPayload p)"
  by (simp add: fits_def unsigned_of_nat take_bit_nat_eq_self)

lemma ReadPacket_written:
  assumes "acceptable m p"
  shows "ReadPacket (packet_bytes p @ rest) m = (Inr p, rest)"
proof -
  note len = header_length_field[OF acceptable_fits[OF assms]]
  have "\<not> word_of_nat (length (pktPayload p)) > m"
    using assms len by (simp add: acceptable_def word_less_nat_alt)
  moreover have "ReadFull HeaderSize (packet_bytes p @ rest) = (Inr (packet_header p), pktPayload p @ rest)"
    by (simp add: ReadFull_def packet_bytes_def)
  ultimately show ?thesis
    unfolding ReadPacket_def by (simp add: header_slices ReadFull_def len Let_def)
qed

interpretation packets: codec packet_bytes "dec_packet m" "acceptable m"
  by unfold_locales (simp add: dec_packet_def ReadPacket_written)

text \<open>The loop of a connection: packets are read until the first error.\<close>

lemma ReadPacket_shrinks:
  "ReadPacket r m = (Inr p, r') \<Longrightarrow> length r' < length r"
  by (auto simp: ReadPacket_def ReadFull_def HeaderSize_def Let_def split: if_splits)

function read_all :: "32 word \<Rightarrow> byte list \<Rightarrow> packet list \<times> packet_error" where
  "read_all m r =
     (case ReadPacket r m of
        (Inl err, r') \<Rightarrow> ([], err)
      | (Inr p, r') \<Rightarrow> (case read_all m r' of (ps, err) \<Rightarrow> (p # ps, err)))"
  by auto
termination
  by (relation "measure (length \<circ> snd)") (auto dest: ReadPacket_shrinks[OF sym])

declare read_all.simps [simp del]

fun write_all :: "byte list \<Rightarrow> packet list \<Rightarrow> byte list option" where
  "write_all w [] = Some w"
| "write_all w (p # ps) =
     (case WritePacket buffer_write w p of (None, w') \<Rightarrow> write_all w' ps | (Some _, _) \<Rightarrow> None)"

lemma write_all_bytes:
  "list_all (acceptable m) ps \<Longrightarrow> write_all w ps = Some (w @ concat (map packet_bytes ps))"
proof (induction ps arbitrary: w)
  case (Cons p ps)
  then have "fits p" using acceptable_fits by auto
  then show ?case using Cons by (simp add: WritePacket_buffer)
qed simp

lemma read_all_written:
  "list_all (acceptable m) ps \<Longrightarrow> read_all m (concat (map packet_bytes ps)) = (ps, EOF)"
proof (induction ps)
  case Nil
  show ?case by (simp add: read_all.simps ReadPacket_def ReadFull_def HeaderSize_def)
next
  case (Cons p ps)
  have "ReadPacket (packet_bytes p @ concat (map packet_bytes ps)) m = (Inr p, concat (map packet_bytes ps))"
    using Cons.prems by (intro ReadPacket_written) simp
  then show ?case using Cons by (subst read_all.simps) simp
qed

subsection \<open>What is read, by the header\<close>

definition good_header :: "byte list \<Rightarrow> 32 word \<Rightarrow> bool" where
  "good_header r m \<longleftrightarrow> be_uint16 (slice r 0 2) = Magic \<and> r ! 2 = Version \<and> be_uint32 (slice r 10 14) \<le> m"

lemma slice_header: "j \<le> 14 \<Longrightarrow> slice (take 14 r) i j = slice r i j"
  by (simp add: slice_def drop_take min_def)

lemma ReadPacket_by_header:
  "ReadPacket r m =
     (if length r < 14 then (Inl (if r = [] then EOF else UnexpectedEOF), [])
      else if be_uint16 (slice r 0 2) \<noteq> Magic then (Inl BadMagic, drop 14 r)
      else if r ! 2 \<noteq> Version then (Inl UnsupportedVersion, drop 14 r)
      else if be_uint32 (slice r 10 14) > m then (Inl PayloadTooLarge, drop 14 r)
      else
        (let n = unat (be_uint32 (slice r 10 14))
         in if length r < 14 + n then (Inl (if length r = 14 then EOF else UnexpectedEOF), [])
            else (Inr \<lparr>pktCmd = be_uint16 (slice r 4 6), pktSeq = be_uint32 (slice r 6 10),
                       pktPayload = take n (drop 14 r)\<rparr>, drop (14 + n) r)))"
  by (simp add: ReadPacket_def ReadFull_def HeaderSize_def slice_header Let_def not_le less_diff_conv2
      add.commute split: if_splits) auto

lemma ReadPacket_complete:
  assumes "acceptable m p" and "r = (packet_bytes p)[3 := flags] @ rest"
  shows "ReadPacket r m = (Inr p, rest)"
proof -
  have b: "packet_bytes p = put_uint16 Magic @ [Version, 0] @ put_uint16 (pktCmd p) @ put_uint32 (pktSeq p)
       @ put_uint32 (word_of_nat (length (pktPayload p))) @ pktPayload p"
    by (simp add: packet_bytes_def packet_header_def)
  have r: "r = put_uint16 Magic @ [Version, flags] @ put_uint16 (pktCmd p) @ put_uint32 (pktSeq p)
       @ put_uint32 (word_of_nat (length (pktPayload p))) @ pktPayload p @ rest"
    unfolding assms(2) b by (simp add: put_uint16_def)
  have s: "slice r 0 2 = put_uint16 Magic" "slice r 4 6 = put_uint16 (pktCmd p)"
    "slice r 6 10 = put_uint32 (pktSeq p)" "r ! 2 = Version"
    "slice r 10 14 = put_uint32 (word_of_nat (length (pktPayload p)))" "drop 14 r = pktPayload p @ rest"
    unfolding r slice_def put_uint16_def put_uint32_def by simp_all
  have len: "length r = 14 + length (pktPayload p) + length rest" unfolding r by simp
  have d: "drop (14 + length (pktPayload p)) r = rest"
    using drop_drop[of "length (pktPayload p)" 14 r] s(6) by (simp add: add.commute)
  note n = header_length_field[OF acceptable_fits[OF assms(1)]]
  have "\<not> word_of_nat (length (pktPayload p)) > m"
    using assms n by (simp add: acceptable_def word_less_nat_alt)
  then show ?thesis
    unfolding ReadPacket_by_header s(1-5) be_put_uint16 be_put_uint32 Let_def n
    by (simp add: len s(6) d)
qed

lemma explode2: "length xs = 2 \<Longrightarrow> \<exists>a b. xs = [a, b]"
  by (cases xs; cases "tl xs") auto

lemma explode4: "length xs = 4 \<Longrightarrow> \<exists>a b c d. xs = [a, b, c, d]"
  by (auto simp: numeral_eq_Suc length_Suc_conv)

lemma put_be_slice2: "length xs = 2 \<Longrightarrow> put_uint16 (be_uint16 xs) = xs"
  using explode2 put_be_uint16 by blast

lemma put_be_slice4: "length xs = 4 \<Longrightarrow> put_uint32 (be_uint32 xs) = xs"
  using explode4 put_be_uint32 by blast

lemma length_slice: "length (slice r i j) = min (j - i) (length r - i)"
  by (simp add: slice_def)

lemma slices_join: "i \<le> j \<Longrightarrow> drop i r = slice r i j @ drop j r"
  by (simp add: slice_def) (metis append_take_drop_id drop_drop le_add_diff_inverse2)

lemma ReadPacket_sound:
  assumes "ReadPacket r m = (Inr p, rest)"
  shows "acceptable m p \<and> (\<exists>flags. r = (packet_bytes p)[3 := flags] @ rest)"
proof
  let ?n = "unat (be_uint32 (slice r 10 14))"
  have len: "14 + ?n \<le> length r" and magic: "be_uint16 (slice r 0 2) = Magic" and ver: "r ! 2 = Version"
    and le: "be_uint32 (slice r 10 14) \<le> m"
    and p: "p = \<lparr>pktCmd = be_uint16 (slice r 4 6), pktSeq = be_uint32 (slice r 6 10), pktPayload = take ?n (drop 14 r)\<rparr>"
    and rest: "rest = drop (14 + ?n) r"
    using assms by (auto simp: ReadPacket_by_header Let_def split: if_splits)
  have n: "length (pktPayload p) = ?n" using len by (simp add: p)
  show "acceptable m p" using le by (simp add: acceptable_def n word_le_nat_alt)
  have f: "put_uint16 Magic = slice r 0 2" "put_uint16 (pktCmd p) = slice r 4 6"
    "put_uint32 (pktSeq p) = slice r 6 10"
    "put_uint32 (word_of_nat (length (pktPayload p))) = slice r 10 14"
    using len by (simp_all add: magic[symmetric] n p put_be_slice2 put_be_slice4 length_slice)
  have "r = slice r 0 2 @ drop 2 r" using slices_join[of 0 2 r] by simp
  also have "drop 2 r = [r ! 2, r ! 3] @ drop 4 r"
    using len by (simp add: Cons_nth_drop_Suc[symmetric] numeral_eq_Suc)
  also have "drop 4 r = slice r 4 6 @ slice r 6 10 @ slice r 10 14 @ drop 14 r"
    using slices_join[of 4 6 r] slices_join[of 6 10 r] slices_join[of 10 14 r] by simp
  also have "drop 14 r = pktPayload p @ rest" 
    unfolding p rest using append_take_drop_id[of ?n "drop 14 r"] by (simp add: add.commute)
  finally have "r = (packet_bytes p)[3 := r ! 3] @ rest"
    unfolding packet_bytes_def packet_header_def f ver
    by (simp add: length_slice list_update_append) (use len in \<open>simp add: min_def\<close>)
  then show "\<exists>flags. r = (packet_bytes p)[3 := flags] @ rest" by blast
qed

end
