(* ===== verification/PacketSpec.thy ===== *)
theory PacketSpec
  imports Packet
begin

text \<open>
  The properties of the wire format (\<open>internal/protocol/packet.go\<close>): what is written is read
  back, nothing else is accepted, and every way to fail is named.
\<close>

text \<open>
  C10: packets survive the wire. Any sequence of packets whose payloads keep the reader's
  limit, written one after the other by \<open>WritePacket\<close>, is read back by repeated
  \<open>ReadPacket\<close>, packet for packet, and then the reader reports the end.
\<close>

theorem packets_roundtrip:
  assumes "list_all (acceptable m) ps"
  shows "\<exists>bytes. write_all [] ps = Some bytes
      \<and> length bytes = (\<Sum>p\<leftarrow>ps. HeaderSize + length (pktPayload p))
      \<and> read_all m bytes = (ps, EOF)"
proof (intro exI conjI)
  show "write_all [] ps = Some (concat (map packet_bytes ps))" using write_all_bytes[OF assms] by simp
  show "length (concat (map packet_bytes ps)) = (\<Sum>p\<leftarrow>ps. HeaderSize + length (pktPayload p))"
    by (induction ps) (simp_all add: packet_bytes_def)
  show "read_all m (concat (map packet_bytes ps)) = (ps, EOF)" by (rule read_all_written[OF assms])
qed

theorem packets_roundtrip_witness:
  "\<exists>bytes. length bytes = 31 \<and>
     read_all 1024 bytes
       = ([\<lparr>pktCmd = 1001, pktSeq = 7, pktPayload = [1, 2, 3]\<rparr>, \<lparr>pktCmd = 1003, pktSeq = 8, pktPayload = []\<rparr>], EOF)"
  using packets_roundtrip[of 1024 "[\<lparr>pktCmd = 1001, pktSeq = 7, pktPayload = [1, 2, 3]\<rparr>, \<lparr>pktCmd = 1003, pktSeq = 8, pktPayload = []\<rparr>]"]
  by (auto simp: acceptable_def HeaderSize_def)

text \<open>
  C11: what \<open>ReadPacket\<close> accepts is what \<open>WritePacket\<close> writes, up to the reserved flags
  byte. A packet is returned exactly when the bytes begin with the packet's encoding (with any
  flags) and its payload keeps the limit; the bytes after it stay unread.
\<close>

theorem ReadPacket_accepts:
  "ReadPacket r m = (Inr p, rest) \<longleftrightarrow>
     acceptable m p \<and> (\<exists>flags. r = (packet_bytes p)[3 := flags] @ rest)"
  by (rule iffI) (auto dest: ReadPacket_sound intro: ReadPacket_complete)

text \<open>
  Every rejection has its cause. The end of the stream is reported only when nothing
  was left; a broken stream, a foreign magic, another version and an announced payload over
  the limit each have their own error, tested in this order, and no payload byte is consumed
  for a packet refused by its header.
\<close>

theorem ReadPacket_errors:
  "(ReadPacket r m = (Inl EOF, []) \<longleftrightarrow>
      r = [] \<or> length r = HeaderSize \<and> good_header r m \<and> be_uint32 (slice r 10 14) \<noteq> 0)
   \<and> (ReadPacket r m = (Inl BadMagic, drop HeaderSize r) \<longleftrightarrow>
        HeaderSize \<le> length r \<and> be_uint16 (slice r 0 2) \<noteq> Magic)
   \<and> (ReadPacket r m = (Inl UnsupportedVersion, drop HeaderSize r) \<longleftrightarrow>
        HeaderSize \<le> length r \<and> be_uint16 (slice r 0 2) = Magic \<and> r ! 2 \<noteq> Version)
   \<and> (ReadPacket r m = (Inl PayloadTooLarge, drop HeaderSize r) \<longleftrightarrow>
        HeaderSize \<le> length r \<and> be_uint16 (slice r 0 2) = Magic \<and> r ! 2 = Version
        \<and> be_uint32 (slice r 10 14) > m)
   \<and> (ReadPacket r m = (Inl UnexpectedEOF, []) \<longleftrightarrow>
        r \<noteq> [] \<and> (length r < HeaderSize
          \<or> good_header r m \<and> HeaderSize < length r
              \<and> length r < HeaderSize + unat (be_uint32 (slice r 10 14))))"
  unfolding ReadPacket_by_header good_header_def HeaderSize_def Let_def
  by (cases "length r < 14"; cases "be_uint16 (slice r 0 2) = Magic"; cases "r ! 2 = Version";
      cases "be_uint32 (slice r 10 14) > m"; cases "length r < 14 + unat (be_uint32 (slice r 10 14))")
    (auto simp: not_less unat_eq_zero)

end
