(* ===== verification/GoText.thy ===== *)
theory GoText
  imports Prelude "HOL-Library.Word"
begin

text \<open>
  \<open>strconv.FormatInt(n, 10)\<close>: the decimal text of an integer, with the fact the services
  rely on when they use a time stamp as an identifier: different numbers have different texts.
\<close>

definition digit :: "nat \<Rightarrow> char" where
  "digit d = char_of (48 + d)"

fun nat_dec :: "nat \<Rightarrow> string" where
  "nat_dec n = (if n < 10 then [digit n] else nat_dec (n div 10) @ [digit (n mod 10)])"

declare nat_dec.simps [simp del]

definition FormatInt :: "int \<Rightarrow> string" where
  "FormatInt n = (if n < 0 then CHR ''-'' # nat_dec (nat (- n)) else nat_dec (nat n))"

definition dec_val :: "string \<Rightarrow> nat" where
  "dec_val s = foldl (\<lambda>a c. 10 * a + (of_char c - 48)) 0 s"

lemma of_char_digit [simp]: "d < 10 \<Longrightarrow> of_char (digit d) = 48 + d"
  by (simp add: digit_def)

lemma dec_val_nat_dec [simp]: "dec_val (nat_dec n) = n"
proof (induction n rule: nat_dec.induct)
  case (1 n)
  then show ?case by (subst nat_dec.simps) (auto simp: dec_val_def)
qed

lemma nat_dec_digits: "c \<in> set (nat_dec n) \<Longrightarrow> \<exists>d<10. c = digit d"
proof (induction n rule: nat_dec.induct)
  case (1 n)
  show ?case
  proof (cases "n < 10")
    case True
    then show ?thesis using "1.prems" by (subst (asm) nat_dec.simps) auto
  next
    case False
    then have "c \<in> set (nat_dec (n div 10)) \<or> c = digit (n mod 10)"
      using "1.prems" by (subst (asm) nat_dec.simps) auto
    moreover have "n mod 10 < 10" by simp
    ultimately show ?thesis using "1.IH"[OF False] by blast
  qed
qed

lemma nat_dec_no_minus: "CHR ''-'' \<notin> set (nat_dec n)"
proof
  assume "CHR ''-'' \<in> set (nat_dec n)"
  then obtain d where "d < 10" "CHR ''-'' = digit d" using nat_dec_digits by blast
  then have "of_char (CHR ''-'') = 48 + d" by (metis of_char_digit)
  then show False by simp
qed

lemma FormatInt_inj [simp]: "FormatInt a = FormatInt b \<longleftrightarrow> a = b"
proof
  assume eq: "FormatInt a = FormatInt b"
  have nd: "nat_dec x = nat_dec y \<Longrightarrow> x = y" for x y by (metis dec_val_nat_dec)
  have ne: "CHR ''-'' # s \<noteq> nat_dec x" for s x using nat_dec_no_minus[of x] by (metis list.set_intros(1))
  show "a = b" using eq ne nd[of "nat (- a)" "nat (- b)"] nd[of "nat a" "nat b"]
    unfolding FormatInt_def by (auto split: if_splits) (metis ne)
qed simp

lemma FormatInt_ne [simp]: "FormatInt n \<noteq> ''''"
proof -
  have "nat_dec k \<noteq> ''''" for k by (subst nat_dec.simps) simp
  then show ?thesis by (simp add: FormatInt_def)
qed

subsection \<open>strings.TrimSpace\<close>

text \<open>
  Strings are byte strings. The characters of Unicode's White Space property, as the bytes of
  their UTF-8 encodings; \<open>strings.TrimSpace\<close> takes them off both ends.
\<close>

definition white_space :: "nat list list" where
  "white_space =
     [[0x09], [0x0A], [0x0B], [0x0C], [0x0D], [0x20], [0xC2, 0x85], [0xC2, 0xA0], [0xE1, 0x9A, 0x80],
      [0xE2, 0x80, 0x80], [0xE2, 0x80, 0x81], [0xE2, 0x80, 0x82], [0xE2, 0x80, 0x83],
      [0xE2, 0x80, 0x84], [0xE2, 0x80, 0x85], [0xE2, 0x80, 0x86], [0xE2, 0x80, 0x87],
      [0xE2, 0x80, 0x88], [0xE2, 0x80, 0x89], [0xE2, 0x80, 0x8A], [0xE2, 0x80, 0xA8],
      [0xE2, 0x80, 0xA9], [0xE2, 0x80, 0xAF], [0xE2, 0x81, 0x9F], [0xE3, 0x80, 0x80]]"

text \<open>The length of the first of some byte sequences a text starts with, or 0.\<close>

fun prefix_len :: "nat list list \<Rightarrow> nat list \<Rightarrow> nat" where
  "prefix_len [] s = 0"
| "prefix_len (w # ws) s = (if take (length w) s = w then length w else prefix_len ws s)"

lemma prefix_len_le: "prefix_len ws s \<le> length s"
  by (induction ws) (auto, metis length_take min.absorb_iff2 min.commute)

lemma prefix_len_Nil [simp]: "prefix_len ws [] = 0"
  using prefix_len_le[of ws "[]"] by simp

function strip :: "nat list list \<Rightarrow> nat list \<Rightarrow> nat list" where
  "strip ws s = (if prefix_len ws s = 0 then s else strip ws (drop (prefix_len ws s) s))"
  by auto
termination
  by (relation "measure (length \<circ> snd)") (auto intro!: diff_less intro: less_le_trans[OF _ prefix_len_le])

declare strip.simps [simp del]

definition TrimSpace :: "string \<Rightarrow> string" where
  "TrimSpace s =
     (let left = strip white_space (map of_char s);
          right = strip (map rev white_space) (rev left)
      in map char_of (rev right))"

text \<open>A text without a byte that starts or ends a space is left alone.\<close>

lemma prefix_len_0: "\<forall>w \<in> set ws. w \<noteq> [] \<and> hd w \<noteq> c \<Longrightarrow> prefix_len ws (c # s) = 0"
proof (induction ws)
  case (Cons w ws)
  then obtain d w' where "w = d # w'" "d \<noteq> c" by (cases w) auto
  then show ?case using Cons by simp
qed simp

lemma TrimSpace_keeps:
  assumes "s \<noteq> ''''" and "\<forall>c \<in> set s. \<forall>w \<in> set white_space. hd w \<noteq> of_char c \<and> last w \<noteq> of_char c"
  shows "TrimSpace s = s"
proof -
  have ne: "w \<noteq> []" if "w \<in> set white_space" for w using that by (auto simp: white_space_def)
  have l: "strip white_space (map of_char s) = map of_char s"
    using assms ne by (cases s) (auto simp: strip.simps prefix_len_0)
  obtain t c where s: "s = t @ [c]" using assms(1) by (metis rev_exhaust)
  have "prefix_len (map rev white_space) (of_char c # rev (map of_char t)) = 0"
    using assms(2) ne by (intro prefix_len_0) (auto simp: s hd_rev)
  then have "strip (map rev white_space) (rev (map of_char s)) = rev (map of_char s)"
    by (subst strip.simps) (simp add: s)
  then show ?thesis by (simp add: TrimSpace_def l Let_def)
qed

subsection \<open>Hexadecimal text\<close>

text \<open>\<open>hex.EncodeToString\<close>: two digits for every byte.\<close>

definition hex_digit :: "nat \<Rightarrow> char" where
  "hex_digit n = (if n < 10 then char_of (48 + n) else char_of (87 + n))"

definition hex_encode :: "8 word list \<Rightarrow> string" where
  "hex_encode bs = concat (map (\<lambda>b. [hex_digit (unat b div 16), hex_digit (unat b mod 16)]) bs)"

lemma hex_encode_eq_Nil [simp]: "hex_encode bs = '''' \<longleftrightarrow> bs = []"
  by (cases bs) (simp_all add: hex_encode_def)

lemma hex_digit_code: "n < 16 \<Longrightarrow> (of_char (hex_digit n) :: nat) \<in> {48..57} \<union> {97..102}"
  by (cases "n < 10") (simp_all add: hex_digit_def)

lemma white_space_not_hex:
  "list_all (\<lambda>w. hd w \<notin> {48..57} \<union> {97..102} \<and> last w \<notin> {48..57} \<union> {97..102}) white_space"
  by (simp add: white_space_def)

lemma TrimSpace_hex:
  assumes "bs \<noteq> []"
  shows "TrimSpace (hex_encode bs) = hex_encode bs"
proof (rule TrimSpace_keeps)
  show "hex_encode bs \<noteq> ''''" using assms by simp
  show "\<forall>c \<in> set (hex_encode bs). \<forall>w \<in> set white_space. hd w \<noteq> of_char c \<and> last w \<noteq> of_char c"
  proof (intro ballI)
    fix c w assume c: "c \<in> set (hex_encode bs)" and w: "w \<in> set white_space"
    obtain b :: "8 word" where b: "c = hex_digit (unat b div 16) \<or> c = hex_digit (unat b mod 16)"
      using c by (auto simp: hex_encode_def)
    have "unat b div 16 < 16" using unsigned_less[of b, where 'a = nat] by (simp add: less_mult_imp_div_less)
    moreover have "unat b mod 16 < 16" by simp
    ultimately obtain n where "n < 16" "c = hex_digit n" using b by blast
    then have "(of_char c :: nat) \<in> {48..57} \<union> {97..102}" using hex_digit_code by simp
    moreover have "hd w \<notin> {48..57} \<union> {97..102} \<and> last w \<notin> {48..57} \<union> {97..102}" using w white_space_not_hex[unfolded list_all_iff] by blast
    ultimately show "hd w \<noteq> of_char c \<and> last w \<noteq> of_char c" by auto
  qed
qed

end
