(* ===== verification/Room.thy ===== *)
theory Room
  imports GoText GoJson
begin

text \<open>
  The room manager: \<open>internal/room/service.go\<close>, from its types to every method of
  \<open>Manager\<close>. Times are nanoseconds (\<open>time.Now()\<close> is an argument), the zero \<open>time.Time\<close> is
  \<open>None\<close>. A method returns its result (\<open>Inl\<close> an error) and the manager it leaves behind;
  \<open>SetReady\<close> reads through a pointer and panics (\<open>None\<close>) if it is nil.
\<close>

datatype room_state = StateIdle | StateReady | StateLoading | StatePlaying | StateSettlement | StateClosed

fun room_state_text :: "room_state \<Rightarrow> string" where
  "room_state_text StateIdle = ''Idle''"
| "room_state_text StateReady = ''Ready''"
| "room_state_text StateLoading = ''Loading''"
| "room_state_text StatePlaying = ''Playing''"
| "room_state_text StateSettlement = ''Settlement''"
| "room_state_text StateClosed = ''Closed''"

record room_player =
  rpPlayerID :: string
  rpReady :: bool

record command_event =
  evSeq :: "64 word"
  evFrame :: "64 word"
  evPlayerID :: string
  evCmd :: string
  evPayload :: jobj
  evTS :: int

record room =
  rID :: string
  rName :: string
  rOwnerID :: string
  rState :: room_state
  rMaxPlayers :: int
  rPlayers :: "(string, room_player) gomap"
  rCmdSeq :: "64 word"
  rCommands :: "command_event list"
  rPlayingSince :: "int option"

record manager =
  mgRooms :: "(string, room) gomap"
  mgPlayerRoom :: "(string, string) gomap"
  mgFrameTick :: int

datatype room_error =
    PlayerAlreadyInRoom | RoomNotFound | StateForbidsJoin room_state | RoomFull | PlayerNotInRoom
  | OnlyOwnerCanStart | NeedTwoPlayers | NotPlaying room_state | EmptyCmd

fun room_error_text :: "room_error \<Rightarrow> string" where
  "room_error_text PlayerAlreadyInRoom = ''player already in room''"
| "room_error_text RoomNotFound = ''room not found''"
| "room_error_text (StateForbidsJoin s) = ''room state does not allow join: '' @ room_state_text s"
| "room_error_text RoomFull = ''room full''"
| "room_error_text PlayerNotInRoom = ''player not in room''"
| "room_error_text OnlyOwnerCanStart = ''only owner can start''"
| "room_error_text NeedTwoPlayers = ''need at least 2 players''"
| "room_error_text (NotPlaying s) = ''room not in playing state: '' @ room_state_text s"
| "room_error_text EmptyCmd = ''empty cmd''"

definition NewManager :: "int \<Rightarrow> manager" where
  "NewManager frameTick =
     \<lparr>mgRooms = [], mgPlayerRoom = [],
      mgFrameTick = (if frameTick \<le> 0 then 50 * 1000000 else frameTick)\<rparr>"

text \<open>A copy with maps and players of its own.\<close>

definition cloneRoom :: "room \<Rightarrow> room" where
  "cloneRoom r =
     \<lparr>rID = rID r, rName = rName r, rOwnerID = rOwnerID r, rState = rState r,
      rMaxPlayers = rMaxPlayers r,
      rPlayers = mmap_vals (\<lambda>k v. \<lparr>rpPlayerID = rpPlayerID v, rpReady = rpReady v\<rparr>) (rPlayers r),
      rCmdSeq = rCmdSeq r, rCommands = [] @ rCommands r, rPlayingSince = rPlayingSince r\<rparr>"

text \<open>The state of a room after a change of its players, at time \<open>now\<close>.\<close>

definition updateRoomStateLocked :: "int \<Rightarrow> room \<Rightarrow> room" where
  "updateRoomStateLocked now r =
     (if length (rPlayers r) = 0 then r\<lparr>rState := StateClosed\<rparr>
      else if length (rPlayers r) = 1 then r\<lparr>rState := StateIdle\<rparr>
      else if \<not> list_all (\<lambda>(k, p). rpReady p) (rPlayers r) then r\<lparr>rState := StateReady\<rparr>
      else if rState r = StateIdle \<or> rState r = StateReady \<or> rState r = StateLoading
        then r\<lparr>rState := StatePlaying,
               rPlayingSince := (if rPlayingSince r = None then Some now else rPlayingSince r)\<rparr>
      else r)"

definition currentFrameLocked :: "manager \<Rightarrow> int \<Rightarrow> room \<Rightarrow> 64 word" where
  "currentFrameLocked m now r =
     (case rPlayingSince r of
        None \<Rightarrow> 0
      | Some since \<Rightarrow>
        if rState r \<noteq> StatePlaying then 0 else word_of_int ((now - since) sdiv mgFrameTick m))"

definition mustGetPlayerRoomLocked :: "manager \<Rightarrow> string \<Rightarrow> room_error + room" where
  "mustGetPlayerRoomLocked m playerID =
     (case mget (mgPlayerRoom m) playerID of
        None \<Rightarrow> Inl PlayerNotInRoom
      | Some roomID \<Rightarrow>
        (case mget (mgRooms m) roomID of None \<Rightarrow> Inl RoomNotFound | Some r \<Rightarrow> Inr r))"

text \<open>
  The rooms of the map are pointers: a change of the room found for a player is a change of
  the map's entry under the identifier it was found with.
\<close>

definition player_room_key :: "manager \<Rightarrow> string \<Rightarrow> string" where
  "player_room_key m playerID = (case mget (mgPlayerRoom m) playerID of None \<Rightarrow> '''' | Some k \<Rightarrow> k)"

definition store_room :: "string \<Rightarrow> room \<Rightarrow> manager \<Rightarrow> manager" where
  "store_room k r m = m\<lparr>mgRooms := mput k r (mgRooms m)\<rparr>"

definition CreateRoom :: "int \<Rightarrow> string \<Rightarrow> string \<Rightarrow> int \<Rightarrow> manager \<Rightarrow> (room_error + room) \<times> manager" where
  "CreateRoom now playerID name capacity m =
     (if mhas (mgPlayerRoom m) playerID then (Inl PlayerAlreadyInRoom, m)
      else
        (let capacity = (if capacity \<le> 1 then 2 else capacity);
             roomID = FormatInt now;
             r = \<lparr>rID = roomID, rName = name, rOwnerID = playerID, rState = StateIdle,
                  rMaxPlayers = capacity,
                  rPlayers = [(playerID, \<lparr>rpPlayerID = playerID, rpReady = False\<rparr>)],
                  rCmdSeq = 0, rCommands = [], rPlayingSince = None\<rparr>
         in (Inr (cloneRoom r),
             m\<lparr>mgRooms := mput roomID r (mgRooms m),
               mgPlayerRoom := mput playerID roomID (mgPlayerRoom m)\<rparr>)))"

definition ListRooms :: "manager \<Rightarrow> room list" where
  "ListRooms m = map (\<lambda>(k, r). cloneRoom r) (mgRooms m)"

definition JoinRoom :: "int \<Rightarrow> string \<Rightarrow> string \<Rightarrow> manager \<Rightarrow> (room_error + room) \<times> manager" where
  "JoinRoom now playerID roomID m =
     (if mhas (mgPlayerRoom m) playerID then (Inl PlayerAlreadyInRoom, m)
      else
        (case mget (mgRooms m) roomID of
           None \<Rightarrow> (Inl RoomNotFound, m)
         | Some r \<Rightarrow>
           if rState r = StateClosed \<or> rState r = StateSettlement \<or> rState r = StatePlaying
             then (Inl (StateForbidsJoin (rState r)), m)
           else if int (length (rPlayers r)) \<ge> rMaxPlayers r then (Inl RoomFull, m)
           else
             (let r1 = r\<lparr>rPlayers := mput playerID \<lparr>rpPlayerID = playerID, rpReady = False\<rparr> (rPlayers r)\<rparr>;
                  r2 = updateRoomStateLocked now r1
              in (Inr (cloneRoom r2),
                  store_room roomID r2 (m\<lparr>mgPlayerRoom := mput playerID roomID (mgPlayerRoom m)\<rparr>)))))"

definition SetReady :: "int \<Rightarrow> string \<Rightarrow> bool \<Rightarrow> manager \<Rightarrow> ((room_error + room) \<times> manager) option" where
  "SetReady now playerID ready m =
     (case mustGetPlayerRoomLocked m playerID of
        Inl err \<Rightarrow> Some (Inl err, m)
      | Inr r \<Rightarrow>
        (case mget (rPlayers r) playerID of
           None \<Rightarrow> None
         | Some p \<Rightarrow>
           (let r1 = r\<lparr>rPlayers := mput playerID (p\<lparr>rpReady := ready\<rparr>) (rPlayers r)\<rparr>;
                r2 = updateRoomStateLocked now r1
            in Some (Inr (cloneRoom r2), store_room (player_room_key m playerID) r2 m))))"

definition StartGame :: "int \<Rightarrow> string \<Rightarrow> manager \<Rightarrow> (room_error + room) \<times> manager" where
  "StartGame now playerID m =
     (case mustGetPlayerRoomLocked m playerID of
        Inl err \<Rightarrow> (Inl err, m)
      | Inr r \<Rightarrow>
        if rOwnerID r \<noteq> playerID then (Inl OnlyOwnerCanStart, m)
        else if length (rPlayers r) < 2 then (Inl NeedTwoPlayers, m)
        else
          (let r1 = r\<lparr>rState := StatePlaying,
                 rPlayingSince := (if rPlayingSince r = None then Some now else rPlayingSince r)\<rparr>
           in (Inr (cloneRoom r1), store_room (player_room_key m playerID) r1 m)))"

definition LeaveRoom :: "int \<Rightarrow> string \<Rightarrow> manager \<Rightarrow> (room_error + room) \<times> manager" where
  "LeaveRoom now playerID m =
     (case mustGetPlayerRoomLocked m playerID of
        Inl err \<Rightarrow> (Inl err, m)
      | Inr r \<Rightarrow>
        (let key = player_room_key m playerID;
             r1 = r\<lparr>rPlayers := mdel playerID (rPlayers r)\<rparr>;
             m1 = m\<lparr>mgPlayerRoom := mdel playerID (mgPlayerRoom m)\<rparr>
         in if length (rPlayers r1) = 0
            then (let r2 = r1\<lparr>rState := StateClosed\<rparr>
                  in (Inr (cloneRoom r2),
                      (let m2 = store_room key r2 m1 in m2\<lparr>mgRooms := mdel (rID r2) (mgRooms m2)\<rparr>)))
            else
              (let r2 = (if rOwnerID r1 = playerID
                         then (case rPlayers r1 of (k, p) # _ \<Rightarrow> r1\<lparr>rOwnerID := rpPlayerID p\<rparr> | [] \<Rightarrow> r1)
                         else r1);
                   r3 = updateRoomStateLocked now r2
               in (Inr (cloneRoom r3), store_room key r3 m1))))"

text \<open>The log keeps the last 2048 commands.\<close>

definition trim_commands :: "command_event list \<Rightarrow> command_event list" where
  "trim_commands cs = (if length cs > 2048 then drop (length cs - 2048) cs else cs)"

definition SubmitInput ::
  "int \<Rightarrow> int \<Rightarrow> string \<Rightarrow> string \<Rightarrow> jobj \<Rightarrow> manager \<Rightarrow> (room_error + command_event) \<times> manager" where
  "SubmitInput now nowMS playerID cmd payload m =
     (case mustGetPlayerRoomLocked m playerID of
        Inl err \<Rightarrow> (Inl err, m)
      | Inr r \<Rightarrow>
        if rState r \<noteq> StatePlaying then (Inl (NotPlaying (rState r)), m)
        else if cmd = '''' then (Inl EmptyCmd, m)
        else
          (let r1 = r\<lparr>rCmdSeq := rCmdSeq r + 1\<rparr>;
               ev = \<lparr>evSeq = rCmdSeq r1, evFrame = currentFrameLocked m now r1,
                     evPlayerID = playerID, evCmd = cmd, evPayload = payload, evTS = nowMS\<rparr>;
               r2 = r1\<lparr>rCommands := trim_commands (rCommands r1 @ [ev])\<rparr>
           in (Inr ev, store_room (player_room_key m playerID) r2 m)))"

definition PullInputs ::
  "int \<Rightarrow> string \<Rightarrow> 64 word \<Rightarrow> manager \<Rightarrow> room_error + (command_event list \<times> 64 word \<times> room)" where
  "PullInputs now playerID lastSeq m =
     (case mustGetPlayerRoomLocked m playerID of
        Inl err \<Rightarrow> Inl err
      | Inr r \<Rightarrow>
        Inr (filter (\<lambda>ev. evSeq ev > lastSeq) (rCommands r), currentFrameLocked m now r, cloneRoom r))"

definition Snapshot :: "int \<Rightarrow> string \<Rightarrow> manager \<Rightarrow> room_error + (room \<times> 64 word)" where
  "Snapshot now playerID m =
     (case mustGetPlayerRoomLocked m playerID of
        Inl err \<Rightarrow> Inl err
      | Inr r \<Rightarrow> Inr (cloneRoom r, currentFrameLocked m now r))"

subsection \<open>The service\<close>

definition unix_milli :: "int option \<Rightarrow> int" where
  "unix_milli t = (case t of None \<Rightarrow> - 62135596800000 | Some ns \<Rightarrow> ns div 1000000)"

definition roomToMap :: "room \<Rightarrow> jobj" where
  "roomToMap r =
     [(''room_id'', JStr (rID r)), (''name'', JStr (rName r)), (''owner_id'', JStr (rOwnerID r)),
      (''state'', JStr (room_state_text (rState r))), (''max_players'', jint (rMaxPlayers r)),
      (''players'', JArr (map (\<lambda>(k, p). JObj [(''player_id'', JStr (rpPlayerID p)),
                                              (''ready'', JBool (rpReady p))]) (rPlayers r))),
      (''latest_cmd'', jint (uint (rCmdSeq r))), (''playing_since'', jint (unix_milli (rPlayingSince r)))]"

definition eventToMap :: "command_event \<Rightarrow> jobj" where
  "eventToMap ev =
     [(''seq'', jint (uint (evSeq ev))), (''frame'', jint (uint (evFrame ev))),
      (''player_id'', JStr (evPlayerID ev)), (''cmd'', JStr (evCmd ev)),
      (''payload'', JObj (evPayload ev)), (''ts'', jint (evTS ev))]"

text \<open>The message numbers of \<open>internal/protocol/room_msg.go\<close>.\<close>

definition RoomMsgCreateRoom :: "16 word" where "RoomMsgCreateRoom = 1001"
definition RoomMsgJoinRoom :: "16 word" where "RoomMsgJoinRoom = 1002"
definition RoomMsgReady :: "16 word" where "RoomMsgReady = 1003"
definition RoomMsgLeaveRoom :: "16 word" where "RoomMsgLeaveRoom = 1004"
definition RoomMsgStartGame :: "16 word" where "RoomMsgStartGame = 1005"
definition RoomMsgSubmitInput :: "16 word" where "RoomMsgSubmitInput = 1101"
definition RoomMsgPullInputs :: "16 word" where "RoomMsgPullInputs = 1102"
definition RoomMsgSnapshot :: "16 word" where "RoomMsgSnapshot = 1201"
definition RoomMsgListRooms :: "16 word" where "RoomMsgListRooms = 1202"

lemmas room_msgs = RoomMsgCreateRoom_def RoomMsgJoinRoom_def RoomMsgReady_def RoomMsgLeaveRoom_def
  RoomMsgStartGame_def RoomMsgSubmitInput_def RoomMsgPullInputs_def RoomMsgSnapshot_def RoomMsgListRooms_def

definition room_answer :: "(room_error + room) \<times> manager \<Rightarrow> jval \<times> manager" where
  "room_answer res =
     (case res of
        (Inl err, m) \<Rightarrow> (mapResp 300 (room_error_text err) [], m)
      | (Inr r, m) \<Rightarrow> (mapResp 0 ''ok'' [(''room'', JObj (roomToMap r))], m))"

text \<open>
  \<open>HandleGatewayMessage\<close>: the clock is read as nanoseconds, milliseconds and seconds; a nil
  request is \<open>None\<close>; the answer and the new manager, or \<open>None\<close> for a panic.
\<close>

definition HandleGatewayMessage ::
  "int \<Rightarrow> int \<Rightarrow> int \<Rightarrow> jobj option \<Rightarrow> manager \<Rightarrow> (jval \<times> manager) option" where
  "HandleGatewayMessage now nowMS nowS req m =
     (case req of
        None \<Rightarrow> Some (mapResp 100 ''nil_request'' [], m)
      | Some rq \<Rightarrow>
        (let playerID = as_string (jget rq ''player_id'');
             msgID = toUint16 (jget rq ''msg_id'');
             body = toMap (jget rq ''body'')
         in if playerID = '''' then Some (mapResp 100 ''missing_player_id'' [], m)
            else if msgID = RoomMsgCreateRoom then
              (let name0 = as_string (jget body ''name'');
                   name = (if name0 = '''' then ''Room-'' @ FormatInt nowS else name0);
                   capacity = to_int (toFloat64 (jget body ''capacity''))
               in Some (room_answer (CreateRoom now playerID name capacity m)))
            else if msgID = RoomMsgJoinRoom then
              Some (room_answer (JoinRoom now playerID (as_string (jget body ''room_id'')) m))
            else if msgID = RoomMsgReady then
              (let ready = (case jget body ''ready'' of JBool v \<Rightarrow> v | _ \<Rightarrow> True)
               in map_option room_answer (SetReady now playerID ready m))
            else if msgID = RoomMsgStartGame then Some (room_answer (StartGame now playerID m))
            else if msgID = RoomMsgLeaveRoom then Some (room_answer (LeaveRoom now playerID m))
            else if msgID = RoomMsgSubmitInput then
              (case SubmitInput now nowMS playerID (as_string (jget body ''cmd''))
                      (toMap (jget body ''payload'')) m of
                 (Inl err, m') \<Rightarrow> Some (mapResp 300 (room_error_text err) [], m')
               | (Inr ev, m') \<Rightarrow> Some (mapResp 0 ''ok'' [(''event'', JObj (eventToMap ev))], m'))
            else if msgID = RoomMsgPullInputs then
              (case PullInputs now playerID (to_uint64 (toFloat64 (jget body ''last_seq''))) m of
                 Inl err \<Rightarrow> Some (mapResp 300 (room_error_text err) [], m)
               | Inr (events, frame, r) \<Rightarrow>
                   Some (mapResp 0 ''ok''
                     [(''frame'', jint (uint frame)), (''room'', JObj (roomToMap r)),
                      (''events'', JArr (map (\<lambda>ev. JObj (eventToMap ev)) events))], m))
            else if msgID = RoomMsgSnapshot then
              (case Snapshot now playerID m of
                 Inl err \<Rightarrow> Some (mapResp 300 (room_error_text err) [], m)
               | Inr (r, frame) \<Rightarrow>
                   Some (mapResp 0 ''ok''
                     [(''frame'', jint (uint frame)), (''room'', JObj (roomToMap r))], m))
            else if msgID = RoomMsgListRooms then
              Some (mapResp 0 ''ok''
                [(''rooms'', JArr (map (\<lambda>r. JObj (roomToMap r)) (ListRooms m)))], m)
            else Some (mapResp 100 ''unknown_msg_id'' [], m)))"

end
