(* ===== verification/RoomProps.thy ===== *)
theory RoomProps
  imports Room
begin

text \<open>
  The invariant of the room manager (\<open>internal/room/service.go\<close>) and its preservation by
  every operation, the registry interface that ties players to rooms, and the states the
  service can reach.
\<close>

subsection \<open>Well-formed rooms\<close>

text \<open>
  The log holds the last commands: counted from its end, each command carries the sequence
  number that many below the newest (on 64 bits, so also across an overflow).
\<close>

definition log_ok :: "room \<Rightarrow> bool" where
  "log_ok r \<longleftrightarrow> length (rCommands r) \<le> 2048 \<and>
     (\<forall>i < length (rCommands r).
        evSeq (rCommands r ! i) = rCmdSeq r - of_nat (length (rCommands r) - 1 - i))"

definition wf_core :: "string \<Rightarrow> room \<Rightarrow> bool" where
  "wf_core k r \<longleftrightarrow>
     rID r = k \<and> wf_map (rPlayers r) \<and> rPlayers r \<noteq> []
     \<and> (\<forall>p v. mget (rPlayers r) p = Some v \<longrightarrow> rpPlayerID v = p)
     \<and> mget (rPlayers r) (rOwnerID r) \<noteq> None
     \<and> int (length (rPlayers r)) \<le> rMaxPlayers r \<and> 2 \<le> rMaxPlayers r
     \<and> rState r \<in> {StateIdle, StateReady, StatePlaying}
     \<and> (rState r = StatePlaying \<longrightarrow> rPlayingSince r \<noteq> None)
     \<and> log_ok r"

text \<open>The state tells how many players there are, and whether one of them is not ready.\<close>

definition state_ok :: "room \<Rightarrow> bool" where
  "state_ok r \<longleftrightarrow>
     (rState r = StateIdle \<longleftrightarrow> length (rPlayers r) = 1)
     \<and> (rState r = StateReady \<longrightarrow> (\<exists>p v. mget (rPlayers r) p = Some v \<and> \<not> rpReady v))"

definition wf_room :: "string \<Rightarrow> room \<Rightarrow> bool" where
  "wf_room k r \<longleftrightarrow> wf_core k r \<and> state_ok r"

lemma updateRoomStateLocked_simps [simp]:
  "rID (updateRoomStateLocked now r) = rID r"
  "rName (updateRoomStateLocked now r) = rName r"
  "rOwnerID (updateRoomStateLocked now r) = rOwnerID r"
  "rMaxPlayers (updateRoomStateLocked now r) = rMaxPlayers r"
  "rPlayers (updateRoomStateLocked now r) = rPlayers r"
  "rCmdSeq (updateRoomStateLocked now r) = rCmdSeq r"
  "rCommands (updateRoomStateLocked now r) = rCommands r"
  by (simp_all add: updateRoomStateLocked_def)

lemma log_ok_update [simp]: "log_ok (updateRoomStateLocked now r) = log_ok r"
  by (simp add: log_ok_def)

lemma all_ready_iff:
  "wf_map ps \<Longrightarrow> list_all (\<lambda>(k, p). rpReady p) ps \<longleftrightarrow> (\<forall>k v. mget ps k = Some v \<longrightarrow> rpReady v)"
  using wf_map_mem[of ps] by (fastforce simp: list_all_iff)

lemma wf_room_update [wf_intros]:
  assumes "wf_core k r"
  shows "wf_room k (updateRoomStateLocked now r)"
proof -
  have wf: "wf_map (rPlayers r)" using assms by (simp add: wf_core_def)
  have "wf_core k (updateRoomStateLocked now r)"
    using assms unfolding wf_core_def updateRoomStateLocked_simps log_ok_update
    by (auto simp: updateRoomStateLocked_def)
  moreover have "state_ok (updateRoomStateLocked now r)"
    using assms unfolding state_ok_def updateRoomStateLocked_simps
    by (auto simp: updateRoomStateLocked_def all_ready_iff[OF wf] wf_core_def)
  ultimately show ?thesis by (simp add: wf_room_def)
qed

lemma not_ready_added:
  "list_all (\<lambda>(k, p). rpReady p) (mput p v ps) \<Longrightarrow> rpReady v"
  by (induction ps) (auto split: if_splits)

lemma wf_room_core: "wf_room k r \<Longrightarrow> wf_core k r"
  by (simp add: wf_room_def)

subsection \<open>The registry of players\<close>

definition room_members :: "room \<Rightarrow> string set" where
  "room_members r = mkeys (rPlayers r)"

definition wf_manager :: "manager \<Rightarrow> bool" where
  "wf_manager m \<longleftrightarrow>
     wf_map (mgRooms m) \<and> wf_map (mgPlayerRoom m) \<and> 0 < mgFrameTick m
     \<and> (\<forall>k r. mget (mgRooms m) k = Some r \<longrightarrow> wf_room k r)
     \<and> (\<forall>p k. mget (mgPlayerRoom m) p = Some k
          \<longleftrightarrow> (\<exists>r. mget (mgRooms m) k = Some r \<and> p \<in> room_members r))"

interpretation rooms: registry mgRooms mgPlayerRoom room_members wf_manager
  by unfold_locales (auto simp: wf_manager_def)

lemma room_members_iff: "p \<in> room_members r \<longleftrightarrow> mget (rPlayers r) p \<noteq> None"
  by (simp add: room_members_def mkeys_iff)

lemma wf_manager_room: "wf_manager m \<Longrightarrow> mget (mgRooms m) k = Some r \<Longrightarrow> wf_room k r"
  by (simp add: wf_manager_def)

lemma mustGet_cases:
  assumes "wf_manager m"
  obtains (out) "mget (mgPlayerRoom m) p = None" "mustGetPlayerRoomLocked m p = Inl PlayerNotInRoom"
  | (member) k r where "mget (mgPlayerRoom m) p = Some k" "mget (mgRooms m) k = Some r"
      "mustGetPlayerRoomLocked m p = Inr r" "player_room_key m p = k" "p \<in> room_members r" "wf_room k r"
proof (cases "mget (mgPlayerRoom m) p")
  case None
  then show ?thesis using out by (simp add: mustGetPlayerRoomLocked_def)
next
  case (Some k)
  then obtain r where "mget (mgRooms m) k = Some r" "p \<in> room_members r"
    using rooms.lookup[OF assms] by blast
  then show ?thesis
    using member Some wf_manager_room[OF assms] by (simp add: mustGetPlayerRoomLocked_def player_room_key_def)
qed

subsection \<open>Every operation keeps the invariant\<close>

lemma wf_manager_new [wf_intros]: "wf_manager (NewManager tick)"
  by (simp add: wf_manager_def NewManager_def)

lemma wf_store_room [wf_intros]:
  assumes "wf_manager m" and "mget (mgRooms m) k = Some r" and "wf_room k r'"
    and "room_members r' = room_members r"
  shows "wf_manager (store_room k r' m)"
  using assms by (auto simp: wf_manager_def store_room_def)

lemma cloneRoom_same [simp]: "cloneRoom r = r"
proof -
  have "mmap_vals (\<lambda>k v. \<lparr>rpPlayerID = rpPlayerID v, rpReady = rpReady v\<rparr>) ps = ps" for ps :: "(string, room_player) gomap"
    by (induction ps) (auto simp: mmap_vals_def)
  then show ?thesis by (simp add: cloneRoom_def)
qed

lemma cloneRoom_members [simp]: "room_members (cloneRoom r) = room_members r"
  by (auto simp: room_members_iff cloneRoom_def)

lemma wf_CreateRoom [wf_intros]:
  assumes wf: "wf_manager m" and fresh: "mget (mgRooms m) (FormatInt now) = None"
  shows "wf_manager (snd (CreateRoom now p name capacity m))"
proof (cases "mget (mgPlayerRoom m) p")
  case (Some k)
  then show ?thesis using wf by (simp add: CreateRoom_def mhas_def)
next
  case None
  then have out: "mget (mgRooms m) k = Some r \<Longrightarrow> p \<notin> room_members r" for k r
    using rooms.index_total[OF wf, of p] by blast
  show ?thesis
    using wf None fresh out
    unfolding wf_manager_def CreateRoom_def Let_def mhas_def
    by (auto simp: wf_room_def wf_core_def state_ok_def log_ok_def room_members_def)
qed

lemma wf_JoinRoom [wf_intros]:
  assumes wf: "wf_manager m"
  shows "wf_manager (snd (JoinRoom now p k m))"
proof (cases "mget (mgPlayerRoom m) p \<noteq> None \<or> fst (JoinRoom now p k m) \<in> range Inl")
  case True
  then have "snd (JoinRoom now p k m) = m"
    by (auto simp: JoinRoom_def mhas_def Let_def split: option.splits if_splits)
  then show ?thesis using wf by simp
next
  case False
  then have None: "mget (mgPlayerRoom m) p = None" by simp
  from False obtain r where r: "mget (mgRooms m) k = Some r"
    and st: "rState r \<noteq> StateClosed" "rState r \<noteq> StateSettlement" "rState r \<noteq> StatePlaying"
    and room: "\<not> int (length (rPlayers r)) \<ge> rMaxPlayers r"
    by (auto simp: JoinRoom_def mhas_def Let_def split: option.splits if_splits)
  have out: "mget (mgRooms m) k' = Some r' \<Longrightarrow> p \<notin> room_members r'" for k' r'
    using rooms.index_total[OF wf, of p] None by blast
  let ?r1 = "r\<lparr>rPlayers := mput p \<lparr>rpPlayerID = p, rpReady = False\<rparr> (rPlayers r)\<rparr>"
  let ?r2 = "updateRoomStateLocked now ?r1"
  have core: "wf_core k r" using wf_manager_room[OF wf r] by (rule wf_room_core)
  have new: "mget (rPlayers r) p = None" using out[OF r] by (simp add: room_members_iff)
  have "wf_core k ?r1"
    using core room new unfolding wf_core_def by (auto simp: length_mput log_ok_def)
  then have wr: "wf_room k ?r2" by (rule wf_room_update)
  have mem: "room_members ?r2 = insert p (room_members r)" by (auto simp: room_members_iff split: if_splits)
  have "snd (JoinRoom now p k m) = store_room k ?r2 (m\<lparr>mgPlayerRoom := mput p k (mgPlayerRoom m)\<rparr>)"
    using None r st room by (simp add: JoinRoom_def mhas_def Let_def)
  then show ?thesis
    using wf None r out wr mem unfolding wf_manager_def store_room_def by auto
qed

lemma SetReady_cases:
  assumes wf: "wf_manager m"
  shows "\<exists>res m'. SetReady now p b m = Some (res, m') \<and> wf_manager m' \<and> (\<forall>err. res = Inl err \<longrightarrow> m' = m)
    \<and> (\<forall>k. mget (mgRooms m') k \<noteq> None \<longrightarrow> mget (mgRooms m) k \<noteq> None)"
  using wf
proof (cases rule: mustGet_cases[of m p])
  case out
  then show ?thesis using wf by (simp add: SetReady_def)
next
  case (member k r)
  then obtain v where v: "mget (rPlayers r) p = Some v" by (auto simp: room_members_iff)
  let ?r1 = "r\<lparr>rPlayers := mput p (v\<lparr>rpReady := b\<rparr>) (rPlayers r)\<rparr>"
  let ?r2 = "updateRoomStateLocked now ?r1"
  have "wf_core k ?r1"
    using wf_room_core[OF member(6)] v unfolding wf_core_def
    by (auto simp: length_mput log_ok_def)
  then have "wf_room k ?r2" by (rule wf_room_update)
  moreover have "room_members ?r2 = room_members r" using v by (auto simp: room_members_iff split: if_splits)
  ultimately have "wf_manager (store_room k ?r2 m)" by (rule wf_store_room[OF wf member(2)])
  then show ?thesis using member v by (simp add: SetReady_def Let_def store_room_def)
qed

lemma wf_StartGame [wf_intros]:
  assumes wf: "wf_manager m"
  shows "wf_manager (snd (StartGame now p m))"
  using wf
proof (cases rule: mustGet_cases[of m p])
  case out
  then show ?thesis using wf by (simp add: StartGame_def)
next
  case (member k r)
  let ?r1 = "r\<lparr>rState := StatePlaying,
    rPlayingSince := (if rPlayingSince r = None then Some now else rPlayingSince r)\<rparr>"
  have "\<not> length (rPlayers r) < 2 \<Longrightarrow> wf_room k ?r1"
    using member(6) unfolding wf_room_def wf_core_def state_ok_def by (auto simp: log_ok_def)
  moreover have "room_members ?r1 = room_members r" by (simp add: room_members_iff set_eq_iff)
  ultimately have "\<not> length (rPlayers r) < 2 \<Longrightarrow> wf_manager (store_room k ?r1 m)"
    using wf_store_room[OF wf member(2)] by blast
  then show ?thesis using member wf by (simp add: StartGame_def Let_def)
qed

text \<open>What is left of a room when a player leaves it.\<close>

definition after_leaving :: "string \<Rightarrow> room \<Rightarrow> room" where
  "after_leaving p r =
     (let r1 = r\<lparr>rPlayers := mdel p (rPlayers r)\<rparr>
      in if rOwnerID r1 = p
         then (case rPlayers r1 of (k, v) # _ \<Rightarrow> r1\<lparr>rOwnerID := rpPlayerID v\<rparr> | [] \<Rightarrow> r1)
         else r1)"

lemma after_leaving_players [simp]: "rPlayers (after_leaving p r) = mdel p (rPlayers r)"
  by (simp add: after_leaving_def Let_def split: list.splits prod.splits)

lemma after_leaving_owner:
  assumes "wf_core k r" and "mdel p (rPlayers r) \<noteq> []"
  shows "mget (mdel p (rPlayers r)) (rOwnerID (after_leaving p r)) \<noteq> None"
proof (cases "rOwnerID r = p")
  case True
  from assms(2) obtain k' v ps where ps: "mdel p (rPlayers r) = (k', v) # ps"
    by (cases "mdel p (rPlayers r)") auto
  then have "mget (mdel p (rPlayers r)) k' = Some v" by simp
  then have "mget (rPlayers r) k' = Some v" by (simp split: if_splits)
  then have "rpPlayerID v = k'" using assms(1) by (simp add: wf_core_def)
  then show ?thesis using True ps by (simp add: after_leaving_def Let_def)
next
  case False
  then have "rOwnerID (after_leaving p r) = rOwnerID r" by (simp add: after_leaving_def Let_def)
  then show ?thesis using False assms(1) by (simp add: wf_core_def)
qed

lemma wf_after_leaving:
  assumes core: "wf_core k r" and some: "mdel p (rPlayers r) \<noteq> []"
  shows "wf_core k (after_leaving p r)"
proof -
  have same: "rID (after_leaving p r) = rID r" "rMaxPlayers (after_leaving p r) = rMaxPlayers r"
    "rState (after_leaving p r) = rState r" "rPlayingSince (after_leaving p r) = rPlayingSince r"
    "rCommands (after_leaving p r) = rCommands r" "rCmdSeq (after_leaving p r) = rCmdSeq r"
    by (auto simp: after_leaving_def Let_def split: list.splits prod.splits)
  have "length (mdel p (rPlayers r)) \<le> length (rPlayers r)" by (rule length_delete_le)
  then show ?thesis
    using core some after_leaving_owner[OF core some]
    unfolding wf_core_def same after_leaving_players log_ok_def by auto
qed

lemma LeaveRoom_member:
  assumes "mustGetPlayerRoomLocked m p = Inr r" and "player_room_key m p = k"
  shows "LeaveRoom now p m =
    (if mdel p (rPlayers r) = []
     then (Inr (cloneRoom (r\<lparr>rPlayers := [], rState := StateClosed\<rparr>)),
           m\<lparr>mgPlayerRoom := mdel p (mgPlayerRoom m),
             mgRooms := mdel (rID r) (mput k (r\<lparr>rPlayers := [], rState := StateClosed\<rparr>) (mgRooms m))\<rparr>)
     else (Inr (cloneRoom (updateRoomStateLocked now (after_leaving p r))),
           store_room k (updateRoomStateLocked now (after_leaving p r))
             (m\<lparr>mgPlayerRoom := mdel p (mgPlayerRoom m)\<rparr>)))"
  using assms by (simp add: LeaveRoom_def Let_def after_leaving_def store_room_def)

lemma wf_LeaveRoom [wf_intros]:
  assumes wf: "wf_manager m"
  shows "wf_manager (snd (LeaveRoom now p m))"
  using wf
proof (cases rule: mustGet_cases[of m p])
  case out
  then show ?thesis using wf by (simp add: LeaveRoom_def)
next
  case (member k r)
  note core = wf_room_core[OF member(6)]
  have id: "rID r = k" using core by (simp add: wf_core_def)
  have only: "p \<in> room_members r' \<Longrightarrow> mget (mgRooms m) k' = Some r' \<Longrightarrow> k' = k" for k' r'
    using rooms.one_object[OF wf _ member(2) _ member(5)] by blast
  show ?thesis
  proof (cases "mdel p (rPlayers r) = []")
    case True
    then have "room_members r = {p}" using member(5) by (auto simp: room_members_def mdel_Nil_iff)
    then show ?thesis
      using wf member(2) only True id
      unfolding LeaveRoom_member[OF member(3,4)] wf_manager_def by auto
  next
    case False
    let ?r = "updateRoomStateLocked now (after_leaving p r)"
    have wr: "wf_room k ?r" by (rule wf_room_update[OF wf_after_leaving[OF core False]])
    have "room_members ?r = room_members r - {p}" by (auto simp: room_members_iff split: if_splits)
    then show ?thesis
      using wf member(2) only False wr
      unfolding LeaveRoom_member[OF member(3,4)] wf_manager_def store_room_def by auto
  qed
qed

subsection \<open>The command log\<close>

lemma log_ok_submit:
  assumes "log_ok r" and seq: "evSeq ev = rCmdSeq r + 1"
  shows "log_ok (r\<lparr>rCmdSeq := rCmdSeq r + 1, rCommands := trim_commands (rCommands r @ [ev])\<rparr>)"
proof -
  let ?cs = "rCommands r @ [ev]" and ?n = "length (rCommands r)"
  have at: "evSeq (?cs ! i) = rCmdSeq r + 1 - of_nat (?n - i)" if "i \<le> ?n" for i
  proof (cases "i = ?n")
    case True
    then show ?thesis using seq by simp
  next
    case False
    then have i: "i < ?n" using that by simp
    then have "?n - i = Suc (?n - 1 - i)" by simp
    then show ?thesis using assms(1) i by (simp add: log_ok_def nth_append)
  qed
  have n: "?n \<le> 2048" using assms(1) by (simp add: log_ok_def)
  show ?thesis
  proof (cases "length ?cs > 2048")
    case True
    then have n': "?n = 2048" using n by simp
    have t: "trim_commands ?cs = drop 1 ?cs" using True n' by (simp add: trim_commands_def)
    have "evSeq (drop 1 ?cs ! i) = rCmdSeq r + 1 - of_nat (2047 - i)" if "i < 2048" for i
      using at[of "Suc i"] that n' by (simp add: nth_drop del: drop_append)
    then show ?thesis unfolding log_ok_def by (simp add: t n' del: drop_append)
  next
    case False
    then show ?thesis using at unfolding log_ok_def by (simp add: trim_commands_def)
  qed
qed

lemma trim_last:
  "length cs \<le> 2048 \<Longrightarrow> last (trim_commands (cs @ [ev])) = ev
     \<and> length (trim_commands (cs @ [ev])) = min 2048 (length cs + 1)"
  by (auto simp: trim_commands_def)

text \<open>As long as the numbers have not wrapped, the commands after a number are the end of the log.\<close>

lemma log_seq:
  assumes "log_ok r" and "length (rCommands r) \<le> unat (rCmdSeq r)" and "i < length (rCommands r)"
  shows "unat (evSeq (rCommands r ! i)) = unat (rCmdSeq r) - length (rCommands r) + 1 + i"
proof -
  let ?d = "length (rCommands r) - 1 - i"
  have d: "?d \<le> unat (rCmdSeq r)" using assms(2) by simp
  have "unat (rCmdSeq r) < 2 ^ 64" using unsigned_less[of "rCmdSeq r"] by simp
  with d have "?d < 2 ^ 64" by linarith
  then have "unat (of_nat ?d :: 64 word) = ?d" by (simp add: unsigned_of_nat take_bit_nat_eq_self)
  moreover have "of_nat ?d \<le> rCmdSeq r" using d calculation by (simp add: word_le_nat_alt)
  ultimately have "unat (rCmdSeq r - of_nat ?d) = unat (rCmdSeq r) - ?d" by (simp add: unat_sub)
  then show ?thesis using assms by (simp add: log_ok_def)
qed

lemma filter_drop:
  "map f xs = [a ..< b] \<Longrightarrow> filter (\<lambda>x. c < f x) xs = drop (Suc c - a) xs"
proof (induction xs arbitrary: a)
  case Nil
  then show ?case by simp
next
  case (Cons x xs)
  then have "a < b" by (cases "a < b") simp_all
  then have x: "f x = a" "map f xs = [Suc a ..< b]" using Cons.prems by (simp_all add: upt_rec[of a b])
  note IH = Cons.IH[OF x(2)]
  show ?case
  proof (cases "c < a")
    case True
    then show ?thesis using IH x(1) by simp
  next
    case False
    then have "Suc c - a = Suc (Suc c - Suc a)" by simp
    then show ?thesis using IH x(1) False by (simp only: drop_Suc_Cons) simp
  qed
qed

lemma log_after:
  assumes "log_ok r" and "length (rCommands r) \<le> unat (rCmdSeq r)"
    and "unat lastSeq \<le> unat (rCmdSeq r)"
    and "unat (rCmdSeq r) \<le> unat lastSeq + length (rCommands r)"
  shows "filter (\<lambda>ev. evSeq ev > lastSeq) (rCommands r)
      = drop (length (rCommands r) - (unat (rCmdSeq r) - unat lastSeq)) (rCommands r)"
    and "map (\<lambda>ev. unat (evSeq ev)) (filter (\<lambda>ev. evSeq ev > lastSeq) (rCommands r))
      = [unat lastSeq + 1 ..< unat (rCmdSeq r) + 1]"
proof -
  let ?cs = "rCommands r" and ?n = "unat (rCmdSeq r)"
  have m: "map (\<lambda>ev. unat (evSeq ev)) ?cs = [?n - length ?cs + 1 ..< ?n + 1]"
    by (rule nth_equalityI) (use assms(2) log_seq[OF assms(1,2)] in \<open>simp_all del: upt_Suc\<close>)
  have k: "Suc (unat lastSeq) - (?n - length ?cs + 1) = length ?cs - (?n - unat lastSeq)"
    using assms(2-4) by linarith
  show f: "filter (\<lambda>ev. evSeq ev > lastSeq) ?cs = drop (length ?cs - (?n - unat lastSeq)) ?cs"
    using filter_drop[OF m, of "unat lastSeq"] unfolding k by (simp only: word_less_nat_alt)
  have "?n - length ?cs + 1 + (length ?cs - (?n - unat lastSeq)) = unat lastSeq + 1"
    using assms(2-4) by linarith
  then show "map (\<lambda>ev. unat (evSeq ev)) (filter (\<lambda>ev. evSeq ev > lastSeq) ?cs) = [unat lastSeq + 1 ..< ?n + 1]"
    unfolding f drop_map[symmetric] m drop_upt by (simp only:)
qed

lemma wf_SubmitInput [wf_intros]:
  assumes wf: "wf_manager m"
  shows "wf_manager (snd (SubmitInput now ms p cmd payload m))"
  using wf
proof (cases rule: mustGet_cases[of m p])
  case out
  then show ?thesis using wf by (simp add: SubmitInput_def)
next
  case (member k r)
  let ?ev = "\<lparr>evSeq = rCmdSeq r + 1, evFrame = currentFrameLocked m now (r\<lparr>rCmdSeq := rCmdSeq r + 1\<rparr>),
    evPlayerID = p, evCmd = cmd, evPayload = payload, evTS = ms\<rparr>"
  let ?r2 = "r\<lparr>rCmdSeq := rCmdSeq r + 1, rCommands := trim_commands (rCommands r @ [?ev])\<rparr>"
  have "log_ok ?r2" using member(6) by (intro log_ok_submit) (simp_all add: wf_room_def wf_core_def)
  then have "wf_room k ?r2" using member(6) by (auto simp: wf_room_def wf_core_def state_ok_def)
  moreover have "room_members ?r2 = room_members r" by (simp add: room_members_iff set_eq_iff)
  ultimately have "wf_manager (store_room k ?r2 m)" by (rule wf_store_room[OF wf member(2)])
  then show ?thesis using member wf by (simp add: SubmitInput_def Let_def)
qed

subsection \<open>The service\<close>

text \<open>A refused call changes nothing.\<close>

lemma refused_unchanged:
  "fst (CreateRoom now p name c m) = Inl err \<Longrightarrow> snd (CreateRoom now p name c m) = m"
  "fst (JoinRoom now p k m) = Inl err \<Longrightarrow> snd (JoinRoom now p k m) = m"
  "fst (StartGame now p m) = Inl err \<Longrightarrow> snd (StartGame now p m) = m"
  "fst (LeaveRoom now p m) = Inl err \<Longrightarrow> snd (LeaveRoom now p m) = m"
  "fst (SubmitInput now ms p cmd pl m) = Inl err' \<Longrightarrow> snd (SubmitInput now ms p cmd pl m) = m"
  by (auto simp: CreateRoom_def JoinRoom_def StartGame_def LeaveRoom_def SubmitInput_def Let_def
      split: sum.splits option.splits if_splits)

definition response_code :: "jval \<Rightarrow> jval" where
  "response_code v = jget (toMap v) ''code''"

lemma response_code_mapResp [simp]: "response_code (mapResp c msg b) = jint c"
  by (simp add: response_code_def mapResp_def)

lemma small_code_eq [simp]: "\<bar>a\<bar> \<le> 2 ^ 53 \<Longrightarrow> \<bar>b\<bar> \<le> 2 ^ 53 \<Longrightarrow> from_int a = from_int b \<longleftrightarrow> a = b"
  by (simp add: from_int_exact)

definition ids_before :: "int \<Rightarrow> manager \<Rightarrow> bool" where
  "ids_before t m \<longleftrightarrow> (\<forall>k r. mget (mgRooms m) k = Some r \<longrightarrow> (\<exists>i \<le> t. k = FormatInt i))"

text \<open>One step of the service on a well-formed manager; it stays well formed if the clock reads no room's identifier.\<close>

lemma room_answer_simps [simp]:
  "room_answer (Inl err, m) = (mapResp 300 (room_error_text err) [], m)"
  "room_answer (Inr r, m) = (mapResp 0 ''ok'' [(''room'', JObj (roomToMap r))], m)"
  by (simp_all add: room_answer_def)

text \<open>No operation but \<open>CreateRoom\<close> makes a room, and that under the time as its identifier.\<close>

definition rooms_from :: "int \<Rightarrow> manager \<Rightarrow> manager \<Rightarrow> bool" where
  "rooms_from now m m' \<longleftrightarrow>
     (\<forall>k. mget (mgRooms m') k \<noteq> None \<longrightarrow> mget (mgRooms m) k \<noteq> None \<or> k = FormatInt now)"

lemma rooms_from_refl [simp]: "rooms_from now m m"
  by (simp add: rooms_from_def)

lemma rooms_from_ops:
  assumes wf: "wf_manager m"
  shows "rooms_from now m (snd (CreateRoom now p name c m))"
    and "rooms_from now m (snd (JoinRoom now p k m))"
    and "rooms_from now m (snd (StartGame now p m))"
    and "rooms_from now m (snd (LeaveRoom now p m))"
    and "rooms_from now m (snd (SubmitInput now ms p cmd pl m))"
proof -
  show "rooms_from now m (snd (CreateRoom now p name c m))"
    by (simp add: rooms_from_def CreateRoom_def Let_def)
  show "rooms_from now m (snd (JoinRoom now p k m))"
    by (simp add: rooms_from_def JoinRoom_def Let_def store_room_def split: option.split)
  show "rooms_from now m (snd (StartGame now p m))"
    using wf by (cases rule: mustGet_cases[of m p])
      (simp_all add: rooms_from_def StartGame_def Let_def store_room_def)
  show "rooms_from now m (snd (LeaveRoom now p m))"
    using wf by (cases rule: mustGet_cases[of m p])
      (simp_all add: rooms_from_def LeaveRoom_def Let_def store_room_def)
  show "rooms_from now m (snd (SubmitInput now ms p cmd pl m))"
    using wf by (cases rule: mustGet_cases[of m p])
      (simp_all add: rooms_from_def SubmitInput_def Let_def store_room_def)
qed

definition good_step :: "int \<Rightarrow> manager \<Rightarrow> (jval \<times> manager) option \<Rightarrow> bool" where
  "good_step now m res \<longleftrightarrow>
     (\<exists>v m'. res = Some (v, m') \<and> rooms_from now m m'
        \<and> (mget (mgRooms m) (FormatInt now) = None \<longrightarrow> wf_manager m')
        \<and> response_code v \<in> {jint 0, jint 100, jint 300}
        \<and> (response_code v \<noteq> jint 0 \<longrightarrow> m' = m))"

lemma good_step_refused [simp]:
  "wf_manager m \<Longrightarrow> good_step now m (Some (mapResp 100 msg b, m))"
  "wf_manager m \<Longrightarrow> good_step now m (Some (mapResp 300 msg b, m))"
  "wf_manager m' \<Longrightarrow> rooms_from now m m' \<Longrightarrow> good_step now m (Some (mapResp 0 msg b, m'))"
  by (simp_all add: good_step_def)

lemma good_step_answer:
  assumes "mget (mgRooms m) (FormatInt now) = None \<Longrightarrow> wf_manager (snd res)"
    and "rooms_from now m (snd res)" and "\<And>err. fst res = Inl err \<Longrightarrow> snd res = m"
  shows "good_step now m (Some (room_answer res))"
  using assms by (cases res; cases "fst res") (auto simp: good_step_def)

lemma HandleGatewayMessage_good:
  assumes wf: "wf_manager m"
  shows "good_step now m (HandleGatewayMessage now ms s req m)"
proof (cases req)
  case None
  then show ?thesis using wf by (simp add: HandleGatewayMessage_def)
next
  case (Some rq)
  have create: "good_step now m (Some (room_answer (CreateRoom now p name c m)))" for p name c
    by (intro good_step_answer wf_CreateRoom wf rooms_from_ops refused_unchanged)
  have join: "good_step now m (Some (room_answer (JoinRoom now p k m)))" for p k
    by (intro good_step_answer wf_JoinRoom wf rooms_from_ops refused_unchanged)
  have start: "good_step now m (Some (room_answer (StartGame now p m)))" for p
    by (intro good_step_answer wf_StartGame wf rooms_from_ops refused_unchanged)
  have leave: "good_step now m (Some (room_answer (LeaveRoom now p m)))" for p
    by (intro good_step_answer wf_LeaveRoom wf rooms_from_ops refused_unchanged)
  have ready: "good_step now m (map_option room_answer (SetReady now p b m))" for p b
    using SetReady_cases[OF wf, of now p b] by (auto intro!: good_step_answer simp: rooms_from_def)
  have submit: "good_step now m (case SubmitInput now ms p cmd pl m of
      (Inl err, m') \<Rightarrow> Some (mapResp 300 (room_error_text err) [], m')
    | (Inr ev, m') \<Rightarrow> Some (mapResp 0 ''ok'' [(''event'', JObj (eventToMap ev))], m'))" for p cmd pl
    using wf_SubmitInput[OF wf, of now ms p cmd pl] refused_unchanged(5)[of now ms p cmd pl m] wf
      rooms_from_ops(5)[OF wf, of now ms p cmd pl]
    by (cases "SubmitInput now ms p cmd pl m"; cases "fst (SubmitInput now ms p cmd pl m)") auto
  show ?thesis
    unfolding HandleGatewayMessage_def Some option.case Let_def
    using wf create join start leave ready submit
    by (simp split: sum.split prod.split)
qed

text \<open>
  What the service can reach: it starts empty, serves one request after the other, each later
  on the clock than the one before, and Go may visit its maps in another order at any time.
\<close>

definition shuffled_room :: "room \<Rightarrow> room \<Rightarrow> bool" where
  "shuffled_room r r' \<longleftrightarrow> (\<exists>ps. mset (rPlayers r) = mset ps \<and> r' = r\<lparr>rPlayers := ps\<rparr>)"

inductive room_reachable :: "int \<Rightarrow> manager \<Rightarrow> bool" where
  start: "room_reachable t (NewManager tick)"
| request: "room_reachable t m \<Longrightarrow> t < now \<Longrightarrow> HandleGatewayMessage now ms s req m = Some (v, m') \<Longrightarrow>
     room_reachable now m'"
| shuffle_players: "room_reachable t m \<Longrightarrow> mget (mgRooms m) k = Some r \<Longrightarrow> shuffled_room r r' \<Longrightarrow>
     room_reachable t (store_room k r' m)"
| shuffle_rooms: "room_reachable t m \<Longrightarrow> mset (mgRooms m) = mset rooms \<Longrightarrow>
     room_reachable t (m\<lparr>mgRooms := rooms\<rparr>)"

lemma wf_shuffled:
  assumes sh: "shuffled_room r r'" and wf: "wf_room k r"
  shows "wf_room k r' \<and> room_members r' = room_members r"
proof -
  obtain ps where m: "mset (rPlayers r) = mset ps" and r': "r' = r\<lparr>rPlayers := ps\<rparr>"
    using sh by (auto simp: shuffled_room_def)
  have w: "wf_map (rPlayers r)" using wf by (simp add: wf_room_def wf_core_def)
  have get: "mget ps = mget (rPlayers r)" using mset_mget[OF m w] by simp
  have len: "length ps = length (rPlayers r)" using m by (metis size_mset)
  then have "ps = [] \<longleftrightarrow> rPlayers r = []" by auto
  moreover have "wf_map ps" using mset_wf_map[OF m] w by simp
  ultimately have "wf_core k r'" and "state_ok r'"
    using wf unfolding wf_room_def wf_core_def state_ok_def log_ok_def by (auto simp: r' get len)
  moreover have "room_members r' = room_members r" by (simp add: r' room_members_iff set_eq_iff get)
  ultimately show ?thesis by (simp add: wf_room_def)
qed

lemma room_reachable_wf: "room_reachable t m \<Longrightarrow> wf_manager m \<and> ids_before t m"
proof (induction rule: room_reachable.induct)
  case (start t tick)
  show ?case by (simp add: wf_manager_new) (simp add: NewManager_def ids_before_def)
next
  case (request t m now ms s req v m')
  then have "good_step now m (Some (v, m'))" using HandleGatewayMessage_good[of m now ms s req] by simp
  moreover have "mget (mgRooms m) (FormatInt now) = None"
    using request.IH request.hyps(2) by (fastforce simp: ids_before_def)
  ultimately have wf: "wf_manager m'" and ids: "rooms_from now m m'" by (auto simp: good_step_def)
  have "\<exists>i \<le> now. k = FormatInt i" if "mget (mgRooms m') k = Some r" for k r
  proof -
    have "mget (mgRooms m) k \<noteq> None \<or> k = FormatInt now" using ids that unfolding rooms_from_def by blast
    then show ?thesis using request.IH request.hyps(2) unfolding ids_before_def by fastforce
  qed
  then show ?case using wf by (auto simp: ids_before_def)
next
  case (shuffle_players t m k r r')
  then have "wf_room k r' \<and> room_members r' = room_members r"
    using wf_shuffled wf_manager_room by blast
  then show ?case using shuffle_players wf_store_room by (auto simp: ids_before_def store_room_def)
next
  case (shuffle_rooms t m rooms)
  have "wf_map (mgRooms m)" using shuffle_rooms.IH by (simp add: wf_manager_def)
  then have "mget rooms = mget (mgRooms m)" "wf_map rooms"
    using mset_mget[OF shuffle_rooms.hyps(2)] mset_wf_map[OF shuffle_rooms.hyps(2)] by auto
  then show ?case using shuffle_rooms.IH by (simp add: wf_manager_def ids_before_def)
qed

end
