(* ===== verification/RoomSpec.thy ===== *)
theory RoomSpec
  imports RoomProps
begin

text \<open>
  The properties of the room service (\<open>internal/room/service.go\<close>), each with a witness. The
  sample manager has one room, made by "ann" at time 1 and joined by "bob" at time 2.
\<close>

definition one_room :: manager where
  "one_room = snd (CreateRoom 1 ''ann'' ''duel'' 4 (NewManager 50))"

definition two_players :: manager where
  "two_players = snd (JoinRoom 2 ''bob'' ''1'' one_room)"

lemma FormatInt_1: "FormatInt 1 = ''1''"
  by code_simp

lemma wf_two_players: "wf_manager two_players"
  unfolding two_players_def one_room_def
  by (intro wf_JoinRoom wf_CreateRoom wf_manager_new) (simp add: NewManager_def)

lemma two_players_eq:
  "two_players =
     \<lparr>mgRooms = [(''1'', \<lparr>rID = ''1'', rName = ''duel'', rOwnerID = ''ann'', rState = StateReady,
        rMaxPlayers = 4,
        rPlayers = [(''ann'', \<lparr>rpPlayerID = ''ann'', rpReady = False\<rparr>), (''bob'', \<lparr>rpPlayerID = ''bob'', rpReady = False\<rparr>)],
        rCmdSeq = 0, rCommands = [], rPlayingSince = None\<rparr>)],
      mgPlayerRoom = [(''ann'', ''1''), (''bob'', ''1'')], mgFrameTick = 50\<rparr>"
  by (simp add: two_players_def one_room_def CreateRoom_def JoinRoom_def NewManager_def FormatInt_1
      mhas_def Let_def store_room_def updateRoomStateLocked_def)

lemma one_room_reachable: "room_reachable 1 one_room"
proof -
  define req where "req = [(''player_id'', JStr ''ann''), (''msg_id'', jint 1001),
    (''body'', JObj [(''name'', JStr ''duel''), (''capacity'', jint 4)])]"
  have msg: "toUint16 (jint 1001) = 1001" using toUint16_nat[of 1001] by simp
  have cap: "to_int (toFloat64 (jint 4)) = 4" by (simp add: from_int_exact trunc_rat_def)
  have "HandleGatewayMessage 1 0 0 (Some req) (NewManager 50)
      = Some (room_answer (CreateRoom 1 ''ann'' ''duel'' 4 (NewManager 50)))"
    unfolding HandleGatewayMessage_def req_def
    by (simp add: Let_def msg cap room_msgs del: toFloat64.simps to_int.simps)
  then have h: "HandleGatewayMessage 1 0 0 (Some req) (NewManager 50)
      = Some (fst (room_answer (CreateRoom 1 ''ann'' ''duel'' 4 (NewManager 50))), one_room)"
    by (simp add: one_room_def CreateRoom_def NewManager_def mhas_def Let_def)
  show ?thesis by (rule request[OF start[of 0] _ h]) simp
qed

text \<open>
  C12: in every state the service can reach, with a clock that moves on between two requests,
  the manager is well formed: the index of the players knows exactly the members of the
  rooms, so nobody is in two rooms; no room is empty or over its capacity; its owner is a
  member; Idle means one player, Ready that someone is not ready; a room that plays knows
  since when; and the log keeps the last commands under consecutive numbers.
\<close>

theorem room_reachable_invariant:
  assumes "room_reachable t m"
  shows "wf_manager m
    \<and> (\<forall>k k' r r'. mget (mgRooms m) k = Some r \<and> mget (mgRooms m) k' = Some r' \<and> k \<noteq> k'
         \<longrightarrow> room_members r \<inter> room_members r' = {})"
  using room_reachable_wf[OF assms] rooms.members_disjoint[of m] by blast

theorem room_reachable_invariant_witness: "wf_manager one_room"
  using room_reachable_invariant[OF one_room_reachable] by blast

text \<open>
  C13: on a well-formed manager (by C12 every state reached with a clock that moves on) the
  service answers every request with code 0, 100 or 300 and without a panic, and a request
  answered with another code than 0 has changed nothing. The manager stays well formed, so
  that the next request is answered as well, on the condition that the time of the request is
  not the identifier of a room in use; \<open>CreateRoom_collision\<close> below is the run that
  breaks the condition, and ends in a panic.
\<close>

theorem room_service_total:
  assumes "wf_manager m"
  shows "\<exists>v m'. HandleGatewayMessage now ms s req m = Some (v, m')
    \<and> response_code v \<in> {jint 0, jint 100, jint 300}
    \<and> (response_code v \<noteq> jint 0 \<longrightarrow> m' = m)
    \<and> (mget (mgRooms m) (FormatInt now) = None \<longrightarrow> wf_manager m')"
  using HandleGatewayMessage_good[OF assms, of now ms s req] by (auto simp: good_step_def)

theorem room_service_total_witness:
  "\<exists>v m'. HandleGatewayMessage 2 0 0 (Some [(''player_id'', JStr ''bob''), (''msg_id'', jint 1003)]) two_players
     = Some (v, m')"
  using room_service_total[OF wf_two_players, of 2 0 0
    "Some [(''player_id'', JStr ''bob''), (''msg_id'', jint 1003)]"] by blast

text \<open>
  The identifier of a room is the time it is made, and nothing checks that it is free.
  Two rooms made at the same reading of the clock are one: the second replaces the first,
  whose player is then a member of no room but still in the index, and reporting ready
  makes the service panic.
\<close>

theorem CreateRoom_collision:
  "case CreateRoom now ''ann'' ''first'' 2 (NewManager tick) of
     (res1, m1) \<Rightarrow>
       (case CreateRoom now ''bob'' ''second'' 2 m1 of
          (res2, m2) \<Rightarrow>
            (\<exists>r1 r2. res1 = Inr r1 \<and> res2 = Inr r2 \<and> rID r1 = rID r2)
            \<and> mget (mgPlayerRoom m2) ''ann'' = Some (FormatInt now)
            \<and> length (mgRooms m2) = 1
            \<and> SetReady now' ''ann'' True m2 = None)"
  by (simp add: CreateRoom_def NewManager_def mhas_def Let_def SetReady_def
      mustGetPlayerRoomLocked_def cloneRoom_def)

text \<open>
  C14: \<open>JoinRoom\<close> lets a player in exactly when the player is in no room, the room exists, is
  Idle or Ready, and has a free place. The player is then in the room, not ready, and the room
  is Ready; its name, owner, capacity, log, sequence number and starting time, every other
  room and every other player are untouched; the answer is the room as it is now. A refused
  join changes nothing.
\<close>

theorem JoinRoom_functional:
  assumes "wf_manager m"
  shows "((\<exists>r. fst (JoinRoom now p k m) = Inr r) \<longleftrightarrow>
       mget (mgPlayerRoom m) p = None \<and>
       (\<exists>r. mget (mgRooms m) k = Some r \<and> rState r \<in> {StateIdle, StateReady}
          \<and> int (length (rPlayers r)) < rMaxPlayers r))
    \<and> (\<forall>err. fst (JoinRoom now p k m) = Inl err \<longrightarrow> snd (JoinRoom now p k m) = m)
    \<and> (\<forall>res. fst (JoinRoom now p k m) = Inr res \<longrightarrow>
         (\<exists>r. mget (mgRooms m) k = Some r
            \<and> res = r\<lparr>rPlayers := rPlayers res, rState := StateReady\<rparr>
            \<and> mget (rPlayers res) = (mget (rPlayers r))(p \<mapsto> \<lparr>rpPlayerID = p, rpReady = False\<rparr>))
         \<and> mget (mgRooms (snd (JoinRoom now p k m))) = (mget (mgRooms m))(k \<mapsto> res)
         \<and> mget (mgPlayerRoom (snd (JoinRoom now p k m))) = (mget (mgPlayerRoom m))(p \<mapsto> k)
         \<and> mgFrameTick (snd (JoinRoom now p k m)) = mgFrameTick m)"
proof (cases "mget (mgPlayerRoom m) p = None \<and> (\<exists>r. mget (mgRooms m) k = Some r
    \<and> rState r \<in> {StateIdle, StateReady} \<and> int (length (rPlayers r)) < rMaxPlayers r)")
  case False
  then have "\<not> (\<exists>r. fst (JoinRoom now p k m) = Inr r)"
    using wf_manager_room[OF assms, of k]
    by (auto simp: JoinRoom_def mhas_def Let_def wf_room_def wf_core_def split: option.splits)
  then show ?thesis using False refused_unchanged(2)[of now p k m] by auto
next
  case True
  then obtain r where r: "mget (mgRooms m) k = Some r" "rState r \<in> {StateIdle, StateReady}"
    "int (length (rPlayers r)) < rMaxPlayers r" and out: "mget (mgPlayerRoom m) p = None" by blast
  have "mget (rPlayers r) p = None"
    using rooms.index_total[OF assms, of p] out r(1) room_members_iff by blast
  moreover have "rPlayers r \<noteq> []" using wf_manager_room[OF assms r(1)] by (simp add: wf_room_def wf_core_def)
  ultimately have s: "updateRoomStateLocked now
      (r\<lparr>rPlayers := mput p \<lparr>rpPlayerID = p, rpReady = False\<rparr> (rPlayers r)\<rparr>)
      = r\<lparr>rPlayers := mput p \<lparr>rpPlayerID = p, rpReady = False\<rparr> (rPlayers r), rState := StateReady\<rparr>"
    using not_ready_added[of p "\<lparr>rpPlayerID = p, rpReady = False\<rparr>" "rPlayers r"]
    by (auto simp: updateRoomStateLocked_def length_mput)
  show ?thesis using r out by (auto simp: JoinRoom_def mhas_def Let_def store_room_def s fun_eq_iff)
qed

theorem JoinRoom_functional_witness:
  "\<exists>r. fst (JoinRoom 3 ''cat'' ''1'' two_players) = Inr r"
  using JoinRoom_functional[OF wf_two_players, of 3 "''cat''" "''1''"] by (simp add: two_players_eq)

text \<open>
  C15: \<open>LeaveRoom\<close> of a member takes the player out of the index and out of the room, and
  nobody else. The last one out closes the room and it disappears; otherwise the room stays
  with the others and their ready flags, owned by the same player or, if that one left, by
  one of the others. Every other room is untouched.
\<close>

theorem LeaveRoom_functional:
  assumes "wf_manager m" and "mget (mgPlayerRoom m) p = Some k" and "mget (mgRooms m) k = Some r"
  shows "\<exists>res m'. LeaveRoom now p m = (Inr res, m')
    \<and> mget (mgPlayerRoom m') = (mget (mgPlayerRoom m))(p := None)
    \<and> (\<forall>k'. k' \<noteq> k \<longrightarrow> mget (mgRooms m') k' = mget (mgRooms m) k')
    \<and> (if room_members r = {p} then rState res = StateClosed \<and> mget (mgRooms m') k = None
       else (\<exists>r'. mget (mgRooms m') k = Some r'
          \<and> mget (rPlayers r') = (mget (rPlayers r))(p := None)
          \<and> rOwnerID r' \<in> room_members r'
          \<and> (rOwnerID r \<noteq> p \<longrightarrow> rOwnerID r' = rOwnerID r)))"
  using assms(1)
proof (cases rule: mustGet_cases[of m p])
  case out
  then show ?thesis using assms(2) by simp
next
  case (member k' r')
  then have kr: "k' = k" "r' = r" using assms(2,3) by auto
  note core = wf_room_core[OF member(6)[unfolded kr]]
  have id: "rID r = k" using core by (simp add: wf_core_def)
  have mem: "p \<in> room_members r" using member(5) kr by simp
  note leave = LeaveRoom_member[OF member(3,4), unfolded kr, of now]
  have last: "room_members r = {p} \<longleftrightarrow> mdel p (rPlayers r) = []"
    using mem by (auto simp: room_members_def mdel_Nil_iff)
  show ?thesis
  proof (cases "mdel p (rPlayers r) = []")
    case True
    then show ?thesis unfolding leave last by (simp add: id cloneRoom_def fun_eq_iff)
  next
    case False
    let ?r = "updateRoomStateLocked now (after_leaving p r)"
    have "rOwnerID ?r \<in> room_members ?r"
      using after_leaving_owner[OF core False] by (simp add: room_members_iff)
    moreover have "rOwnerID r \<noteq> p \<longrightarrow> rOwnerID ?r = rOwnerID r"
      by (simp add: after_leaving_def Let_def)
    ultimately show ?thesis
      using False unfolding leave last by (simp add: store_room_def fun_eq_iff)
  qed
qed

theorem LeaveRoom_functional_witness:
  "\<exists>res m'. LeaveRoom 3 ''ann'' two_players = (Inr res, m') \<and> mget (mgPlayerRoom m') ''ann'' = None"
  using LeaveRoom_functional[OF wf_two_players, of "''ann''" "''1''" _ 3] by (auto simp: two_players_eq)

text \<open>The two operations that start a game, on the room of a member.\<close>

definition with_ready :: "string \<Rightarrow> bool \<Rightarrow> room \<Rightarrow> room" where
  "with_ready p b r = r\<lparr>rPlayers := mput p \<lparr>rpPlayerID = p, rpReady = b\<rparr> (rPlayers r)\<rparr>"

definition playing_room :: "int \<Rightarrow> room \<Rightarrow> room" where
  "playing_room now r =
     r\<lparr>rState := StatePlaying, rPlayingSince := Some (case rPlayingSince r of None \<Rightarrow> now | Some t \<Rightarrow> t)\<rparr>"

lemma start_operations:
  assumes "wf_manager m" and "mget (mgPlayerRoom m) p = Some k" and "mget (mgRooms m) k = Some r"
  shows "SetReady now p b m = Some (Inr (cloneRoom (updateRoomStateLocked now (with_ready p b r))),
           store_room k (updateRoomStateLocked now (with_ready p b r)) m)"
    and "StartGame now p m = (if rOwnerID r \<noteq> p then (Inl OnlyOwnerCanStart, m)
      else if length (rPlayers r) < 2 then (Inl NeedTwoPlayers, m)
      else (Inr (cloneRoom (playing_room now r)), store_room k (playing_room now r) m))"
    and "wf_core k r" and "mget (rPlayers r) p \<noteq> None"
proof -
  have "\<exists>v. mustGetPlayerRoomLocked m p = Inr r \<and> player_room_key m p = k \<and> wf_core k r \<and> mget (rPlayers r) p = Some v"
    using assms(1)
  proof (cases rule: mustGet_cases[of m p])
    case (member k' r')
    then show ?thesis using assms(2,3) wf_room_core by (auto simp: room_members_iff)
  qed (use assms(2) in simp)
  then obtain v where m: "mustGetPlayerRoomLocked m p = Inr r" "player_room_key m p = k" "wf_core k r" "mget (rPlayers r) p = Some v"
    by blast
  have "rpPlayerID v = p" using m(3,4) by (simp add: wf_core_def)
  then have "v\<lparr>rpReady := b\<rparr> = \<lparr>rpPlayerID = p, rpReady = b\<rparr>" by simp
  then show "SetReady now p b m = Some (Inr (cloneRoom (updateRoomStateLocked now (with_ready p b r))),
           store_room k (updateRoomStateLocked now (with_ready p b r)) m)"
    using m by (simp add: SetReady_def with_ready_def Let_def)
  show "StartGame now p m = (if rOwnerID r \<noteq> p then (Inl OnlyOwnerCanStart, m)
      else if length (rPlayers r) < 2 then (Inl NeedTwoPlayers, m)
      else (Inr (cloneRoom (playing_room now r)), store_room k (playing_room now r) m))"
    using m by (cases "rPlayingSince r") (simp_all add: StartGame_def playing_room_def Let_def)
  show "wf_core k r" "mget (rPlayers r) p \<noteq> None" using m by simp_all
qed

lemma ready_state:
  assumes "wf_core k r" and "mget (rPlayers r) p \<noteq> None"
  shows "rState (updateRoomStateLocked now (with_ready p b r)) = (if length (rPlayers r) = 1 then StateIdle
      else if \<forall>q u. mget (rPlayers (with_ready p b r)) q = Some u \<longrightarrow> rpReady u then StatePlaying else StateReady)"
proof -
  let ?ps = "rPlayers (with_ready p b r)"
  have "wf_map ?ps" using assms(1) by (simp add: with_ready_def wf_core_def)
  note ready = all_ready_iff[OF this]
  have "length ?ps = length (rPlayers r)" "rState (with_ready p b r) = rState r"
    using assms(2) by (auto simp: with_ready_def length_mput)
  then show ?thesis using assms(1) unfolding updateRoomStateLocked_def by (auto simp: ready wf_core_def)
qed

text \<open>
  C16: how a game starts. \<open>SetReady\<close> of a member sets exactly that player's flag; then the room
  is Idle with one player, plays when all are ready, and is Ready otherwise, also when it was
  playing. \<open>StartGame\<close> succeeds exactly for the owner of a room with two players or more and
  makes it play whether or not they are ready. The time of the first start is kept.
\<close>

theorem game_start_functional:
  assumes "wf_manager m" and "mget (mgPlayerRoom m) p = Some k" and "mget (mgRooms m) k = Some r"
  shows "(\<exists>res m' r'. SetReady now p b m = Some (Inr res, m') \<and> mget (mgRooms m') k = Some r'
      \<and> mgPlayerRoom m' = mgPlayerRoom m
      \<and> mget (rPlayers r') = (mget (rPlayers r))(p \<mapsto> \<lparr>rpPlayerID = p, rpReady = b\<rparr>)
      \<and> rState r' = (if length (rPlayers r) = 1 then StateIdle
           else if \<forall>q v. mget (rPlayers r') q = Some v \<longrightarrow> rpReady v then StatePlaying else StateReady)
      \<and> (rPlayingSince r \<noteq> None \<longrightarrow> rPlayingSince r' = rPlayingSince r))
    \<and> (case StartGame now p m of
         (Inl err, m') \<Rightarrow> m' = m \<and> err = (if rOwnerID r \<noteq> p then OnlyOwnerCanStart else NeedTwoPlayers)
           \<and> (rOwnerID r \<noteq> p \<or> length (rPlayers r) < 2)
       | (Inr res, m') \<Rightarrow> rOwnerID r = p \<and> 2 \<le> length (rPlayers r)
           \<and> mget (mgRooms m') k = Some (r\<lparr>rState := StatePlaying,
               rPlayingSince := Some (case rPlayingSince r of None \<Rightarrow> now | Some t \<Rightarrow> t)\<rparr>))"
proof -
  note ops = start_operations[OF assms]
  let ?r = "updateRoomStateLocked now (with_ready p b r)"
  have "mget (rPlayers ?r) = (mget (rPlayers r))(p \<mapsto> \<lparr>rpPlayerID = p, rpReady = b\<rparr>)" "rPlayers ?r = rPlayers (with_ready p b r)"
    "rPlayingSince r \<noteq> None \<longrightarrow> rPlayingSince ?r = rPlayingSince r"
    by (auto simp: with_ready_def updateRoomStateLocked_def fun_eq_iff)
  then show ?thesis
    using ready_state[OF ops(3,4), of now b] unfolding ops(1,2) by (simp add: store_room_def playing_room_def)
qed

theorem game_start_functional_witness:
  "\<exists>res m'. SetReady 3 ''ann'' True two_players = Some (Inr res, m')"
  using game_start_functional[OF wf_two_players, of "''ann''" "''1''" _ 3 True]
  by (auto simp: two_players_eq)

text \<open>
  C17: inputs are delivered in order, unchanged and without loss. A submitted input gets the
  next sequence number and is appended, with the player, the command, its data, the frame and
  the time, to the log of the room, which keeps the last 2048 and in which nothing else
  changes; any member who then asks for what is new gets exactly this input. A player who has
  seen everything up to \<open>lastSeq\<close>, with no more than the kept commands since then, pulls
  exactly the end of the log as it is stored: one command for every number from
  \<open>lastSeq + 1\<close> to the newest, in this order. All this holds as long as the numbers have not
  wrapped around.
\<close>

theorem inputs_delivered:
  assumes "wf_manager m" and "mget (mgPlayerRoom m) p = Some k" and "mget (mgRooms m) k = Some r"
    and "length (rCommands r) \<le> unat (rCmdSeq r)"
    and "unat lastSeq \<le> unat (rCmdSeq r)"
    and "unat (rCmdSeq r) \<le> unat lastSeq + length (rCommands r)"
  shows "(\<exists>evs frame res. PullInputs now p lastSeq m = Inr (evs, frame, res)
      \<and> evs = drop (length (rCommands r) - (unat (rCmdSeq r) - unat lastSeq)) (rCommands r)
      \<and> map (\<lambda>ev. unat (evSeq ev)) evs = [unat lastSeq + 1 ..< unat (rCmdSeq r) + 1])
    \<and> (rState r = StatePlaying \<and> cmd \<noteq> '''' \<longrightarrow>
        (\<exists>ev m'. SubmitInput now ms p cmd pl m = (Inr ev, m')
           \<and> ev = \<lparr>evSeq = rCmdSeq r + 1, evFrame = currentFrameLocked m now r, evPlayerID = p,
                evCmd = cmd, evPayload = pl, evTS = ms\<rparr>
           \<and> mget (mgRooms m') = (mget (mgRooms m))(k \<mapsto> r\<lparr>rCmdSeq := rCmdSeq r + 1,
                rCommands := (if length (rCommands r) < 2048 then rCommands r else tl (rCommands r)) @ [ev]\<rparr>)
           \<and> (\<forall>q now'. mget (mgPlayerRoom m) q = Some k \<and> rCmdSeq r < - 1 \<longrightarrow>
                (\<exists>frame res. PullInputs now' q (rCmdSeq r) m' = Inr ([ev], frame, res)))))"
  using assms(1)
proof (cases rule: mustGet_cases[of m p])
  case out
  then show ?thesis using assms(2) by simp
next
  case (member k' r')
  then have kr: "k' = k" "r' = r" using assms(2,3) by auto
  have log: "log_ok r" using member(6) kr by (simp add: wf_room_def wf_core_def)
  then have len: "length (rCommands r) \<le> 2048" by (simp add: log_ok_def)
  have "PullInputs now p lastSeq m
      = Inr (filter (\<lambda>ev. evSeq ev > lastSeq) (rCommands r), currentFrameLocked m now r, cloneRoom r)"
    using member(3) by (simp add: PullInputs_def kr)
  then have pull: "\<exists>evs frame res. PullInputs now p lastSeq m = Inr (evs, frame, res)
      \<and> evs = drop (length (rCommands r) - (unat (rCmdSeq r) - unat lastSeq)) (rCommands r)
      \<and> map (\<lambda>ev. unat (evSeq ev)) evs = [unat lastSeq + 1 ..< unat (rCmdSeq r) + 1]"
    using log_after[OF log assms(4-6)] by auto
  let ?ev = "\<lparr>evSeq = rCmdSeq r + 1, evFrame = currentFrameLocked m now r, evPlayerID = p,
    evCmd = cmd, evPayload = pl, evTS = ms\<rparr>"
  let ?cs = "if length (rCommands r) < 2048 then rCommands r else tl (rCommands r)"
  let ?r = "r\<lparr>rCmdSeq := rCmdSeq r + 1, rCommands := ?cs @ [?ev]\<rparr>"
  have trim: "trim_commands (rCommands r @ [?ev]) = ?cs @ [?ev]"
    using len by (cases "length (rCommands r) = 2048") (auto simp: trim_commands_def drop_Suc)
  have frame: "currentFrameLocked m now (r\<lparr>rCmdSeq := rCmdSeq r + 1\<rparr>) = currentFrameLocked m now r"
    by (simp add: currentFrameLocked_def split: option.split)
  have submit: "SubmitInput now ms p cmd pl m = (Inr ?ev, store_room k ?r m)"
    if "rState r = StatePlaying" "cmd \<noteq> ''''"
    using that member(3,4) trim by (simp add: SubmitInput_def kr Let_def frame)
  have old: "filter (\<lambda>ev. evSeq ev > rCmdSeq r) ?cs = []"
  proof -
    have "filter (\<lambda>ev. evSeq ev > rCmdSeq r) (rCommands r) = []"
      using log_after(1)[OF log assms(4), of "rCmdSeq r"] by simp
    then have "\<forall>ev \<in> set (rCommands r). \<not> evSeq ev > rCmdSeq r" by (simp only: filter_empty_conv)
    moreover have "set ?cs \<subseteq> set (rCommands r)" by (cases "rCommands r") auto
    ultimately show ?thesis by (simp only: filter_empty_conv) blast
  qed
  have next_pull: "\<exists>frame res. PullInputs now' q (rCmdSeq r) (store_room k ?r m) = Inr ([?ev], frame, res)"
    if "mget (mgPlayerRoom m) q = Some k" "rCmdSeq r < - 1" for q now'
  proof -
    have "mustGetPlayerRoomLocked (store_room k ?r m) q = Inr ?r"
      using that(1) by (simp add: mustGetPlayerRoomLocked_def store_room_def)
    moreover have "rCmdSeq r < rCmdSeq r + 1"
      using that(2) by unat_arith
    ultimately show ?thesis using old by (simp add: PullInputs_def)
  qed
  show ?thesis using pull submit next_pull by (auto simp: store_room_def fun_eq_iff)
qed

definition played :: manager where
  "played = snd (SubmitInput 4 5 ''bob'' ''fire'' [] (snd (StartGame 3 ''ann'' two_players)))"

lemma played_room:
  "wf_manager played \<and> mget (mgPlayerRoom played) ''bob'' = Some ''1''
   \<and> (\<exists>r. mget (mgRooms played) ''1'' = Some r \<and> rCmdSeq r = 1 \<and> length (rCommands r) = 1)"
  unfolding played_def
  by (intro conjI wf_SubmitInput wf_StartGame wf_two_players)
    (simp_all add: SubmitInput_def StartGame_def two_players_eq mustGetPlayerRoomLocked_def
      player_room_key_def store_room_def Let_def trim_commands_def)

theorem inputs_delivered_witness:
  "\<exists>evs frame res. PullInputs 6 ''ann'' 0 played = Inr (evs, frame, res) \<and> map (\<lambda>ev. unat (evSeq ev)) evs = [1]"
proof -
  obtain r where r: "mget (mgRooms played) ''1'' = Some r" "rCmdSeq r = 1" "length (rCommands r) = 1"
    using played_room by blast
  have a: "mget (mgPlayerRoom played) ''ann'' = Some ''1''"
    by (simp add: played_def SubmitInput_def StartGame_def two_players_eq mustGetPlayerRoomLocked_def
      player_room_key_def store_room_def Let_def)
  from r have "length (rCommands r) \<le> unat (rCmdSeq r)" "unat (0 :: 64 word) \<le> unat (rCmdSeq r)"
    "unat (rCmdSeq r) \<le> unat (0 :: 64 word) + length (rCommands r)" by simp_all
  from conjunct1[OF inputs_delivered[OF conjunct1[OF played_room] a r(1) this, of 6]]
  show ?thesis using r by auto
qed

end
