(* ===== verification/GameSvc.thy ===== *)
theory GameSvc
  imports EngineProps RoomProps
begin

text \<open>
  The game service: \<open>internal/gamesvc/server.go\<close>. A connection is an identifier; closing one
  adds it to \<open>gsClosed\<close>. The token service is a pair of functions (\<open>verify\<close>, \<open>refresh\<close>), the
  clock, the random draws and the random bytes of a ticket are arguments. An operation that
  reads through a nil pointer is \<open>None\<close>.
\<close>

record session =
  ssRoomID :: string
  ssPlayers :: "(string, unit) gomap"
  ssTickets :: "(string, string) gomap"
  ssStates :: "(string, player_state) gomap"
  ssWinnerID :: string
  ssLastHeartbeat :: "(string, int) gomap"
  ssFinalized :: bool

type_synonym conn_id = nat

record game_server =
  gsHeartbeatTimeout :: int
  gsPublicWSAddr :: string
  gsSessions :: "(string, session) gomap"
  gsWSConns :: "(string, (string, conn_id) gomap) gomap"
  gsRoomMgr :: manager
  gsRoomWS :: "(string, conn_id) gomap"
  gsRoomLastHB :: "(string, int) gomap"
  gsRoomOfPlayer :: "(string, string) gomap"
  gsRoomMonitor :: "(string, bool) gomap"
  gsClosed :: "conn_id list"

definition new_game_server :: "int \<Rightarrow> string \<Rightarrow> int \<Rightarrow> game_server" where
  "new_game_server heartbeatTimeout publicAddr frameTick =
     \<lparr>gsHeartbeatTimeout = (if heartbeatTimeout \<le> 0 then 5 * 1000000000 else heartbeatTimeout),
      gsPublicWSAddr = publicAddr, gsSessions = [], gsWSConns = [],
      gsRoomMgr = NewManager frameTick, gsRoomWS = [], gsRoomLastHB = [], gsRoomOfPlayer = [],
      gsRoomMonitor = [], gsClosed = []\<rparr>"

subsection \<open>The outcome of a session\<close>

definition finalizeRoomAfterWinLocked :: "int \<Rightarrow> string \<Rightarrow> session \<times> manager \<Rightarrow> session \<times> manager" where
  "finalizeRoomAfterWinLocked now winnerID sm =
     (case sm of (sess, mgr) \<Rightarrow>
        if winnerID = '''' \<or> ssFinalized sess then (sess, mgr)
        else (sess\<lparr>ssFinalized := True\<rparr>,
              foldl (\<lambda>m pid. if pid = winnerID then m else snd (LeaveRoom now pid m)) mgr
                (map fst (ssStates sess))))"

definition alive_players :: "session \<Rightarrow> string list" where
  "alive_players sess = map fst (filter (\<lambda>(pid, st). Status st \<noteq> StLose) (ssStates sess))"

definition resolveOutcomeLocked :: "int \<Rightarrow> session \<times> manager \<Rightarrow> session \<times> manager" where
  "resolveOutcomeLocked now sm =
     (case sm of (sess, mgr) \<Rightarrow>
        let alive = alive_players sess
        in if length (ssStates sess) \<ge> 2 \<and> length alive = 1
           then finalizeRoomAfterWinLocked now (hd alive) (sess\<lparr>ssWinnerID := hd alive\<rparr>, mgr)
           else (sess, mgr))"

definition timeout_ms :: "game_server \<Rightarrow> int" where
  "timeout_ms s =
     (let t = gsHeartbeatTimeout s sdiv 1000000 in if t \<le> 0 then 5000 else t)"

definition expire_player ::
  "int \<Rightarrow> int \<Rightarrow> (string, player_state) gomap \<Rightarrow> string \<times> int \<Rightarrow> (string, player_state) gomap" where
  "expire_player timeoutMs nowMillis states h =
     (case h of (pid, hb) \<Rightarrow>
        if hb \<le> 0 then states
        else if nowMillis - hb \<le> timeoutMs then states
        else (case mget states pid of
            None \<Rightarrow> states
          | Some st \<Rightarrow> if Status st \<noteq> StLose then mput pid (st\<lparr>Status := StLose\<rparr>) states else states))"

definition applyHeartbeatTimeoutsLocked ::
  "int \<Rightarrow> int \<Rightarrow> int \<Rightarrow> session \<times> manager \<Rightarrow> session \<times> manager" where
  "applyHeartbeatTimeoutsLocked timeoutMs nowMillis now sm =
     (case sm of (sess, mgr) \<Rightarrow>
        if ssWinnerID sess \<noteq> '''' then (sess, mgr)
        else if length (ssLastHeartbeat sess) = 0 then (sess, mgr)
        else
          resolveOutcomeLocked now
            (sess\<lparr>ssStates := foldl (expire_player timeoutMs nowMillis) (ssStates sess) (ssLastHeartbeat sess)\<rparr>, mgr))"

subsection \<open>Sessions\<close>

text \<open>\<open>put_session\<close>: the session of the map is a pointer; an operation changes it in place.\<close>

definition put_session :: "string \<Rightarrow> session \<times> manager \<Rightarrow> game_server \<Rightarrow> game_server" where
  "put_session roomID sm s =
     s\<lparr>gsSessions := mput roomID (fst sm) (gsSessions s), gsRoomMgr := snd sm\<rparr>"

definition randomTicket :: "8 word list \<Rightarrow> string" where
  "randomTicket bs = hex_encode bs"

datatype create_error = NilReq | MissingRoomID | MissingPlayers | EmptyPlayers

fun create_error_text :: "create_error \<Rightarrow> string" where
  "create_error_text NilReq = ''nil req''"
| "create_error_text MissingRoomID = ''missing room_id''"
| "create_error_text MissingPlayers = ''missing players''"
| "create_error_text EmptyPlayers = ''empty players''"

text \<open>
  The draws for one player of a new session: the two colours, the board, and the 16 bytes of
  the ticket.
\<close>

record player_draws =
  dCurrent :: int
  dNext :: int
  dCoin :: "int \<Rightarrow> int \<Rightarrow> float64"
  dPick :: "int \<Rightarrow> int \<Rightarrow> int"
  dTicket :: "8 word list"

definition add_player ::
  "int \<Rightarrow> (nat \<Rightarrow> player_draws) \<Rightarrow> session \<times> (string, string) gomap \<Rightarrow> nat \<times> string \<Rightarrow> session \<times> (string, string) gomap" where
  "add_player nowMS draws acc ip =
     (case acc of (sess, tickets) \<Rightarrow> case ip of (i, p) \<Rightarrow>
        let d = draws i; tk = randomTicket (dTicket d)
        in (sess\<lparr>ssPlayers := mput p () (ssPlayers sess),
                ssStates := mput p (NewInitialState nowMS (dCurrent d) (dNext d) (dCoin d) (dPick d)) (ssStates sess),
                ssLastHeartbeat := mput p nowMS (ssLastHeartbeat sess),
                ssTickets := mput p tk (ssTickets sess)\<rparr>,
            mput p tk tickets))"

definition new_session ::
  "int \<Rightarrow> (nat \<Rightarrow> player_draws) \<Rightarrow> string \<Rightarrow> string list \<Rightarrow> session \<times> (string, string) gomap" where
  "new_session nowMS draws roomID players =
     foldl (add_player nowMS draws)
       (\<lparr>ssRoomID = roomID, ssPlayers = [], ssTickets = [], ssStates = [], ssWinnerID = '''',
         ssLastHeartbeat = [], ssFinalized = False\<rparr>, [])
       (enumerate 0 players)"

definition CreateSession ::
  "int \<Rightarrow> (nat \<Rightarrow> player_draws) \<Rightarrow> jobj option \<Rightarrow> game_server \<Rightarrow> (create_error + jval) \<times> game_server" where
  "CreateSession nowMS draws req s =
     (case req of
        None \<Rightarrow> (Inl NilReq, s)
      | Some m \<Rightarrow>
        (let roomID = as_string (jget m ''room_id'')
         in if roomID = '''' then (Inl MissingRoomID, s)
            else
              (let rawPlayers = as_arr (jget m ''players'')
               in if length rawPlayers = 0 then (Inl MissingPlayers, s)
                  else
                    (let players = filter (\<lambda>p. p \<noteq> '''') (map as_string rawPlayers)
                     in if length players = 0 then (Inl EmptyPlayers, s)
                        else (case new_session nowMS draws roomID players of (sess, tickets) \<Rightarrow>
                            (Inr (JObj [(''room_id'', JStr roomID), (''game_addr'', JStr (gsPublicWSAddr s)),
                                        (''tickets'', JObj (map (\<lambda>(p, t). (p, JStr t)) tickets))]),
                             s\<lparr>gsSessions := mput roomID sess (gsSessions s)\<rparr>))))))"

text \<open>
  \<open>buildState\<close>: the inner option says whether there is a session; the outer one is a panic,
  when the player has no state in it (\<open>CloneState(nil)\<close>).
\<close>

definition tick_states :: "int \<Rightarrow> (string \<Rightarrow> int) \<Rightarrow> (string, player_state) gomap \<Rightarrow> (string, player_state) gomap" where
  "tick_states nowMS draw states =
     mmap_vals (\<lambda>pid st. the (TickState (Some st) nowMS (draw pid))) states"

definition state_payload :: "string \<Rightarrow> string \<Rightarrow> session \<Rightarrow> jval \<Rightarrow> jval" where
  "state_payload roomID playerID sess self =
     (let others = map (\<lambda>(pid, st). JObj [(''player_id'', JStr pid),
                          (''state'', the (CloneState (Some st)))])
                   (filter (\<lambda>(pid, st). pid \<noteq> playerID) (ssStates sess));
          roomState = (if ssWinnerID sess \<noteq> '''' then ''waiting'' else ''playing'')
      in JObj [(''type'', JStr ''state''),
               (''room'', JObj [(''room_id'', JStr roomID), (''state'', JStr roomState),
                               (''winner_id'', JStr (ssWinnerID sess))]),
               (''self'', self), (''others'', JArr others)])"

definition buildState ::
  "int \<Rightarrow> int \<Rightarrow> (string \<Rightarrow> int) \<Rightarrow> string \<Rightarrow> string \<Rightarrow> game_server \<Rightarrow> (jval option \<times> game_server) option" where
  "buildState nowMS now draw roomID playerID s =
     (case mget (gsSessions s) roomID of
        None \<Rightarrow> Some (None, s)
      | Some sess0 \<Rightarrow>
        (case applyHeartbeatTimeoutsLocked (timeout_ms s) nowMS now (sess0, gsRoomMgr s) of
           (sess1, mgr) \<Rightarrow>
             (let sess2 = sess1\<lparr>ssStates := tick_states nowMS draw (ssStates sess1)\<rparr>
              in (case CloneState (mget (ssStates sess2) playerID) of
                    None \<Rightarrow> None
                  | Some self \<Rightarrow>
                      Some (Some (state_payload roomID playerID sess2 self),
                            put_session roomID (sess2, mgr) s)))))"

subsection \<open>Tokens\<close>

text \<open>
  \<open>verify token\<close> is the answer of the token service: \<open>None\<close> for an error, else the user and
  whether the token is valid. \<open>refresh token\<close> likewise.
\<close>

definition verifyToken :: "(string \<Rightarrow> (string \<times> bool) option) \<Rightarrow> string \<Rightarrow> string \<Rightarrow> bool" where
  "verifyToken verify token playerID =
     (if token = '''' \<or> playerID = '''' then False
      else (case verify token of
          None \<Rightarrow> False
        | Some (uid, ok) \<Rightarrow> if \<not> ok then False else uid = playerID))"

definition refreshToken :: "(string \<Rightarrow> bool option) \<Rightarrow> string \<Rightarrow> bool" where
  "refreshToken refresh token =
     (if token = '''' then False
      else (case refresh token of None \<Rightarrow> False | Some ok \<Rightarrow> ok))"

subsection \<open>The game connection\<close>

definition ensureRoomMonitorLocked :: "string \<Rightarrow> game_server \<Rightarrow> game_server" where
  "ensureRoomMonitorLocked roomID s =
     (if roomID = '''' then s
      else if get_or False (gsRoomMonitor s) roomID then s
      else s\<lparr>gsRoomMonitor := mput roomID True (gsRoomMonitor s)\<rparr>)"

definition close_conn :: "conn_id \<Rightarrow> game_server \<Rightarrow> game_server" where
  "close_conn c s = s\<lparr>gsClosed := c # gsClosed s\<rparr>"

definition close_old :: "conn_id option \<Rightarrow> game_server \<Rightarrow> game_server" where
  "close_old old s = (case old of None \<Rightarrow> s | Some c \<Rightarrow> close_conn c s)"

text \<open>The end of a request to open a websocket.\<close>

datatype ws_open = BadRequest | Unauthorized | UpgradeFailed | Refused | Attached

text \<open>
  \<open>handleWSGame\<close> up to its loop: \<open>q\<close> is the query, \<open>upgraded\<close> the new connection or the
  failure of the upgrade. A refused connection is told so and closed.
\<close>

definition handleWSGame ::
  "(string \<Rightarrow> (string \<times> bool) option) \<Rightarrow> int \<Rightarrow> (string \<Rightarrow> string) \<Rightarrow> conn_id option \<Rightarrow> game_server \<Rightarrow> ws_open \<times> game_server" where
  "handleWSGame verify now q upgraded s =
     (let roomID = TrimSpace (q ''room_id''); playerID = TrimSpace (q ''player_id'');
          ticket = TrimSpace (q ''ticket''); token = TrimSpace (q ''token'')
      in if roomID = '''' \<or> playerID = '''' \<or> ticket = '''' \<or> token = '''' then (BadRequest, s)
         else if \<not> verifyToken verify token playerID then (Unauthorized, s)
         else (case upgraded of
             None \<Rightarrow> (UpgradeFailed, s)
           | Some conn \<Rightarrow>
             (case mget (gsSessions s) roomID of
                None \<Rightarrow> (Refused, close_conn conn s)
              | Some sess \<Rightarrow>
                if get_or '''' (ssTickets sess) playerID \<noteq> ticket then (Refused, close_conn conn s)
                else
                  (let conns = get_or [] (gsWSConns s) roomID;
                       s1 = close_old (mget conns playerID) s;
                       s2 = s1\<lparr>gsWSConns := mput roomID (mput playerID conn conns) (gsWSConns s1),
                               gsSessions := mput roomID
                                 (sess\<lparr>ssLastHeartbeat := mput playerID now (ssLastHeartbeat sess)\<rparr>) (gsSessions s1),
                               gsRoomOfPlayer := mput playerID roomID (gsRoomOfPlayer s1),
                               gsRoomLastHB := mput playerID now (gsRoomLastHB s1)\<rparr>
                   in (Attached, ensureRoomMonitorLocked roomID s2)))))"

text \<open>The deferred cleanup when the loop of \<open>handleWSGame\<close> ends.\<close>

definition handleWSGame_done :: "string \<Rightarrow> string \<Rightarrow> conn_id \<Rightarrow> game_server \<Rightarrow> game_server" where
  "handleWSGame_done roomID playerID conn s =
     (let s1 = (case mget (gsWSConns s) roomID of
                  None \<Rightarrow> s
                | Some m \<Rightarrow>
                  (let m' = mdel playerID m
                   in if length m' = 0 then s\<lparr>gsWSConns := mdel roomID (gsWSConns s)\<rparr>
                      else s\<lparr>gsWSConns := mput roomID m' (gsWSConns s)\<rparr>))
      in close_conn conn s1)"

text \<open>The end of one round of \<open>readWS\<close>.\<close>

definition note_alive :: "int \<Rightarrow> string \<Rightarrow> string \<Rightarrow> game_server \<Rightarrow> game_server" where
  "note_alive now roomID playerID s =
     ensureRoomMonitorLocked roomID
       (s\<lparr>gsRoomLastHB := mput playerID now (gsRoomLastHB s),
          gsRoomOfPlayer := mput playerID roomID (gsRoomOfPlayer s)\<rparr>)"

text \<open>The common start of the cases of \<open>readWS\<close>: the session, with the player's heartbeat.\<close>

definition heartbeat :: "int \<Rightarrow> string \<Rightarrow> session \<Rightarrow> session" where
  "heartbeat now playerID sess = sess\<lparr>ssLastHeartbeat := mput playerID now (ssLastHeartbeat sess)\<rparr>"

text \<open>
  A failed operation leaves the state as it is; a successful one writes through the pointer.
\<close>

definition store_state :: "string \<Rightarrow> engine_error + player_state \<Rightarrow> session \<Rightarrow> session" where
  "store_state playerID res sess =
     (case res of Inl _ \<Rightarrow> sess | Inr st \<Rightarrow> sess\<lparr>ssStates := mput playerID st (ssStates sess)\<rparr>)"

definition as_float :: "jval \<Rightarrow> float64" where
  "as_float v = toFloat64 v"

text \<open>
  One message of \<open>readWS\<close>, with the session's room and player. \<open>nowMS\<close> is the time of the
  message, \<open>shotMS\<close> the second reading for a shot, \<open>now\<close> the nanoseconds a room that is left
  may read. The boolean says whether the loop goes on.
\<close>

definition readWS ::
  "(string \<Rightarrow> bool option) \<Rightarrow> int \<Rightarrow> int \<Rightarrow> int \<Rightarrow> int \<Rightarrow> string \<Rightarrow> string \<Rightarrow> string \<Rightarrow> jobj \<Rightarrow> game_server
     \<Rightarrow> (bool \<times> game_server) option" where
  "readWS refresh nowMS shotMS now draw roomID playerID token req s =
     (let typ = as_string (jget req ''type'')
      in if typ = ''shot'' then
           (let angle = as_float (jget req ''angle'');
                s1 = (case mget (gsSessions s) roomID of
                        None \<Rightarrow> s
                      | Some sess0 \<Rightarrow>
                        (let sess = heartbeat nowMS playerID sess0
                         in put_session roomID
                              (store_state playerID
                                 (BeginClientShot (mget (ssStates sess) playerID) angle shotMS) sess,
                               gsRoomMgr s) s))
            in Some (True, note_alive nowMS roomID playerID s1))
         else if typ = ''land'' then
           (let angle = as_float (jget req ''angle''); x = as_float (jget req ''x'');
                y = as_float (jget req ''y'');
                s1 = (case mget (gsSessions s) roomID of
                        None \<Rightarrow> s
                      | Some sess0 \<Rightarrow>
                        (let sess = heartbeat nowMS playerID sess0;
                             sess1 = store_state playerID
                               (CommitLanding (mget (ssStates sess) playerID) angle x y draw) sess
                         in put_session roomID (resolveOutcomeLocked now (sess1, gsRoomMgr s)) s))
            in Some (True, note_alive nowMS roomID playerID s1))
         else if typ = ''aim'' then
           (let angle = as_float (jget req ''angle'')
            in (case mget (gsSessions s) roomID of
                  None \<Rightarrow> Some (True, note_alive nowMS roomID playerID s)
                | Some sess0 \<Rightarrow>
                  (let sess = heartbeat nowMS playerID sess0
                   in (case mget (ssStates sess) playerID of
                         None \<Rightarrow> None
                       | Some st \<Rightarrow>
                         Some (True, note_alive nowMS roomID playerID
                           (put_session roomID
                              (sess\<lparr>ssStates := mput playerID (st\<lparr>AimAngle := ClampAim angle\<rparr>) (ssStates sess)\<rparr>,
                               gsRoomMgr s) s))))))
         else if typ = ''heartbeat'' then
           (let s1 = (case mget (gsSessions s) roomID of
                        None \<Rightarrow> s
                      | Some sess0 \<Rightarrow> put_session roomID (heartbeat nowMS playerID sess0, gsRoomMgr s) s)
            in if \<not> refreshToken refresh token then Some (False, s1)
               else Some (True, note_alive nowMS roomID playerID s1))
         else Some (True, note_alive nowMS roomID playerID s))"

subsection \<open>The room connection\<close>

definition handleWSRoom ::
  "(string \<Rightarrow> (string \<times> bool) option) \<Rightarrow> int \<Rightarrow> (string \<Rightarrow> string) \<Rightarrow> conn_id option \<Rightarrow> game_server \<Rightarrow> ws_open \<times> game_server" where
  "handleWSRoom verify now q upgraded s =
     (let roomID = TrimSpace (q ''room_id''); playerID = TrimSpace (q ''player_id'');
          ticket = TrimSpace (q ''ticket''); token = TrimSpace (q ''token'')
      in if roomID = '''' \<or> playerID = '''' \<or> token = '''' then (BadRequest, s)
         else if \<not> verifyToken verify token playerID then (Unauthorized, s)
         else if ticket \<noteq> '''' then handleWSGame verify now q upgraded s
         else (case upgraded of
             None \<Rightarrow> (UpgradeFailed, s)
           | Some conn \<Rightarrow>
             (let s1 = close_old (mget (gsRoomWS s) playerID) s;
                  s2 = s1\<lparr>gsRoomWS := mput playerID conn (gsRoomWS s1),
                          gsRoomOfPlayer := mput playerID roomID (gsRoomOfPlayer s1),
                          gsRoomLastHB := mput playerID now (gsRoomLastHB s1)\<rparr>
              in (Attached, ensureRoomMonitorLocked roomID s2))))"

definition handleWSRoom_message ::
  "(string \<Rightarrow> bool option) \<Rightarrow> int \<Rightarrow> string \<Rightarrow> string \<Rightarrow> jobj \<Rightarrow> game_server \<Rightarrow> bool \<times> game_server" where
  "handleWSRoom_message refresh nowMS playerID token req s =
     (let s1 = s\<lparr>gsRoomLastHB := mput playerID nowMS (gsRoomLastHB s)\<rparr>
      in if as_string (jget req ''type'') = ''heartbeat'' \<and> \<not> refreshToken refresh token
         then (False, s1) else (True, s1))"

definition handleWSRoom_done :: "string \<Rightarrow> conn_id \<Rightarrow> game_server \<Rightarrow> game_server" where
  "handleWSRoom_done playerID conn s =
     (let s1 = (if mget (gsRoomWS s) playerID = Some conn
                then s\<lparr>gsRoomWS := mdel playerID (gsRoomWS s)\<rparr> else s)
      in close_conn conn s1)"

subsection \<open>The heartbeat monitor of a room\<close>

text \<open>One tick: the players of the room, and those of them to be put out.\<close>

definition monitor_players :: "string \<Rightarrow> game_server \<Rightarrow> string list" where
  "monitor_players roomID s = map fst (filter (\<lambda>(pid, rid). rid = roomID) (gsRoomOfPlayer s))"

definition monitor_expired :: "int \<Rightarrow> string \<Rightarrow> game_server \<Rightarrow> string list" where
  "monitor_expired nowMS roomID s =
     filter (\<lambda>pid. let hb = get_or 0 (gsRoomLastHB s) pid in hb > 0 \<and> nowMS - hb > timeout_ms s)
       (monitor_players roomID s)"

definition put_out :: "int \<Rightarrow> string \<Rightarrow> game_server \<Rightarrow> game_server" where
  "put_out now pid s =
     (let s1 = s\<lparr>gsRoomMgr := snd (LeaveRoom now pid (gsRoomMgr s))\<rparr>;
          s2 = close_old (mget (gsRoomWS s1) pid) s1
      in s2\<lparr>gsRoomWS := mdel pid (gsRoomWS s2), gsRoomLastHB := mdel pid (gsRoomLastHB s2),
            gsRoomOfPlayer := mdel pid (gsRoomOfPlayer s2)\<rparr>)"

text \<open>The boolean says whether the monitor goes on; when it ends it takes its flag away.\<close>

definition runSingleRoomHeartbeatMonitor :: "int \<Rightarrow> int \<Rightarrow> string \<Rightarrow> game_server \<Rightarrow> bool \<times> game_server" where
  "runSingleRoomHeartbeatMonitor nowMS now roomID s =
     (let playerCount = length (monitor_players roomID s);
          toLeave = monitor_expired nowMS roomID s;
          s1 = foldl (\<lambda>s pid. put_out now pid s) s toLeave
      in if playerCount = 0 then (False, s1\<lparr>gsRoomMonitor := mdel roomID (gsRoomMonitor s1)\<rparr>)
         else (True, s1))"

subsection \<open>The room service of the game server\<close>

text \<open>What follows a \<open>LeaveRoom\<close> that succeeded.\<close>

definition forget_room_player :: "string \<Rightarrow> game_server \<Rightarrow> game_server" where
  "forget_room_player playerID s =
     (let s1 = s\<lparr>gsRoomOfPlayer := mdel playerID (gsRoomOfPlayer s),
                 gsRoomLastHB := mdel playerID (gsRoomLastHB s)\<rparr>;
          s2 = close_old (mget (gsRoomWS s1) playerID) s1
      in s2\<lparr>gsRoomWS := mdel playerID (gsRoomWS s2)\<rparr>)"

definition answer_room :: "(room_error + room) \<times> manager \<Rightarrow> game_server \<Rightarrow> jval \<times> game_server" where
  "answer_room res s = (case room_answer res of (v, m) \<Rightarrow> (v, s\<lparr>gsRoomMgr := m\<rparr>))"

definition gateway_HandleGatewayMessage ::
  "int \<Rightarrow> int \<Rightarrow> jobj option \<Rightarrow> game_server \<Rightarrow> jval \<times> game_server" where
  "gateway_HandleGatewayMessage now nowS req s =
     (case req of
        None \<Rightarrow> (mapResp 100 ''nil_request'' [], s)
      | Some rq \<Rightarrow>
        (let playerID = as_string (jget rq ''player_id'');
             msgID = toUint16 (jget rq ''msg_id'');
             body = toMap (jget rq ''body'')
         in if playerID = '''' then (mapResp 100 ''missing_player_id'' [], s)
            else if msgID = RoomMsgCreateRoom then
              (let name0 = as_string (jget body ''name'');
                   name = (if name0 = '''' then ''Room-'' @ FormatInt nowS else name0);
                   capacity = to_int (toFloat64 (jget body ''capacity''))
               in answer_room (CreateRoom now playerID name capacity (gsRoomMgr s)) s)
            else if msgID = RoomMsgJoinRoom then
              answer_room (JoinRoom now playerID (as_string (jget body ''room_id'')) (gsRoomMgr s)) s
            else if msgID = RoomMsgStartGame then
              answer_room (StartGame now playerID (gsRoomMgr s)) s
            else if msgID = RoomMsgLeaveRoom then
              (case LeaveRoom now playerID (gsRoomMgr s) of
                 (Inl err, m) \<Rightarrow> (mapResp 300 (room_error_text err) [], s\<lparr>gsRoomMgr := m\<rparr>)
               | (Inr r, m) \<Rightarrow>
                   (mapResp 0 ''ok'' [(''room'', JObj (roomToMap r))],
                    forget_room_player playerID (s\<lparr>gsRoomMgr := m\<rparr>)))
            else if msgID = RoomMsgListRooms then
              (mapResp 0 ''ok'' [(''rooms'', JArr (map (\<lambda>r. JObj (roomToMap r)) (ListRooms (gsRoomMgr s))))], s)
            else (mapResp 100 ''unknown_msg_id'' [], s)))"

end
