(* ===== verification/GameProps.thy ===== *)
theory GameProps
  imports GameSvc
begin

text \<open>
  The invariant of a game session (\<open>internal/gamesvc/server.go\<close>): its players have well-formed
  states, nobody ever flies a bubble on the server, and a winner is declared once, when all
  others have lost. Then the states the server can reach, and the room after a win.
\<close>

subsection \<open>The players of a session\<close>

definition players_ok :: "session \<Rightarrow> bool" where
  "players_ok sess \<longleftrightarrow>
     wf_map (ssStates sess) \<and> wf_map (ssLastHeartbeat sess)
     \<and> (\<forall>p st. mget (ssStates sess) p = Some st \<longrightarrow> player_ok st \<and> p \<noteq> '''')"

definition lost :: "session \<Rightarrow> string \<Rightarrow> bool" where
  "lost sess p \<longleftrightarrow> (\<exists>st. mget (ssStates sess) p = Some st \<and> Status st = StLose)"

definition in_session :: "session \<Rightarrow> string \<Rightarrow> bool" where
  "in_session sess p \<longleftrightarrow> mget (ssStates sess) p \<noteq> None"

definition outcome_ok :: "session \<Rightarrow> bool" where
  "outcome_ok sess \<longleftrightarrow>
     (if ssWinnerID sess = '''' then \<not> ssFinalized sess
      else ssFinalized sess \<and> in_session sess (ssWinnerID sess) \<and> length (ssStates sess) \<ge> 2
        \<and> (\<forall>p. in_session sess p \<and> p \<noteq> ssWinnerID sess \<longrightarrow> lost sess p))"

definition session_ok :: "session \<Rightarrow> bool" where
  "session_ok sess \<longleftrightarrow> players_ok sess \<and> outcome_ok sess"

definition states_follow :: "session \<Rightarrow> session \<Rightarrow> bool" where
  "states_follow sess sess' \<longleftrightarrow>
     map fst (ssStates sess') = map fst (ssStates sess)
     \<and> (\<forall>p. lost sess p \<longrightarrow> lost sess' p)
     \<and> ssWinnerID sess' = ssWinnerID sess \<and> ssFinalized sess' = ssFinalized sess"

lemma states_follow_refl [simp]: "states_follow sess sess"
  by (simp add: states_follow_def)

lemma states_follow_trans: "states_follow a b \<Longrightarrow> states_follow b c \<Longrightarrow> states_follow a c"
  by (simp add: states_follow_def)

lemma follow_in_session: "states_follow a b \<Longrightarrow> in_session b p = in_session a p"
  unfolding states_follow_def in_session_def by (metis wf_map_key_mem)

lemma outcome_follow:
  assumes "states_follow sess sess'" and "outcome_ok sess"
  shows "outcome_ok sess'"
proof -
  have "length (ssStates sess') = length (ssStates sess)"
    using assms(1) unfolding states_follow_def by (metis length_map)
  then show ?thesis
    using assms(2) assms(1)[unfolded states_follow_def] follow_in_session[OF assms(1)]
    unfolding outcome_ok_def by auto
qed

lemma follow_put:
  assumes "mget (ssStates sess) p = Some st" and "loser_stays st st'"
  shows "states_follow sess (sess\<lparr>ssStates := mput p st' (ssStates sess)\<rparr>)"
proof -
  have "p \<in> set (map fst (ssStates sess))" using assms(1) by (simp only: wf_map_key_mem) simp
  then have "map fst (mput p st' (ssStates sess)) = map fst (ssStates sess)"
    using update_keys[of p st' "ssStates sess"] by simp
  then show ?thesis
    using assms by (auto simp: states_follow_def lost_def loser_stays_def)
qed

lemma follow_heartbeat [simp]: "states_follow sess (heartbeat now p sess)"
  by (simp add: states_follow_def heartbeat_def lost_def)

lemma players_ok_heartbeat [simp]: "players_ok sess \<Longrightarrow> players_ok (heartbeat now p sess)"
  by (simp add: players_ok_def heartbeat_def)

lemma heartbeat_simps [simp]:
  "ssStates (heartbeat now p sess) = ssStates sess"
  "ssWinnerID (heartbeat now p sess) = ssWinnerID sess"
  "ssFinalized (heartbeat now p sess) = ssFinalized sess"
  by (simp_all add: heartbeat_def)

lemma players_ok_put:
  assumes "players_ok sess" and "mget (ssStates sess) p = Some st" and "player_ok st'"
  shows "players_ok (sess\<lparr>ssStates := mput p st' (ssStates sess)\<rparr>)"
  using assms by (auto simp: players_ok_def)

lemma no_state:
  "BeginClientShot None a t = Inl StateNotFound" "CommitLanding None a x y draw = Inl StateNotFound"
  by (simp_all add: BeginClientShot_def CommitLanding_def)

subsection \<open>Every operation keeps the session in order\<close>

lemma store_state_ok:
  assumes "players_ok sess"
    and "\<And>st st'. mget (ssStates sess) p = Some st \<Longrightarrow> res = Inr st' \<Longrightarrow> player_ok st \<Longrightarrow>
          player_ok st' \<and> loser_stays st st'"
    and "mget (ssStates sess) p = None \<Longrightarrow> \<exists>err. res = Inl err"
  shows "players_ok (store_state p res sess) \<and> states_follow sess (store_state p res sess)"
proof (cases "mget (ssStates sess) p")
  case None
  then show ?thesis using assms(1,3) by (auto simp: store_state_def)
next
  case (Some st)
  then have "player_ok st" using assms(1) by (simp add: players_ok_def)
  then show ?thesis
    using Some assms(1,2) players_ok_put follow_put
    by (cases res) (auto simp: store_state_def)
qed

lemma expire_states:
  "map fst (expire_player to now sts h) = map fst sts"
  "mget (expire_player to now sts h) p =
     (if p = fst h \<and> 0 < snd h \<and> to < now - snd h then map_option (\<lambda>st. st\<lparr>Status := StLose\<rparr>) (mget sts p)
      else mget sts p)"
proof -
  obtain q hb where h: "h = (q, hb)" by (cases h)
  have "mget sts q = Some st \<Longrightarrow> map fst (mput q v sts) = map fst sts" for st v
    using update_keys[of q v sts] wf_map_key_mem[of q sts] by simp
  then show "map fst (expire_player to now sts h) = map fst sts"
    by (auto simp: expire_player_def h split: option.split)
  show "mget (expire_player to now sts h) p =
     (if p = fst h \<and> 0 < snd h \<and> to < now - snd h then map_option (\<lambda>st. st\<lparr>Status := StLose\<rparr>) (mget sts p)
      else mget sts p)"
    by (auto simp: expire_player_def h split: option.split)
qed

text \<open>After the loop over the heartbeats exactly those with an overdue one have lost.\<close>

definition overdue :: "int \<Rightarrow> int \<Rightarrow> (string, int) gomap \<Rightarrow> string \<Rightarrow> bool" where
  "overdue to now hbs p \<longleftrightarrow> (\<exists>hb. (p, hb) \<in> set hbs \<and> 0 < hb \<and> to < now - hb)"

lemma expire_all:
  "map fst (foldl (expire_player to now) sts hbs) = map fst sts
   \<and> mget (foldl (expire_player to now) sts hbs) p =
     (if overdue to now hbs p then map_option (\<lambda>st. st\<lparr>Status := StLose\<rparr>) (mget sts p) else mget sts p)"
proof (induction hbs arbitrary: sts)
  case Nil
  show ?case by (simp add: overdue_def)
next
  case (Cons h hbs)
  obtain q hb where h: "h = (q, hb)" by (cases h)
  have over: "overdue to now ((q, hb) # hbs) p \<longleftrightarrow> (p = q \<and> 0 < hb \<and> to < now - hb) \<or> overdue to now hbs p"
    by (auto simp: overdue_def)
  show ?case
    using Cons.IH[of "expire_player to now sts (q, hb)"] expire_states[of to now sts "(q, hb)"]
    unfolding h by (auto simp: over option.map_comp comp_def)
qed

lemma alive_iff: "wf_map (ssStates sess) \<Longrightarrow> p \<in> set (alive_players sess) \<longleftrightarrow> in_session sess p \<and> \<not> lost sess p"
  unfolding alive_players_def in_session_def lost_def
  by (force simp: wf_map_mem)

lemma distinct_alive: "wf_map (ssStates sess) \<Longrightarrow> distinct (alive_players sess)"
  by (simp add: alive_players_def wf_map_def distinct_map_filter)

lemma one_alive:
  assumes "wf_map (ssStates sess)" and "length (alive_players sess) = 1"
  shows "in_session sess (hd (alive_players sess)) \<and> \<not> lost sess (hd (alive_players sess))
    \<and> (\<forall>p. in_session sess p \<and> p \<noteq> hd (alive_players sess) \<longrightarrow> lost sess p)"
proof -
  obtain w where w: "alive_players sess = [w]" using assms(2) by (metis One_nat_def length_0_conv length_Suc_conv)
  have "p = w \<longleftrightarrow> in_session sess p \<and> \<not> lost sess p" for p using alive_iff[OF assms(1), of p] w by simp
  then show ?thesis unfolding w by auto
qed

lemma resolve_session:
  assumes ok: "players_ok sess" and out: "outcome_ok sess" and r: "resolveOutcomeLocked now (sess, mgr) = (sess', mgr')"
  shows "session_ok sess' \<and> ssStates sess' = ssStates sess \<and> ssLastHeartbeat sess' = ssLastHeartbeat sess
    \<and> ssTickets sess' = ssTickets sess
    \<and> (ssWinnerID sess \<noteq> '''' \<longrightarrow> sess' = sess \<and> mgr' = mgr)"
proof (cases "length (ssStates sess) \<ge> 2 \<and> length (alive_players sess) = 1")
  case False
  then show ?thesis using r ok out by (auto simp: resolveOutcomeLocked_def Let_def session_ok_def)
next
  case True
  let ?w = "hd (alive_players sess)"
  have wf: "wf_map (ssStates sess)" using ok by (simp add: players_ok_def)
  note one = one_alive[OF wf conjunct2[OF True]]
  then have nz: "?w \<noteq> ''''" using ok by (auto simp: players_ok_def in_session_def)
  show ?thesis
  proof (cases "ssWinnerID sess = ''''")
    case new: True
    then have "\<not> ssFinalized sess" using out by (simp add: outcome_ok_def)
    then have s': "sess' = sess\<lparr>ssWinnerID := ?w, ssFinalized := True\<rparr>"
      using r True nz by (simp add: resolveOutcomeLocked_def finalizeRoomAfterWinLocked_def Let_def)
    have "outcome_ok sess'"
      using True one nz unfolding outcome_ok_def s' by (simp add: in_session_def lost_def)
    moreover have "players_ok sess'" using ok unfolding s' players_ok_def by simp
    ultimately show ?thesis using new by (simp add: session_ok_def s')
  next
    case False
    then have "ssFinalized sess" and "\<forall>p. in_session sess p \<and> p \<noteq> ssWinnerID sess \<longrightarrow> lost sess p"
      using out by (auto simp: outcome_ok_def)
    moreover from this(2) have "?w = ssWinnerID sess" using one by blast
    ultimately show ?thesis
      using r True ok out
      by (auto simp: resolveOutcomeLocked_def finalizeRoomAfterWinLocked_def Let_def session_ok_def)
  qed
qed

lemma LeaveRoom_index:
  assumes "wf_manager m"
  shows "mget (mgPlayerRoom (snd (LeaveRoom now p m))) = (mget (mgPlayerRoom m))(p := None)"
  using assms
proof (cases rule: mustGet_cases[of m p])
  case out
  then show ?thesis by (simp add: LeaveRoom_def fun_eq_iff)
next
  case (member k r)
  then show ?thesis by (simp add: LeaveRoom_member store_room_def fun_eq_iff)
qed

text \<open>The losers leave their rooms one after the other.\<close>

lemma leave_all:
  assumes "wf_manager m"
  shows "wf_manager (foldl (\<lambda>m pid. if pid = w then m else snd (LeaveRoom now pid m)) m ps)
    \<and> mget (mgPlayerRoom (foldl (\<lambda>m pid. if pid = w then m else snd (LeaveRoom now pid m)) m ps))
      = (\<lambda>q. if q \<in> set ps \<and> q \<noteq> w then None else mget (mgPlayerRoom m) q)"
  using assms
proof (induction ps arbitrary: m)
  case Nil
  then show ?case by simp
next
  case (Cons p ps)
  have "wf_manager (if p = w then m else snd (LeaveRoom now p m))"
    using Cons.prems wf_LeaveRoom by simp
  from Cons.IH[OF this] show ?case
    by (auto simp: LeaveRoom_index[OF Cons.prems] fun_eq_iff)
qed

lemma resolve_manager:
  assumes "wf_manager mgr"
  shows "wf_manager (snd (resolveOutcomeLocked now (sess, mgr)))"
  using leave_all[OF assms, of "hd (alive_players sess)" now "map fst (ssStates sess)"] assms
  by (simp add: resolveOutcomeLocked_def finalizeRoomAfterWinLocked_def Let_def)

text \<open>The heartbeats of a session whose outcome is open.\<close>

lemma timeouts_session:
  assumes ok: "session_ok sess" and r: "applyHeartbeatTimeoutsLocked to ms now (sess, mgr) = (sess', mgr')"
  shows "session_ok sess' \<and> ssLastHeartbeat sess' = ssLastHeartbeat sess \<and> ssTickets sess' = ssTickets sess
    \<and> map fst (ssStates sess') = map fst (ssStates sess)
    \<and> (ssWinnerID sess \<noteq> '''' \<longrightarrow> sess' = sess \<and> mgr' = mgr)"
proof (cases "ssWinnerID sess \<noteq> '''' \<or> length (ssLastHeartbeat sess) = 0")
  case True
  then show ?thesis using r ok by (auto simp: applyHeartbeatTimeoutsLocked_def split: if_splits)
next
  case False
  let ?s = "sess\<lparr>ssStates := foldl (expire_player to ms) (ssStates sess) (ssLastHeartbeat sess)\<rparr>"
  note e = expire_all[of to ms "ssStates sess" "ssLastHeartbeat sess"]
  have keys: "map fst (ssStates ?s) = map fst (ssStates sess)" using e by simp
  have get: "mget (ssStates ?s) p = (if overdue to ms (ssLastHeartbeat sess) p
      then map_option (\<lambda>st. st\<lparr>Status := StLose\<rparr>) (mget (ssStates sess) p) else mget (ssStates sess) p)" for p
    using e by simp
  have p: "players_ok sess" using ok by (simp add: session_ok_def)
  have wf: "wf_map (ssStates ?s)" using p keys by (simp add: players_ok_def wf_map_def)
  have "player_ok st \<and> q \<noteq> ''''" if "mget (ssStates ?s) q = Some st" for q st
    using that p unfolding get players_ok_def
    by (auto simp: player_ok_def wf_state_def split: if_splits)
  then have "players_ok ?s" using wf p by (simp add: players_ok_def)
  moreover have "outcome_ok ?s"
    using ok False by (simp add: session_ok_def outcome_ok_def)
  moreover have "resolveOutcomeLocked now (?s, mgr) = (sess', mgr')"
    using r False by (simp add: applyHeartbeatTimeoutsLocked_def)
  ultimately have "session_ok sess' \<and> ssStates sess' = ssStates ?s \<and> ssLastHeartbeat sess' = ssLastHeartbeat ?s
      \<and> ssTickets sess' = ssTickets ?s"
    using resolve_session by blast
  then show ?thesis using keys False by simp
qed

lemma tick_states_ok:
  assumes ok: "session_ok sess"
  shows "session_ok (sess\<lparr>ssStates := tick_states ms draw (ssStates sess)\<rparr>)"
proof -
  let ?s = "sess\<lparr>ssStates := tick_states ms draw (ssStates sess)\<rparr>"
  have "players_ok ?s"
    using ok tick_ok by (auto simp: session_ok_def players_ok_def tick_states_def)
  moreover have "states_follow sess ?s"
    using ok tick_ok
    by (auto simp: states_follow_def tick_states_def lost_def session_ok_def players_ok_def loser_stays_def)
  ultimately show ?thesis using ok outcome_follow by (auto simp: session_ok_def)
qed

text \<open>A new session.\<close>

lemma players_ok_add:
  assumes "players_ok sess" and st: "player_ok st" "p \<noteq> ''''"
  shows "players_ok (sess\<lparr>ssPlayers := ps, ssStates := mput p st (ssStates sess),
    ssLastHeartbeat := mput q hb (ssLastHeartbeat sess), ssTickets := tks\<rparr>)"
proof -
  have "player_ok st' \<and> r \<noteq> ''''" if "mget (mput p st (ssStates sess)) r = Some st'" for r st'
    using that assms by (cases "r = p") (auto simp: players_ok_def)
  then show ?thesis using assms(1) by (simp add: players_ok_def)
qed

definition fair_draws :: "player_draws \<Rightarrow> bool" where
  "fair_draws d \<longleftrightarrow> colour (dCurrent d) \<and> colour (dNext d) \<and> (\<forall>r c. colour (dPick d r c))"

lemma new_session_ok:
  assumes "\<forall>i. fair_draws (draws i)" and "'''' \<notin> set players"
  shows "session_ok (fst (new_session ms draws roomID players))"
proof -
  let ?P = "\<lambda>acc :: session \<times> (string, string) gomap. players_ok (fst acc) \<and> ssWinnerID (fst acc) = '''' \<and> \<not> ssFinalized (fst acc)"
  have new: "player_ok (NewInitialState ms (dCurrent (draws i)) (dNext (draws i)) (dCoin (draws i)) (dPick (draws i)))" for i
    using assms(1) wf_NewInitialState unfolding player_ok_def fair_draws_def
    by (auto simp: NewInitialState_def)
  have "?P (new_session ms draws roomID players)"
    unfolding new_session_def
  proof (rule foldl_invariant[where P = ?P])
    show "?P (\<lparr>ssRoomID = roomID, ssPlayers = [], ssTickets = [], ssStates = [], ssWinnerID = '''',
         ssLastHeartbeat = [], ssFinalized = False\<rparr>, [])" by (simp add: players_ok_def)
  next
    fix acc :: "session \<times> (string, string) gomap" and ip
    assume acc: "?P acc" and ip: "ip \<in> set (enumerate 0 players)"
    obtain i p where "ip = (i, p)" by (cases ip)
    then have "p \<in> set players" using ip by (auto simp: in_set_enumerate_eq)
    then have "p \<noteq> ''''" using assms(2) by auto
    then show "?P (add_player ms draws acc ip)"
      using acc new[of i] \<open>ip = (i, p)\<close> players_ok_add[of "fst acc"]
      by (cases acc) (simp add: add_player_def Let_def)
  qed
  then show ?thesis by (simp add: session_ok_def outcome_ok_def)
qed

subsection \<open>The server\<close>

definition server_ok :: "int \<Rightarrow> game_server \<Rightarrow> bool" where
  "server_ok t s \<longleftrightarrow>
     (\<forall>k sess. mget (gsSessions s) k = Some sess \<longrightarrow> session_ok sess)
     \<and> wf_manager (gsRoomMgr s) \<and> ids_before t (gsRoomMgr s)"

lemma server_session: "server_ok t s \<Longrightarrow> mget (gsSessions s) k = Some sess \<Longrightarrow> session_ok sess"
  by (simp add: server_ok_def)

lemma ids_before_mono: "ids_before t m \<Longrightarrow> t \<le> t' \<Longrightarrow> ids_before t' m"
  unfolding ids_before_def by (meson order_trans)

lemma ids_before_from:
  assumes "ids_before t m" and "t \<le> now" and "rooms_from now m m'"
  shows "ids_before now m'"
  unfolding ids_before_def
proof (intro allI impI)
  fix k r assume "mget (mgRooms m') k = Some r"
  then have "mget (mgRooms m) k \<noteq> None \<or> k = FormatInt now" using assms(3) unfolding rooms_from_def by blast
  then show "\<exists>i\<le>now. k = FormatInt i" using assms(1,2) unfolding ids_before_def by fastforce
qed

lemma rooms_from_trans: "rooms_from t a b \<Longrightarrow> rooms_from t b c \<Longrightarrow> rooms_from t a c"
  unfolding rooms_from_def by blast

lemma leave_all_rooms:
  "wf_manager m \<Longrightarrow>
     rooms_from now m (foldl (\<lambda>m pid. if pid = w then m else snd (LeaveRoom now pid m)) m ps)"
proof (induction ps arbitrary: m)
  case (Cons p ps)
  have "rooms_from now m (if p = w then m else snd (LeaveRoom now p m))"
    using rooms_from_ops(4)[OF Cons.prems] by simp
  moreover have "wf_manager (if p = w then m else snd (LeaveRoom now p m))"
    using Cons.prems wf_LeaveRoom by simp
  ultimately show ?case using rooms_from_trans Cons.IH unfolding foldl_Cons by blast
qed simp

lemma resolve_rooms:
  "wf_manager mgr \<Longrightarrow> rooms_from now mgr (snd (resolveOutcomeLocked now (sess, mgr)))"
  using leave_all_rooms[of mgr now "hd (alive_players sess)" "map fst (ssStates sess)"]
  by (simp add: resolveOutcomeLocked_def finalizeRoomAfterWinLocked_def Let_def)

lemma timeouts_manager:
  "wf_manager mgr \<Longrightarrow> wf_manager (snd (applyHeartbeatTimeoutsLocked to ms now (sess, mgr)))
     \<and> rooms_from now mgr (snd (applyHeartbeatTimeoutsLocked to ms now (sess, mgr)))"
  using resolve_manager resolve_rooms by (simp add: applyHeartbeatTimeoutsLocked_def)

lemma server_ok_frame:
  "server_ok t s \<Longrightarrow> gsSessions s' = gsSessions s \<Longrightarrow> gsRoomMgr s' = gsRoomMgr s \<Longrightarrow> server_ok t s'"
  by (simp add: server_ok_def)

lemma server_ok_put:
  assumes "server_ok t s" and "session_ok sess" and "wf_manager m" and "rooms_from now (gsRoomMgr s) m" and "t \<le> now"
  shows "server_ok now (put_session k (sess, m) s)"
  using assms ids_before_from[of t "gsRoomMgr s" now m] by (simp add: server_ok_def put_session_def)

lemma server_ok_mono: "server_ok t s \<Longrightarrow> t \<le> t' \<Longrightarrow> server_ok t' s"
  using ids_before_mono by (auto simp: server_ok_def)

text \<open>What does not touch sessions and rooms.\<close>

lemma frame_simps [simp]:
  "gsSessions (ensureRoomMonitorLocked k s) = gsSessions s" "gsRoomMgr (ensureRoomMonitorLocked k s) = gsRoomMgr s"
  "gsSessions (close_old c s) = gsSessions s" "gsRoomMgr (close_old c s) = gsRoomMgr s"
  "gsSessions (close_conn d s) = gsSessions s" "gsRoomMgr (close_conn d s) = gsRoomMgr s"
  "gsSessions (note_alive now k p s) = gsSessions s" "gsRoomMgr (note_alive now k p s) = gsRoomMgr s"
  "gsSessions (handleWSGame_done k p d s) = gsSessions s" "gsRoomMgr (handleWSGame_done k p d s) = gsRoomMgr s"
  "gsSessions (handleWSRoom_done p d s) = gsSessions s" "gsRoomMgr (handleWSRoom_done p d s) = gsRoomMgr s"
  "gsSessions (forget_room_player p s) = gsSessions s" "gsRoomMgr (forget_room_player p s) = gsRoomMgr s"
  "gsSessions (put_out now p s) = gsSessions s" "gsRoomMgr (put_out now p s) = snd (LeaveRoom now p (gsRoomMgr s))"
  by (simp_all add: ensureRoomMonitorLocked_def close_old_def close_conn_def note_alive_def
      handleWSGame_done_def handleWSRoom_done_def forget_room_player_def put_out_def Let_def split: option.split)

lemma server_ok_CreateSession:
  assumes "server_ok t s" and "\<forall>i. fair_draws (draws i)"
  shows "server_ok t (snd (CreateSession ms draws req s))"
proof -
  have "'''' \<notin> set (filter (\<lambda>p. p \<noteq> '''') ps)" for ps :: "string list" by simp
  from new_session_ok[OF assms(2) this] show ?thesis
    using assms(1) unfolding server_ok_def CreateSession_def Let_def
    by (auto split: option.split prod.split simp: split_beta)
qed

lemma server_ok_buildState:
  assumes ok: "server_ok t s" and b: "buildState ms now draw k p s = Some (res, s')" and t: "t \<le> now"
  shows "server_ok now s'"
proof (cases "mget (gsSessions s) k")
  case None
  then show ?thesis using b ok t server_ok_mono by (simp add: buildState_def)
next
  case (Some sess)
  obtain sess1 mgr where to: "applyHeartbeatTimeoutsLocked (timeout_ms s) ms now (sess, gsRoomMgr s) = (sess1, mgr)"
    by fastforce
  have "session_ok sess1" using timeouts_session[OF server_session[OF ok Some] to] by blast
  then have "session_ok (sess1\<lparr>ssStates := tick_states ms draw (ssStates sess1)\<rparr>)" by (rule tick_states_ok)
  moreover have "wf_manager mgr \<and> rooms_from now (gsRoomMgr s) mgr"
    using timeouts_manager[of "gsRoomMgr s" "timeout_ms s" ms now sess] ok to by (simp add: server_ok_def)
  moreover have "s' = put_session k (sess1\<lparr>ssStates := tick_states ms draw (ssStates sess1)\<rparr>, mgr) s"
    using b Some to by (simp add: buildState_def Let_def split: option.splits)
  ultimately show ?thesis using server_ok_put[OF ok] t by simp
qed

text \<open>The actions of a message, on a session in order.\<close>

lemma session_ok_store:
  assumes "session_ok sess"
    and "\<And>st st'. mget (ssStates sess) p = Some st \<Longrightarrow> res = Inr st' \<Longrightarrow> player_ok st \<Longrightarrow>
          player_ok st' \<and> loser_stays st st'"
    and "mget (ssStates sess) p = None \<Longrightarrow> \<exists>err. res = Inl err"
  shows "session_ok (store_state p res sess)"
  using store_state_ok[of sess p res] assms outcome_follow by (auto simp: session_ok_def)

lemma session_ok_heartbeat: "session_ok sess \<Longrightarrow> session_ok (heartbeat ms p sess)"
  using outcome_follow[OF follow_heartbeat] by (auto simp: session_ok_def)

lemma session_ok_aim:
  assumes "session_ok sess" and st: "mget (ssStates sess) p = Some st"
  shows "session_ok (sess\<lparr>ssStates := mput p (st\<lparr>AimAngle := a\<rparr>) (ssStates sess)\<rparr>)"
proof -
  have pl: "players_ok sess" and out: "outcome_ok sess" using assms(1) by (auto simp: session_ok_def)
  have "player_ok (st\<lparr>AimAngle := a\<rparr>)" using pl st by (auto simp: players_ok_def player_ok_def wf_state_def)
  then have "players_ok (sess\<lparr>ssStates := mput p (st\<lparr>AimAngle := a\<rparr>) (ssStates sess)\<rparr>)"
    by (rule players_ok_put[OF pl st])
  moreover have "states_follow sess (sess\<lparr>ssStates := mput p (st\<lparr>AimAngle := a\<rparr>) (ssStates sess)\<rparr>)"
    by (rule follow_put[OF st]) (simp add: loser_stays_def)
  ultimately show ?thesis using out outcome_follow by (auto simp: session_ok_def)
qed

lemma server_ok_resolved:
  assumes ok: "server_ok now s" and sess: "session_ok sess"
  shows "server_ok now (note_alive ms k p (put_session k (resolveOutcomeLocked now (sess, gsRoomMgr s)) s))"
proof -
  have mgr: "wf_manager (gsRoomMgr s)" using ok by (simp add: server_ok_def)
  obtain x' m' where rr: "resolveOutcomeLocked now (sess, gsRoomMgr s) = (x', m')" by fastforce
  have "session_ok x'" using resolve_session[OF _ _ rr] sess by (simp add: session_ok_def)
  moreover have "wf_manager m'" "rooms_from now (gsRoomMgr s) m'"
    using resolve_manager[OF mgr] resolve_rooms[OF mgr] rr by (metis snd_conv)+
  ultimately have "server_ok now (put_session k (x', m') s)" using server_ok_put[OF ok] by simp
  then show ?thesis unfolding rr by (rule server_ok_frame) simp_all
qed

lemma server_ok_readWS:
  assumes ok: "server_ok t s" and r: "readWS refresh ms shot now draw k p tok req s = Some (go, s')"
    and t: "t \<le> now" and draw: "colour draw"
  shows "server_ok now s'"
proof -
  have s: "server_ok now s" using ok t by (rule server_ok_mono)
  show ?thesis
  proof (cases "mget (gsSessions s) k")
    case None
    then show ?thesis
      using r s by (auto simp: readWS_def Let_def split: if_splits option.splits intro!: server_ok_frame[OF s])
  next
    case (Some sess0)
    let ?sess = "heartbeat ms p sess0"
    have hb: "session_ok ?sess" by (rule session_ok_heartbeat[OF server_session[OF ok Some]])
    have mgr: "wf_manager (gsRoomMgr s)" using ok by (simp add: server_ok_def)
    have put: "session_ok x \<Longrightarrow> server_ok now (note_alive ms k p (put_session k (x, gsRoomMgr s) s))"
      "session_ok x \<Longrightarrow> server_ok now (put_session k (x, gsRoomMgr s) s)" for x
      using server_ok_put[OF s _ mgr rooms_from_refl] server_ok_frame[of now "put_session k (x, gsRoomMgr s) s"] by simp_all
    have shot: "session_ok (store_state p (BeginClientShot (mget (ssStates ?sess) p) a tm) ?sess)" for a tm
      by (rule session_ok_store[OF hb]) (auto dest: shot_ok simp: no_state)
    have land: "session_ok (store_state p (CommitLanding (mget (ssStates ?sess) p) a x y draw) ?sess)" for a x y
      by (rule session_ok_store[OF hb]) (auto dest: landing_ok[OF _ _ draw] simp: no_state)
    have note_s: "server_ok now (note_alive ms k p s)" by (rule server_ok_frame[OF s]) simp_all
    show ?thesis
      using r Some put(1)[OF shot] server_ok_resolved[OF s land] put(1)[OF session_ok_aim[OF hb]] put[OF hb] note_s
      unfolding readWS_def Let_def
      by (auto split: if_splits option.splits)
  qed
qed

lemma server_ok_open:
  assumes "server_ok t s"
  shows "server_ok t (snd (handleWSGame verify ms q up s))"
    and "server_ok t (snd (handleWSRoom verify ms q up s))"
proof -
  have hb: "session_ok (sess\<lparr>ssLastHeartbeat := mput p ms (ssLastHeartbeat sess)\<rparr>)"
    if "mget (gsSessions s) k = Some sess" for k sess p
    using server_session[OF assms that] outcome_follow[OF follow_heartbeat, of sess ms p]
      players_ok_heartbeat[of sess ms p]
    by (simp add: session_ok_def heartbeat_def)
  show game: "server_ok t (snd (handleWSGame verify ms q up s))"
    using assms hb by (auto simp: server_ok_def handleWSGame_def Let_def split: option.split)
  show "server_ok t (snd (handleWSRoom verify ms q up s))"
    using assms game by (auto simp: server_ok_def handleWSRoom_def Let_def split: option.split)
qed

lemma server_ok_put_out: "server_ok t s \<Longrightarrow> server_ok t (put_out t p s)"
  using wf_LeaveRoom rooms_from_ops(4)[of "gsRoomMgr s" t p] ids_before_from[of t "gsRoomMgr s" t]
  by (simp add: server_ok_def)

lemma server_ok_monitor:
  assumes "server_ok t s"
  shows "server_ok t (snd (runSingleRoomHeartbeatMonitor ms t k s))"
proof -
  have "server_ok t (foldl (\<lambda>s pid. put_out t pid s) s (monitor_expired ms k s))"
    by (rule foldl_invariant[where P = "server_ok t"]) (use assms server_ok_put_out in auto)
  then show ?thesis
    by (simp add: runSingleRoomHeartbeatMonitor_def Let_def server_ok_def)
qed

lemma server_ok_gateway:
  assumes ok: "server_ok t s" and t: "t < now"
  shows "server_ok now (snd (gateway_HandleGatewayMessage now nowS req s))"
proof -
  have wf: "wf_manager (gsRoomMgr s)" and ids: "ids_before t (gsRoomMgr s)"
    using ok by (auto simp: server_ok_def)
  have fresh: "mget (mgRooms (gsRoomMgr s)) (FormatInt now) = None"
    using ids t by (fastforce simp: ids_before_def)
  have s: "server_ok now s" using ok t server_ok_mono by (simp add: less_imp_le)
  have step: "server_ok now (s\<lparr>gsRoomMgr := m\<rparr>)" if "wf_manager m" "rooms_from now (gsRoomMgr s) m" for m
    using s that ids_before_from[OF ids _ that(2)] t by (simp add: server_ok_def)
  have answer: "server_ok now (snd (answer_room res s))"
    if "wf_manager (snd res)" "rooms_from now (gsRoomMgr s) (snd res)" for res
    using step[OF that] by (cases res; cases "fst res") (auto simp: answer_room_def)
  note ops = rooms_from_ops[OF wf]
  have leave: "server_ok now (snd (case LeaveRoom now p (gsRoomMgr s) of
        (Inl err, m) \<Rightarrow> (mapResp 300 (room_error_text err) [], s\<lparr>gsRoomMgr := m\<rparr>)
      | (Inr r, m) \<Rightarrow> (mapResp 0 ''ok'' [(''room'', JObj (roomToMap r))], forget_room_player p (s\<lparr>gsRoomMgr := m\<rparr>))))" for p
  proof -
    have "server_ok now (s\<lparr>gsRoomMgr := snd (LeaveRoom now p (gsRoomMgr s))\<rparr>)"
      by (rule step[OF wf_LeaveRoom[OF wf] ops(4)])
    then show ?thesis
      by (cases "LeaveRoom now p (gsRoomMgr s)"; cases "fst (LeaveRoom now p (gsRoomMgr s))")
        (auto intro: server_ok_frame)
  qed
  show ?thesis
    unfolding gateway_HandleGatewayMessage_def Let_def
    using s leave answer[OF wf_CreateRoom[OF wf fresh] ops(1)] answer[OF wf_JoinRoom[OF wf] ops(2)]
      answer[OF wf_StartGame[OF wf] ops(3)]
    by (simp split: option.split)
qed

text \<open>
  What the server can reach. Time does not run backwards; every handler and every round of a
  monitor is a step. \<open>readWS\<close> and the monitor let their locks go in between, so their parts are steps
  too: what a message does to the session (\<open>session_part\<close>, the registers of the room sockets untouched)
  and the note that the player is alive (\<open>noted\<close>); the leaving of an expired player (\<open>leave_part\<close>), its
  removal from the registers (\<open>register_part\<close>), both in one (\<open>put_out\<close>), and the end of a monitor.
\<close>

inductive game_reachable :: "int \<Rightarrow> game_server \<Rightarrow> bool" where
  start: "game_reachable t (new_game_server hbTimeout addr tick)"
| wait: "game_reachable t s \<Longrightarrow> t \<le> t' \<Longrightarrow> game_reachable t' s"
| session: "game_reachable t s \<Longrightarrow> \<forall>i. fair_draws (draws i) \<Longrightarrow>
     game_reachable t (snd (CreateSession ms draws req s))"
| state: "game_reachable t s \<Longrightarrow> buildState ms t draw k p s = Some (res, s') \<Longrightarrow> game_reachable t s'"
| message: "game_reachable t s \<Longrightarrow> colour draw \<Longrightarrow>
     readWS refresh ms shot t draw k p tok msg s = Some (go, s') \<Longrightarrow> game_reachable t s'"
| open_game: "game_reachable t s \<Longrightarrow> game_reachable t (snd (handleWSGame verify ms q up s))"
| game_done: "game_reachable t s \<Longrightarrow> game_reachable t (handleWSGame_done k p c s)"
| open_room: "game_reachable t s \<Longrightarrow> game_reachable t (snd (handleWSRoom verify ms q up s))"
| room_message: "game_reachable t s \<Longrightarrow> game_reachable t (snd (handleWSRoom_message refresh ms p tok msg s))"
| room_done: "game_reachable t s \<Longrightarrow> game_reachable t (handleWSRoom_done p c s)"
| monitor: "game_reachable t s \<Longrightarrow> game_reachable t (snd (runSingleRoomHeartbeatMonitor ms t k s))"
| put_out: "game_reachable t s \<Longrightarrow> game_reachable t (put_out t p s)"
| session_part: "game_reachable t s \<Longrightarrow> colour draw \<Longrightarrow>
     readWS refresh ms shot t draw k p tok msg s = Some (go, s') \<Longrightarrow>
     game_reachable t (s'\<lparr>gsRoomLastHB := gsRoomLastHB s, gsRoomOfPlayer := gsRoomOfPlayer s, gsRoomMonitor := gsRoomMonitor s\<rparr>)"
| noted: "game_reachable t s \<Longrightarrow> game_reachable t (note_alive ms k p s)"
| leave_part: "game_reachable t s \<Longrightarrow> game_reachable t (s\<lparr>gsRoomMgr := snd (LeaveRoom t p (gsRoomMgr s))\<rparr>)"
| register_part: "game_reachable t s \<Longrightarrow> game_reachable t (forget_room_player p s)"
| monitor_end: "game_reachable t s \<Longrightarrow> game_reachable t (s\<lparr>gsRoomMonitor := mdel k (gsRoomMonitor s)\<rparr>)"
| request: "game_reachable t s \<Longrightarrow> t < now \<Longrightarrow>
     game_reachable now (snd (gateway_HandleGatewayMessage now nowS rq s))"

lemma game_reachable_ok: "game_reachable t s \<Longrightarrow> server_ok t s"
proof (induction rule: game_reachable.induct)
  case (start t hbTimeout addr tick)
  show ?case by (simp add: server_ok_def new_game_server_def wf_manager_new)
      (simp add: ids_before_def NewManager_def)
next
  case (wait t s t')
  then show ?case using server_ok_mono by blast
next
  case (session t s draws ms req)
  then show ?case using server_ok_CreateSession by blast
next
  case (state t s ms draw k p res s')
  then show ?case using server_ok_buildState by blast
next
  case (message t s draw refresh ms shot k p tok msg go s')
  then show ?case using server_ok_readWS by blast
next
  case (session_part t s draw refresh ms shot k p tok msg go s')
  then have "server_ok t s'" using server_ok_readWS by blast
  then show ?case by (rule server_ok_frame) simp_all
next
  case (noted t s ms k p)
  show ?case by (rule server_ok_frame[OF noted.IH]) simp_all
next
  case (leave_part t s p)
  then show ?case
    using wf_LeaveRoom rooms_from_ops(4)[of "gsRoomMgr s" t p] ids_before_from[of t "gsRoomMgr s" t] by (simp add: server_ok_def)
next
  case (register_part t s p)
  show ?case by (rule server_ok_frame[OF register_part.IH]) simp_all
next
  case (monitor_end t s k)
  show ?case by (rule server_ok_frame[OF monitor_end.IH]) simp_all
next
  case (game_done t s k p c)
  show ?case by (rule server_ok_frame[OF game_done.IH]) simp_all
next
  case (room_message t s refresh ms p tok msg)
  then show ?case by (simp add: handleWSRoom_message_def Let_def server_ok_def)
next
  case (room_done t s p c)
  show ?case by (rule server_ok_frame[OF room_done.IH]) simp_all
qed (auto intro: server_ok_open server_ok_monitor server_ok_put_out server_ok_gateway)

subsection \<open>The room after a win\<close>

lemma winner_room:
  assumes wf: "wf_manager mgr" and ok: "players_ok sess" and open_: "ssWinnerID sess = ''''"
    and fin: "\<not> ssFinalized sess"
    and r: "resolveOutcomeLocked now (sess, mgr) = (sess', mgr')" and w: "ssWinnerID sess' = w" "w \<noteq> ''''"
  shows "wf_manager mgr' \<and> mget (mgPlayerRoom mgr')
      = (\<lambda>q. if in_session sess q \<and> q \<noteq> w then None else mget (mgPlayerRoom mgr) q)"
proof -
  have wfm: "wf_map (ssStates sess)" using ok by (simp add: players_ok_def)
  have one: "length (ssStates sess) \<ge> 2 \<and> length (alive_players sess) = 1"
    using r w open_ by (auto simp: resolveOutcomeLocked_def Let_def split: if_splits)
  have "hd (alive_players sess) \<noteq> ''''"
    using one_alive[OF wfm conjunct2[OF one]] ok by (auto simp: players_ok_def in_session_def)
  then have "w = hd (alive_players sess)" and "mgr' = foldl (\<lambda>m pid. if pid = hd (alive_players sess) then m
      else snd (LeaveRoom now pid m)) mgr (map fst (ssStates sess))"
    using r w one fin by (auto simp: resolveOutcomeLocked_def finalizeRoomAfterWinLocked_def Let_def)
  moreover have "q \<in> set (map fst (ssStates sess)) \<longleftrightarrow> in_session sess q" for q
    unfolding in_session_def by (rule wf_map_key_mem)
  ultimately show ?thesis
    using leave_all[OF wf, of w now "map fst (ssStates sess)"] by simp
qed

subsection \<open>Other sessions, winners and draws\<close>

lemma put_session_get [simp]:
  "mget (gsSessions (put_session k sm s)) k' = (if k' = k then Some (fst sm) else mget (gsSessions s) k')"
  "gsRoomMgr (put_session k sm s) = snd sm"
  by (simp_all add: put_session_def)

lemma other_session:
  assumes "k' \<noteq> k"
  shows "(\<exists>res. buildState ms now draws k' p s = Some (res, s'))
      \<or> (\<exists>go. readWS refresh ms shot now draw k' p tok msg s = Some (go, s'))
    \<Longrightarrow> mget (gsSessions s') k = mget (gsSessions s) k"
  using assms
  by (auto simp: buildState_def readWS_def Let_def split: option.splits prod.splits if_splits)

lemma store_state_simps [simp]:
  "ssWinnerID (store_state p res sess) = ssWinnerID sess"
  "ssFinalized (store_state p res sess) = ssFinalized sess"
  by (simp_all add: store_state_def split: sum.split)

text \<open>What one message makes of the session it belongs to.\<close>

definition message_effect ::
  "int \<Rightarrow> int \<Rightarrow> int \<Rightarrow> int \<Rightarrow> string \<Rightarrow> manager \<Rightarrow> session \<Rightarrow> session \<times> manager \<Rightarrow> bool" where
  "message_effect ms shot now draw p mgr sess sm \<longleftrightarrow>
     (let sess' = heartbeat ms p sess in
        sm = (sess, mgr) \<or> sm = (sess', mgr)
        \<or> (\<exists>a. sm = (store_state p (BeginClientShot (mget (ssStates sess') p) a shot) sess', mgr))
        \<or> (\<exists>a x y. sm = resolveOutcomeLocked now
             (store_state p (CommitLanding (mget (ssStates sess') p) a x y draw) sess', mgr))
        \<or> (\<exists>st a. mget (ssStates sess') p = Some st
             \<and> sm = (sess'\<lparr>ssStates := mput p (st\<lparr>AimAngle := ClampAim a\<rparr>) (ssStates sess')\<rparr>, mgr)))"

lemma message_effects:
  "message_effect ms shot now draw p mgr sess (sess, mgr)"
  "message_effect ms shot now draw p mgr sess (heartbeat ms p sess, mgr)"
  "message_effect ms shot now draw p mgr sess
     (store_state p (BeginClientShot (mget (ssStates (heartbeat ms p sess)) p) a shot) (heartbeat ms p sess), mgr)"
  "message_effect ms shot now draw p mgr sess (resolveOutcomeLocked now
     (store_state p (CommitLanding (mget (ssStates (heartbeat ms p sess)) p) a x y draw) (heartbeat ms p sess), mgr))"
  "mget (ssStates (heartbeat ms p sess)) p = Some st \<Longrightarrow> message_effect ms shot now draw p mgr sess
     ((heartbeat ms p sess)\<lparr>ssStates := mput p (st\<lparr>AimAngle := ClampAim a\<rparr>) (ssStates (heartbeat ms p sess))\<rparr>, mgr)"
  unfolding message_effect_def Let_def by blast+

lemma readWS_session:
  assumes "readWS refresh ms shot now draw k p tok msg s = Some (go, s')" and "mget (gsSessions s) k = Some sess"
  shows "\<exists>sm. mget (gsSessions s') k = Some (fst sm) \<and> gsRoomMgr s' = snd sm
    \<and> message_effect ms shot now draw p (gsRoomMgr s) sess sm"
proof -
  let ?kind = "as_string (jget msg ''type'')" and ?sess = "heartbeat ms p sess"
  have I: "message_effect ms shot now draw p (gsRoomMgr s) sess sm \<Longrightarrow> mget (gsSessions s') k = Some (fst sm)
    \<Longrightarrow> gsRoomMgr s' = snd sm \<Longrightarrow> ?thesis" for sm by blast
  consider (shot) "?kind = ''shot''" | (land) "?kind = ''land''" | (aim) "?kind = ''aim''"
    | (hb) "?kind = ''heartbeat''" | (other) "?kind \<notin> {''shot'', ''land'', ''aim'', ''heartbeat''}" by blast
  then show ?thesis
  proof cases
    case shot
    then show ?thesis using assms
      by (intro I[OF message_effects(3)[where a = "as_float (jget msg ''angle'')"]])
        (auto simp: readWS_def Let_def)
  next
    case land
    then show ?thesis using assms
      by (intro I[OF message_effects(4)[where a = "as_float (jget msg ''angle'')"
          and x = "as_float (jget msg ''x'')" and y = "as_float (jget msg ''y'')"]])
        (auto simp: readWS_def Let_def)
  next
    case aim
    then obtain st where st: "mget (ssStates ?sess) p = Some st" using assms
      by (cases "mget (ssStates ?sess) p") (auto simp: readWS_def Let_def)
    with aim show ?thesis using assms
      by (intro I[OF message_effects(5)[OF st, where a = "as_float (jget msg ''angle'')"]])
        (auto simp: readWS_def Let_def)
  next
    case hb
    then show ?thesis using assms
      by (intro I[OF message_effects(2)]) (auto simp: readWS_def Let_def split: if_splits)
  next
    case other
    then show ?thesis using assms
      by (intro I[OF message_effects(1)]) (auto simp: readWS_def Let_def)
  qed
qed

lemma buildState_winner:
  assumes ok: "session_ok sess" and get: "mget (gsSessions s) k = Some sess" and w: "ssWinnerID sess \<noteq> ''''"
    and b: "\<exists>res. buildState ms now draws k p s = Some (res, s')"
  shows "\<exists>sess'. mget (gsSessions s') k = Some sess' \<and> ssWinnerID sess' = ssWinnerID sess
      \<and> gsRoomMgr s' = gsRoomMgr s"
proof -
  have "applyHeartbeatTimeoutsLocked (timeout_ms s) ms now (sess, gsRoomMgr s) = (sess, gsRoomMgr s)"
    using w by (simp add: applyHeartbeatTimeoutsLocked_def)
  then show ?thesis using b get by (auto simp: buildState_def Let_def split: option.splits)
qed

text \<open>What a landing does to a session that is decided or drawn.\<close>

lemma resolve_winner:
  assumes wfm: "wf_map (ssStates sess)" and w: "ssWinnerID sess \<noteq> ''''" and fin: "ssFinalized sess"
    and all: "\<forall>p. in_session sess p \<and> p \<noteq> ssWinnerID sess \<longrightarrow> lost sess p"
  shows "resolveOutcomeLocked now (sess, mgr) = (sess, mgr)"
proof (cases "length (alive_players sess) = 1")
  case True
  then have "hd (alive_players sess) = ssWinnerID sess" using one_alive[OF wfm True] all by blast
  then show ?thesis using fin by (simp add: resolveOutcomeLocked_def finalizeRoomAfterWinLocked_def Let_def)
next
  case False
  then show ?thesis by (simp add: resolveOutcomeLocked_def Let_def)
qed

lemma landing_loser_stays:
  "CommitLanding (Some st) a x y draw = Inr st' \<Longrightarrow> loser_stays st st'"
  "BeginClientShot (Some st) a t = Inr st' \<Longrightarrow> loser_stays st st'"
  by (auto simp: loser_stays_def CommitLanding_def BeginClientShot_def Let_def split: if_splits)

lemma landing_follows:
  "states_follow sess (store_state p (CommitLanding (mget (ssStates sess) p) a x y draw) sess)"
proof (cases "mget (ssStates sess) p")
  case None
  then show ?thesis by (simp add: no_state store_state_def)
next
  case (Some st)
  then show ?thesis
    using follow_put[OF Some] landing_loser_stays(1)[of st a x y draw]
    by (auto simp: store_state_def split: sum.split)
qed

lemma follow_wf_map: "states_follow a b \<Longrightarrow> wf_map (ssStates b) = wf_map (ssStates a)"
  by (simp add: states_follow_def wf_map_def)

lemma landed_winner:
  assumes ok: "session_ok sess" and w: "ssWinnerID sess \<noteq> ''''"
    and S_def: "S = store_state p (CommitLanding (mget (ssStates (heartbeat ms p sess)) p) a x y draw) (heartbeat ms p sess)"
  shows "wf_map (ssStates S)" and "ssWinnerID S \<noteq> ''''" and "ssFinalized S"
    and "\<forall>q. in_session S q \<and> q \<noteq> ssWinnerID S \<longrightarrow> lost S q"
proof -
  have f: "states_follow sess S"
    unfolding S_def by (rule states_follow_trans[OF follow_heartbeat landing_follows])
  then have o: "outcome_ok S" using outcome_follow ok by (auto simp: session_ok_def)
  show "wf_map (ssStates S)" using follow_wf_map[OF f] ok by (simp add: session_ok_def players_ok_def)
  show w': "ssWinnerID S \<noteq> ''''" using w by (simp add: S_def)
  show "ssFinalized S" and "\<forall>q. in_session S q \<and> q \<noteq> ssWinnerID S \<longrightarrow> lost S q"
    using o w' by (auto simp: outcome_ok_def)
qed

lemma readWS_winner:
  assumes ok: "session_ok sess" and get: "mget (gsSessions s) k = Some sess" and w: "ssWinnerID sess \<noteq> ''''"
    and b: "\<exists>go. readWS refresh ms shot now draw k p tok msg s = Some (go, s')"
  shows "\<exists>sess'. mget (gsSessions s') k = Some sess' \<and> ssWinnerID sess' = ssWinnerID sess
      \<and> gsRoomMgr s' = gsRoomMgr s"
proof -
  let ?sess = "heartbeat ms p sess"
  have res: "resolveOutcomeLocked now (store_state p (CommitLanding (mget (ssStates ?sess) p) a x y draw) ?sess, m)
      = (store_state p (CommitLanding (mget (ssStates ?sess) p) a x y draw) ?sess, m)" for a x y m
    by (rule resolve_winner) (rule landed_winner[OF ok w refl])+
  from b obtain go where b': "readWS refresh ms shot now draw k p tok msg s = Some (go, s')" by blast
  have aim: "ssWinnerID (sess\<lparr>ssStates := sts\<rparr>) = ssWinnerID sess" for sts by simp
  from readWS_session[OF b' get] obtain sm where
    sm: "mget (gsSessions s') k = Some (fst sm)" "gsRoomMgr s' = snd sm"
      "message_effect ms shot now draw p (gsRoomMgr s) sess sm" by blast
  have "ssWinnerID (fst sm) = ssWinnerID sess \<and> snd sm = gsRoomMgr s"
    using sm(3) unfolding message_effect_def Let_def res by auto
  then show ?thesis using sm(1,2) by simp
qed

definition all_lost :: "session \<Rightarrow> bool" where
  "all_lost sess \<longleftrightarrow> (\<forall>p st. mget (ssStates sess) p = Some st \<longrightarrow> Status st = StLose)"

lemma all_lost_alive: "wf_map (ssStates sess) \<Longrightarrow> all_lost sess \<Longrightarrow> alive_players sess = []"
  unfolding alive_players_def all_lost_def by (auto simp: filter_empty_conv wf_map_mem)

lemma resolve_drawn:
  "wf_map (ssStates sess) \<Longrightarrow> all_lost sess \<Longrightarrow> resolveOutcomeLocked now (sess, m) = (sess, m)"
  by (simp add: resolveOutcomeLocked_def all_lost_alive Let_def)

lemma drawn_landing:
  "all_lost sess \<Longrightarrow> store_state p (CommitLanding (mget (ssStates sess) p) a x y draw) sess = sess"
  "all_lost sess \<Longrightarrow> store_state p (BeginClientShot (mget (ssStates sess) p) a t) sess = sess"
  by (cases "mget (ssStates sess) p";
      simp add: no_state store_state_def CommitLanding_def BeginClientShot_def all_lost_def)+

lemma all_lost_heartbeat [simp]: "all_lost (heartbeat ms p sess) = all_lost sess"
  by (simp add: all_lost_def)

lemma buildState_draw:
  assumes get: "mget (gsSessions s) k = Some sess" and ok: "session_ok sess" and w: "ssWinnerID sess = ''''"
    and lost: "\<forall>p st. mget (ssStates sess) p = Some st \<longrightarrow> Status st = StLose"
    and b: "\<exists>res. buildState ms now draws k p s = Some (res, s')"
  shows "(\<exists>sess'. mget (gsSessions s') k = Some sess' \<and> ssWinnerID sess' = '''' \<and> \<not> ssFinalized sess'
      \<and> (\<forall>p st. mget (ssStates sess') p = Some st \<longrightarrow> Status st = StLose))
    \<and> gsRoomMgr s' = gsRoomMgr s"
proof -
  let ?s = "sess\<lparr>ssStates := foldl (expire_player (timeout_ms s) ms) (ssStates sess) (ssLastHeartbeat sess)\<rparr>"
  note e = expire_all[of "timeout_ms s" ms "ssStates sess" "ssLastHeartbeat sess"]
  have wf: "wf_map (ssStates sess)" and fin: "\<not> ssFinalized sess"
    using ok w by (auto simp: session_ok_def players_ok_def outcome_ok_def)
  have wf': "wf_map (ssStates ?s)" using e wf by (simp add: wf_map_def)
  have lost': "all_lost ?s" using e lost by (auto simp: all_lost_def split: if_splits)
  have to: "applyHeartbeatTimeoutsLocked (timeout_ms s) ms now (sess, gsRoomMgr s)
      \<in> {(sess, gsRoomMgr s), (?s, gsRoomMgr s)}"
    using resolve_drawn[OF wf' lost'] by (simp add: applyHeartbeatTimeoutsLocked_def)
  obtain sess1 where sess1: "applyHeartbeatTimeoutsLocked (timeout_ms s) ms now (sess, gsRoomMgr s) = (sess1, gsRoomMgr s)"
    and l1: "all_lost sess1" "ssWinnerID sess1 = ''''" "\<not> ssFinalized sess1"
    using to lost lost' w fin by (auto simp: all_lost_def)
  have "\<forall>q st. mget (tick_states ms draws (ssStates sess1)) q = Some st \<longrightarrow> Status st = StLose"
    using l1(1) by (auto simp: tick_states_def all_lost_def TickState_def)
  then show ?thesis using b get sess1 l1 by (auto simp: buildState_def Let_def split: option.splits)
qed

lemma readWS_draw:
  assumes get: "mget (gsSessions s) k = Some sess" and ok: "session_ok sess" and w: "ssWinnerID sess = ''''"
    and lost: "\<forall>p st. mget (ssStates sess) p = Some st \<longrightarrow> Status st = StLose"
    and b: "\<exists>go. readWS refresh ms shot now draw k p tok msg s = Some (go, s')"
  shows "(\<exists>sess'. mget (gsSessions s') k = Some sess' \<and> ssWinnerID sess' = '''' \<and> \<not> ssFinalized sess'
      \<and> (\<forall>p st. mget (ssStates sess') p = Some st \<longrightarrow> Status st = StLose))
    \<and> gsRoomMgr s' = gsRoomMgr s"
proof -
  let ?sess = "heartbeat ms p sess"
  have wf: "wf_map (ssStates ?sess)" and fin: "\<not> ssFinalized sess"
    using ok w by (auto simp: session_ok_def players_ok_def outcome_ok_def)
  have al: "all_lost (heartbeat ms p sess)" using lost by (simp add: all_lost_def)
  note land = drawn_landing(1)[OF al, of p] and shot = drawn_landing(2)[OF al, of p]
  note res = resolve_drawn[OF wf al]
  from b obtain go where b': "readWS refresh ms shot now draw k p tok msg s = Some (go, s')" by blast
  from readWS_session[OF b' get] obtain sm where
    sm: "mget (gsSessions s') k = Some (fst sm)" "gsRoomMgr s' = snd sm"
      "message_effect ms shot now draw p (gsRoomMgr s) sess sm" by blast
  have "all_lost (?sess\<lparr>ssStates := mput p (st\<lparr>AimAngle := a\<rparr>) (ssStates ?sess)\<rparr>)"
    if "mget (ssStates ?sess) p = Some st" for st a
    using al that unfolding all_lost_def by auto
  moreover have "all_lost sess" using lost by (simp add: all_lost_def)
  ultimately have "ssWinnerID (fst sm) = '''' \<and> \<not> ssFinalized (fst sm) \<and> all_lost (fst sm) \<and> snd sm = gsRoomMgr s"
    using sm(3) w fin al unfolding message_effect_def Let_def land shot res by auto
  then show ?thesis using sm(1,2) by (simp add: all_lost_def)
qed

subsection \<open>A round of the monitor\<close>

lemma monitor_players_iff: "wf_map (gsRoomOfPlayer s) \<Longrightarrow> p \<in> set (monitor_players k s) \<longleftrightarrow> mget (gsRoomOfPlayer s) p = Some k"
  unfolding monitor_players_def by (force simp: wf_map_mem)

lemma monitor_expired_iff:
  "wf_map (gsRoomOfPlayer s) \<Longrightarrow> p \<in> set (monitor_expired ms k s) \<longleftrightarrow> mget (gsRoomOfPlayer s) p = Some k
      \<and> (\<exists>hb. mget (gsRoomLastHB s) p = Some hb \<and> 0 < hb \<and> timeout_ms s < ms - hb)"
  by (auto simp: monitor_expired_def monitor_players_iff get_or_def Let_def split: option.splits)

lemma put_out_simps [simp]:
  "mget (gsRoomOfPlayer (put_out now q s)) p = (if p = q then None else mget (gsRoomOfPlayer s) p)"
  "mget (gsRoomWS (put_out now q s)) p = (if p = q then None else mget (gsRoomWS s) p)"
  by (auto simp: put_out_def Let_def close_old_def close_conn_def split: option.split)

lemma put_out_all:
  assumes "wf_manager (gsRoomMgr s)"
  shows "mget (gsRoomOfPlayer (foldl (\<lambda>s pid. put_out now pid s) s ps)) p
        = (if p \<in> set ps then None else mget (gsRoomOfPlayer s) p)
    \<and> mget (mgPlayerRoom (gsRoomMgr (foldl (\<lambda>s pid. put_out now pid s) s ps))) p
        = (if p \<in> set ps then None else mget (mgPlayerRoom (gsRoomMgr s)) p)
    \<and> mget (gsRoomWS (foldl (\<lambda>s pid. put_out now pid s) s ps)) p
        = (if p \<in> set ps then None else mget (gsRoomWS s) p)
    \<and> gsSessions (foldl (\<lambda>s pid. put_out now pid s) s ps) = gsSessions s"
  using assms
proof (induction ps arbitrary: s)
  case (Cons q ps)
  have "wf_manager (gsRoomMgr (put_out now q s))" using Cons.prems wf_LeaveRoom by simp
  from Cons.IH[OF this] show ?case by (auto simp: LeaveRoom_index[OF Cons.prems])
qed simp

end
