(* ===== verification/GameSpec.thy ===== *)
theory GameSpec
  imports GameProps
begin

text \<open>
  The properties of the game service (\<open>internal/gamesvc/server.go\<close>), each with a witness. The
  sample session is a duel of "ann" and "bob".
\<close>

definition plain_draws :: "nat \<Rightarrow> player_draws" where
  "plain_draws i = \<lparr>dCurrent = 1, dNext = 2, dCoin = (\<lambda>r c. Flt 1), dPick = (\<lambda>r c. 0), dTicket = [of_nat i]\<rparr>"

lemma fair_plain_draws: "\<forall>i. fair_draws (plain_draws i)"
  by (simp add: fair_draws_def plain_draws_def colour_def)

definition duel :: session where
  "duel = fst (new_session 1000 plain_draws ''r1'' [''ann'', ''bob''])"

definition new_player :: player_state where
  "new_player = NewInitialState 1000 1 2 (\<lambda>r c. Flt 1) (\<lambda>r c. 0)"

lemma duel_eq:
  "duel = \<lparr>ssRoomID = ''r1'', ssPlayers = [(''ann'', ()), (''bob'', ())],
     ssTickets = [(''ann'', ''00''), (''bob'', ''01'')],
     ssStates = [(''ann'', new_player), (''bob'', new_player)], ssWinnerID = '''',
     ssLastHeartbeat = [(''ann'', 1000), (''bob'', 1000)], ssFinalized = False\<rparr>"
proof -
  have "randomTicket [0] = ''00''" "randomTicket [1] = ''01''" by code_simp+
  then show ?thesis
    by (simp add: duel_def new_session_def add_player_def new_player_def plain_draws_def Let_def)
qed

lemma duel_ok: "session_ok duel"
  unfolding duel_def by (rule new_session_ok[OF fair_plain_draws]) simp

definition duel_server :: game_server where
  "duel_server = snd (CreateSession 1000 plain_draws
     (Some [(''room_id'', JStr ''r1''), (''players'', JArr [JStr ''ann'', JStr ''bob''])])
     (new_game_server 0 ''ws://game'' 0))"

lemma duel_server_session: "mget (gsSessions duel_server) ''r1'' = Some duel"
  by (simp add: duel_server_def CreateSession_def new_game_server_def duel_def Let_def split_beta)

lemma duel_server_reachable: "game_reachable 0 duel_server"
  unfolding duel_server_def by (rule game_reachable.session[OF game_reachable.start fair_plain_draws])

text \<open>
  C18: in every state the game server can reach, whatever the order of its handlers, monitors
  and requests: each session has well-formed states for its players and no bubble in flight;
  a session without a winner is not finalised, and one with a winner is, the winner is one of
  its at least two players and all others have lost; and the room manager keeps its invariant.
\<close>

theorem game_reachable_invariant:
  assumes "game_reachable t s"
  shows "(\<forall>k sess. mget (gsSessions s) k = Some sess \<longrightarrow>
       (\<forall>p st. mget (ssStates sess) p = Some st \<longrightarrow> wf_state st \<and> Moving st = None)
       \<and> (if ssWinnerID sess = '''' then \<not> ssFinalized sess
          else ssFinalized sess \<and> 2 \<le> length (ssStates sess)
            \<and> mget (ssStates sess) (ssWinnerID sess) \<noteq> None
            \<and> (\<forall>p st. mget (ssStates sess) p = Some st \<and> p \<noteq> ssWinnerID sess \<longrightarrow> Status st = StLose)))
    \<and> wf_manager (gsRoomMgr s)"
proof -
  note ok = game_reachable_ok[OF assms]
  have "(\<forall>p st. mget (ssStates sess) p = Some st \<longrightarrow> wf_state st \<and> Moving st = None)
       \<and> (if ssWinnerID sess = '''' then \<not> ssFinalized sess
          else ssFinalized sess \<and> 2 \<le> length (ssStates sess)
            \<and> mget (ssStates sess) (ssWinnerID sess) \<noteq> None
            \<and> (\<forall>p st. mget (ssStates sess) p = Some st \<and> p \<noteq> ssWinnerID sess \<longrightarrow> Status st = StLose))"
    if "mget (gsSessions s) k = Some sess" for k sess
    using server_session[OF ok that]
    unfolding session_ok_def players_ok_def outcome_ok_def player_ok_def in_session_def lost_def
    by (auto split: if_splits)
  moreover have "wf_manager (gsRoomMgr s)" using ok by (simp add: server_ok_def)
  ultimately show ?thesis by blast
qed

theorem game_reachable_invariant_witness: "wf_manager (gsRoomMgr duel_server)"
  by (rule conjunct2[OF game_reachable_invariant[OF duel_server_reachable]])

text \<open>
  C19: when a session gets its winner, the losers leave their rooms and nobody else does: the
  index forgets exactly them. If the winner's room held only players of the session, the
  winner is now its only member and its owner, and the room is Idle.
\<close>

theorem winner_takes_the_room:
  assumes "wf_manager mgr" and "session_ok sess" and "ssWinnerID sess = ''''"
    and "resolveOutcomeLocked now (sess, mgr) = (sess', mgr')" and "ssWinnerID sess' \<noteq> ''''"
  shows "(\<forall>q. mget (mgPlayerRoom mgr') q
        = (if in_session sess q \<and> q \<noteq> ssWinnerID sess' then None else mget (mgPlayerRoom mgr) q))
    \<and> (\<forall>k r. mget (mgPlayerRoom mgr) (ssWinnerID sess') = Some k \<and> mget (mgRooms mgr) k = Some r
          \<and> (\<forall>q. q \<in> room_members r \<longrightarrow> in_session sess q) \<longrightarrow>
        (\<exists>r'. mget (mgRooms mgr') k = Some r' \<and> room_members r' = {ssWinnerID sess'}
           \<and> rOwnerID r' = ssWinnerID sess' \<and> rState r' = StateIdle))"
proof (intro conjI allI impI)
  let ?w = "ssWinnerID sess'"
  have p: "players_ok sess" "\<not> ssFinalized sess"
    using assms(2,3) by (auto simp: session_ok_def outcome_ok_def)
  note room = winner_room[OF assms(1) p(1) assms(3) p(2) assms(4) refl assms(5)]
  show "mget (mgPlayerRoom mgr') q = (if in_session sess q \<and> q \<noteq> ?w then None else mget (mgPlayerRoom mgr) q)" for q
    using room by simp
  fix k r
  assume h: "mget (mgPlayerRoom mgr) ?w = Some k \<and> mget (mgRooms mgr) k = Some r
    \<and> (\<forall>q. q \<in> room_members r \<longrightarrow> in_session sess q)"
  then have "mget (mgPlayerRoom mgr') ?w = Some k" using room by simp
  then obtain r' where r': "mget (mgRooms mgr') k = Some r'" "?w \<in> room_members r'"
    using rooms.lookup room by blast
  have "q = ?w" if "q \<in> room_members r'" for q
  proof (rule ccontr)
    assume "q \<noteq> ?w"
    have "mget (mgPlayerRoom mgr') q = Some k"
      using rooms.registered[of mgr' k r' q] room r'(1) that by blast
    then have "mget (mgPlayerRoom mgr) q = Some k" and out: "\<not> in_session sess q"
      using room \<open>q \<noteq> ?w\<close> by (simp_all split: if_splits)
    then obtain r0 where "mget (mgRooms mgr) k = Some r0" "q \<in> room_members r0"
      using rooms.lookup[OF assms(1)] by blast
    then have "q \<in> room_members r" using h by simp
    then show False using h out by blast
  qed
  then have mem: "room_members r' = {?w}" using r'(2) by blast
  have wr: "wf_room k r'" using wf_manager_room[of mgr' k r'] room r'(1) by blast
  then have "rOwnerID r' \<in> room_members r'" by (simp add: wf_room_def wf_core_def room_members_iff)
  moreover have "length (rPlayers r') = 1"
    using mem wr wf_map_length[of "rPlayers r'"] by (simp add: wf_room_def wf_core_def room_members_def)
  ultimately show "\<exists>r'. mget (mgRooms mgr') k = Some r' \<and> room_members r' = {?w}
      \<and> rOwnerID r' = ?w \<and> rState r' = StateIdle"
    using r'(1) mem wr by (auto simp: wf_room_def state_ok_def)
qed

definition lost_duel :: session where
  "lost_duel = duel\<lparr>ssStates := [(''ann'', new_player), (''bob'', new_player\<lparr>Status := StLose\<rparr>)]\<rparr>"

lemma new_player_ok: "player_ok new_player \<and> Status new_player = StPlaying"
  using wf_NewInitialState[of 1 2 "\<lambda>r c. 0" 1000 "\<lambda>r c. Flt 1"]
  by (simp add: new_player_def player_ok_def colour_def) (simp add: NewInitialState_def)

lemma lost_duel_ok: "session_ok lost_duel"
proof -
  have "player_ok (new_player\<lparr>Status := StLose\<rparr>)"
    using new_player_ok by (simp add: player_ok_def wf_state_def)
  then have "player_ok st \<and> p \<noteq> ''''" if "mget (ssStates lost_duel) p = Some st" for p st
    using that new_player_ok by (simp add: lost_duel_def split: if_splits)
  moreover have "wf_map (ssStates lost_duel)" "wf_map (ssLastHeartbeat lost_duel)"
    by (simp_all add: lost_duel_def duel_eq wf_map_def)
  ultimately have "players_ok lost_duel" by (simp add: players_ok_def)
  then show ?thesis by (simp add: session_ok_def outcome_ok_def lost_duel_def duel_eq)
qed

definition duel_room :: manager where
  "duel_room = snd (JoinRoom 2 ''bob'' (FormatInt 1) (snd (CreateRoom 1 ''ann'' ''duel'' 2 (NewManager 50))))"

theorem winner_takes_the_room_witness:
  "\<exists>sess' mgr'. resolveOutcomeLocked 5 (lost_duel, duel_room) = (sess', mgr')
     \<and> ssWinnerID sess' = ''ann'' \<and> mget (mgPlayerRoom mgr') ''bob'' = None"
proof -
  have wf: "wf_manager duel_room"
    unfolding duel_room_def by (intro wf_JoinRoom wf_CreateRoom wf_manager_new) (simp add: NewManager_def)
  note lost_duel_ok
  moreover obtain sess' mgr' where r: "resolveOutcomeLocked 5 (lost_duel, duel_room) = (sess', mgr')" by fastforce
  moreover from r have w: "ssWinnerID sess' = ''ann''"
    using new_player_ok by (auto simp: resolveOutcomeLocked_def finalizeRoomAfterWinLocked_def alive_players_def
        lost_duel_def duel_eq Let_def)
  ultimately show ?thesis
    using winner_takes_the_room[OF wf, of lost_duel 5 sess' mgr']
    by (auto simp: lost_duel_def duel_eq in_session_def)
qed

text \<open>
  C20: a winner is final. Once a session has a winner, no state message and no message of any
  player of any session changes the winner, and those of the session itself leave the rooms
  alone.
\<close>

theorem winner_is_final:
  assumes "game_reachable t s" and "mget (gsSessions s) k = Some sess" and "ssWinnerID sess \<noteq> ''''"
    and "(\<exists>res. buildState ms now draws k' p s = Some (res, s'))
      \<or> (\<exists>go. readWS refresh ms shot now draw k' p tok msg s = Some (go, s'))"
  shows "\<exists>sess'. mget (gsSessions s') k = Some sess' \<and> ssWinnerID sess' = ssWinnerID sess
    \<and> (k' = k \<longrightarrow> gsRoomMgr s' = gsRoomMgr s)"
proof (cases "k' = k")
  case False
  then have "mget (gsSessions s') k = mget (gsSessions s) k"
    using assms(4) other_session by blast
  then show ?thesis using assms(2) False by simp
next
  case True
  have ok: "session_ok sess" using server_session[OF game_reachable_ok[OF assms(1)] assms(2)] .
  have "\<exists>sess'. mget (gsSessions s') k = Some sess' \<and> ssWinnerID sess' = ssWinnerID sess
      \<and> gsRoomMgr s' = gsRoomMgr s"
    using assms(4)
  proof
    assume "\<exists>res. buildState ms now draws k' p s = Some (res, s')"
    then show ?thesis using buildState_winner[OF ok assms(2,3)] True by blast
  next
    assume "\<exists>go. readWS refresh ms shot now draw k' p tok msg s = Some (go, s')"
    then show ?thesis using readWS_winner[OF ok assms(2,3)] True by blast
  qed
  then show ?thesis by blast
qed

definition heard_server :: game_server where
  "heard_server = note_alive 4000 ''r1'' ''ann'' (put_session ''r1'' (heartbeat 4000 ''ann'' duel, gsRoomMgr duel_server) duel_server)"

lemma heard_server_reachable: "game_reachable 0 heard_server"
proof -
  have "readWS (\<lambda>_. Some True) 4000 0 0 0 ''r1'' ''ann'' ''tok'' [(''type'', JStr ''heartbeat'')] duel_server
      = Some (True, heard_server)"
    by (simp add: readWS_def heard_server_def duel_server_session refreshToken_def Let_def)
  then show ?thesis by (rule game_reachable.message[OF duel_server_reachable, rotated]) (simp add: colour_def)
qed

text \<open>Two seconds later "bob" has been silent for too long, and "ann" has won.\<close>

lemma ann_wins:
  "\<exists>res s' sess. buildState 6500 0 (\<lambda>_. 0) ''r1'' ''ann'' heard_server = Some (res, s')
     \<and> mget (gsSessions s') ''r1'' = Some sess \<and> ssWinnerID sess = ''ann''"
proof -
  have hb: "heartbeat 4000 ''ann'' duel = duel\<lparr>ssLastHeartbeat := [(''ann'', 4000), (''bob'', 1000)]\<rparr>"
    by (simp add: heartbeat_def duel_eq)
  have to: "timeout_ms heard_server = 5000"
    by (simp add: heard_server_def timeout_ms_def note_alive_def ensureRoomMonitorLocked_def put_session_def
        duel_server_def CreateSession_def new_game_server_def Let_def split_beta)
  have get: "mget (gsSessions heard_server) ''r1'' = Some (heartbeat 4000 ''ann'' duel)"
    by (simp add: heard_server_def)
  obtain m where "applyHeartbeatTimeoutsLocked 5000 6500 0 (heartbeat 4000 ''ann'' duel, gsRoomMgr heard_server)
      = (lost_duel\<lparr>ssLastHeartbeat := [(''ann'', 4000), (''bob'', 1000)], ssWinnerID := ''ann'', ssFinalized := True\<rparr>, m)"
    using new_player_ok unfolding hb
    by (simp add: applyHeartbeatTimeoutsLocked_def lost_duel_def duel_eq expire_player_def
        resolveOutcomeLocked_def alive_players_def finalizeRoomAfterWinLocked_def Let_def)
  then show ?thesis
    by (simp add: buildState_def get to Let_def tick_states_def mmap_vals_def lost_duel_def CloneState_def)
qed

theorem winner_is_final_witness:
  "\<exists>s' s'' sess. game_reachable 0 s' \<and> buildState 6600 0 (\<lambda>_. 0) ''r1'' ''ann'' s' = Some s''
     \<and> mget (gsSessions (snd s'')) ''r1'' = Some sess \<and> ssWinnerID sess = ''ann''"
proof -
  obtain res s' sess where s': "buildState 6500 0 (\<lambda>_. 0) ''r1'' ''ann'' heard_server = Some (res, s')"
    "mget (gsSessions s') ''r1'' = Some sess" "ssWinnerID sess = ''ann''" using ann_wins by blast
  have r: "game_reachable 0 s'" by (rule game_reachable.state[OF heard_server_reachable s'(1)])
  have "mget (ssStates sess) ''ann'' \<noteq> None"
    using game_reachable_ok[OF r] s'(2,3) unfolding server_ok_def session_ok_def outcome_ok_def in_session_def by fastforce
  then obtain res2 s2 where "buildState 6600 0 (\<lambda>_. 0) ''r1'' ''ann'' s' = Some (res2, s2)"
    using s'(2,3) by (auto simp: buildState_def applyHeartbeatTimeoutsLocked_def Let_def CloneState_def tick_states_def)
  then show ?thesis
    using winner_is_final[OF r s'(2), of 6600 0 "\<lambda>_. 0" "''r1''" "''ann''" s2] s'(3) r by fastforce
qed

text \<open>
  C21: only the player of a session gets its game connection. \<open>handleWSGame\<close> attaches a
  connection only for a token the token service says belongs to this player, in a session
  that exists and that gave this player the ticket presented; a connection the player had
  there before is closed. In every other case nothing changes but the refused connection.
\<close>

theorem game_connection_authorised:
  assumes "handleWSGame verify ms q up s = (res, s')"
  defines "k \<equiv> TrimSpace (q ''room_id'')" and "p \<equiv> TrimSpace (q ''player_id'')"
    and "tk \<equiv> TrimSpace (q ''ticket'')" and "tok \<equiv> TrimSpace (q ''token'')"
  shows "if res = Attached then
      (\<exists>sess conn. up = Some conn \<and> verify tok = Some (p, True) \<and> mget (gsSessions s) k = Some sess
         \<and> mget (ssTickets sess) p = Some tk \<and> tk \<noteq> ''''
         \<and> mget (get_or [] (gsWSConns s') k) p = Some conn
         \<and> (\<forall>old. mget (get_or [] (gsWSConns s) k) p = Some old \<longrightarrow> old \<in> set (gsClosed s')))
    else s' = s\<lparr>gsClosed := gsClosed s'\<rparr> \<and> set (gsClosed s') \<subseteq> insert (the up) (set (gsClosed s))"
  using assms(1) unfolding handleWSGame_def Let_def k_def[symmetric] p_def[symmetric] tk_def[symmetric] tok_def[symmetric]
  by (auto simp: verifyToken_def get_or_def close_conn_def close_old_def ensureRoomMonitorLocked_def
      split: if_splits option.splits)

theorem game_connection_authorised_witness:
  "fst (handleWSGame (\<lambda>_. Some (''ann'', True)) 5 (\<lambda>k. if k = ''room_id'' then ''r1'' else if k = ''ticket'' then ''01'' else ''ann'')
      (Some 7) duel_server) \<noteq> Attached"
proof
  let ?q = "\<lambda>k. if k = ''room_id'' then ''r1'' else if k = ''ticket'' then ''01'' else ''ann''"
  assume a: "fst (handleWSGame (\<lambda>_. Some (''ann'', True)) 5 ?q (Some 7) duel_server) = Attached"
  have trim: "TrimSpace ''r1'' = ''r1''" "TrimSpace ''01'' = ''01''" "TrimSpace ''ann'' = ''ann''" by code_simp+
  obtain res s' where h: "handleWSGame (\<lambda>_. Some (''ann'', True)) 5 ?q (Some 7) duel_server = (res, s')" by fastforce
  then show False
    using game_connection_authorised[OF h] a duel_server_session by (simp add: trim duel_eq)
qed

text \<open>
  C22: a draw is never decided. Whenever all players of a session have lost and none has won,
  no later message of a player and no state message changes that: the session stays without a
  winner and its room is never finalised. The witness reaches such a session from a duel
  whose players are both silent for longer than the limit.
\<close>

theorem draw_never_decided:
  assumes "mget (gsSessions s) k = Some sess" and "session_ok sess" and "ssWinnerID sess = ''''"
    and "\<forall>p st. mget (ssStates sess) p = Some st \<longrightarrow> Status st = StLose"
    and "(\<exists>res. buildState ms now draws k p s = Some (res, s'))
      \<or> (\<exists>go. readWS refresh ms shot now draw k p tok msg s = Some (go, s'))"
  shows "(\<exists>sess'. mget (gsSessions s') k = Some sess' \<and> ssWinnerID sess' = '''' \<and> \<not> ssFinalized sess'
      \<and> (\<forall>p st. mget (ssStates sess') p = Some st \<longrightarrow> Status st = StLose))
    \<and> gsRoomMgr s' = gsRoomMgr s"
  using assms(5)
proof
  assume "\<exists>res. buildState ms now draws k p s = Some (res, s')"
  then show ?thesis using buildState_draw[OF assms(1-4)] by blast
next
  assume "\<exists>go. readWS refresh ms shot now draw k p tok msg s = Some (go, s')"
  then show ?thesis using readWS_draw[OF assms(1-4)] by blast
qed

definition drawn_duel :: session where
  "drawn_duel = duel\<lparr>ssStates := [(''ann'', new_player\<lparr>Status := StLose\<rparr>), (''bob'', new_player\<lparr>Status := StLose\<rparr>)]\<rparr>"

lemma both_silent: "applyHeartbeatTimeoutsLocked 5000 6500 0 (duel, m) = (drawn_duel, m)"
  using new_player_ok
  by (simp add: applyHeartbeatTimeoutsLocked_def drawn_duel_def duel_eq expire_player_def
      resolveOutcomeLocked_def alive_players_def Let_def)

theorem draw_never_decided_witness:
  "\<exists>s' sess'. readWS (\<lambda>_. Some True) 7000 0 0 0 ''r1'' ''ann'' ''tok'' [(''type'', JStr ''heartbeat'')]
       (put_session ''r1'' (applyHeartbeatTimeoutsLocked 5000 6500 0 (duel, gsRoomMgr duel_server)) duel_server)
         = Some (True, s')
     \<and> mget (gsSessions s') ''r1'' = Some sess' \<and> ssWinnerID sess' = ''''"
proof -
  let ?s = "put_session ''r1'' (drawn_duel, gsRoomMgr duel_server) duel_server"
  have "\<exists>s'. readWS (\<lambda>_. Some True) 7000 0 0 0 ''r1'' ''ann'' ''tok'' [(''type'', JStr ''heartbeat'')] ?s = Some (True, s')"
    by (simp add: readWS_def refreshToken_def Let_def)
  then obtain s' where s': "readWS (\<lambda>_. Some True) 7000 0 0 0 ''r1'' ''ann'' ''tok'' [(''type'', JStr ''heartbeat'')] ?s = Some (True, s')"
    by blast
  have "mget (gsSessions ?s) ''r1'' = Some drawn_duel" by simp
  moreover have "session_ok drawn_duel"
    using timeouts_session[OF duel_ok both_silent] by blast
  moreover have "ssWinnerID drawn_duel = ''''" by (simp add: drawn_duel_def duel_eq)
  moreover have "\<forall>p st. mget (ssStates drawn_duel) p = Some st \<longrightarrow> Status st = StLose"
    by (simp add: drawn_duel_def)
  ultimately have "\<exists>sess'. mget (gsSessions s') ''r1'' = Some sess' \<and> ssWinnerID sess' = ''''"
    using draw_never_decided[of ?s "''r1''" drawn_duel] s' by blast
  then show ?thesis using s' unfolding both_silent by blast
qed

text \<open>
  C23: one round of the heartbeat monitor of a room puts out exactly the players of the room
  whose last heartbeat is older than the limit: they leave their room and the server forgets
  them, and everybody else stays. The monitor ends exactly when the room had no players.
\<close>

theorem monitor_round:
  assumes "wf_manager (gsRoomMgr s)" and "wf_map (gsRoomOfPlayer s)"
    and "runSingleRoomHeartbeatMonitor ms now k s = (go, s')"
  defines "out \<equiv> \<lambda>p. mget (gsRoomOfPlayer s) p = Some k
      \<and> (\<exists>hb. mget (gsRoomLastHB s) p = Some hb \<and> 0 < hb \<and> timeout_ms s < ms - hb)"
  shows "(\<forall>p. mget (gsRoomOfPlayer s') p = (if out p then None else mget (gsRoomOfPlayer s) p)
       \<and> mget (mgPlayerRoom (gsRoomMgr s')) p = (if out p then None else mget (mgPlayerRoom (gsRoomMgr s)) p)
       \<and> mget (gsRoomWS s') p = (if out p then None else mget (gsRoomWS s) p))
    \<and> (go \<longleftrightarrow> (\<exists>p. mget (gsRoomOfPlayer s) p = Some k))
    \<and> gsSessions s' = gsSessions s"
proof -
  have exp: "p \<in> set (monitor_expired ms k s) \<longleftrightarrow> out p" for p
    unfolding out_def by (rule monitor_expired_iff[OF assms(2)])
  have pl: "length (monitor_players k s) = 0 \<longleftrightarrow> \<not> (\<exists>p. mget (gsRoomOfPlayer s) p = Some k)"
    using monitor_players_iff[OF assms(2), of _ k] by (metis length_0_conv list.set_intros(1) list.set_cases empty_iff empty_set neq_Nil_conv)
  show ?thesis
    using assms(3) put_out_all[OF assms(1), of now "monitor_expired ms k s"] pl
    unfolding runSingleRoomHeartbeatMonitor_def Let_def exp
    by (auto split: if_splits)
qed

theorem monitor_round_witness:
  "\<exists>s'. runSingleRoomHeartbeatMonitor 9500 0 ''r1'' heard_server = (True, s')
     \<and> mget (gsRoomOfPlayer s') ''ann'' = None"
proof -
  have wf: "wf_manager (gsRoomMgr heard_server)"
    using game_reachable_ok[OF heard_server_reachable] by (simp add: server_ok_def)
  have ann: "gsRoomOfPlayer heard_server = [(''ann'', ''r1'')]" "gsRoomLastHB heard_server = [(''ann'', 4000)]"
    "timeout_ms heard_server = 5000"
    by (simp_all add: heard_server_def timeout_ms_def note_alive_def ensureRoomMonitorLocked_def put_session_def
        duel_server_def CreateSession_def new_game_server_def Let_def split_beta)
  obtain go s' where r: "runSingleRoomHeartbeatMonitor 9500 0 ''r1'' heard_server = (go, s')" by fastforce
  then show ?thesis
    using monitor_round[OF wf _ r] by (simp add: ann)
qed

text \<open>
  A game connection that was replaced takes its successor with it. When the loop of the
  old connection ends, its cleanup deletes the player's entry, although it holds the new
  connection; the room connection compares first and keeps it.
\<close>

theorem cleanup_of_replaced_connection:
  assumes "mget (gsWSConns s) k = Some conns" and "mget conns p = Some c2" and "c1 \<noteq> c2"
    and "mget (gsRoomWS s) p = Some c2"
  shows "mget (get_or [] (gsWSConns (handleWSGame_done k p c1 s)) k) p = None
    \<and> mget (gsRoomWS (handleWSRoom_done p c1 s)) p = Some c2"
  using assms by (simp add: handleWSGame_done_def handleWSRoom_done_def Let_def get_or_def close_conn_def)

theorem cleanup_of_replaced_connection_witness:
  "mget (get_or [] (gsWSConns (handleWSGame_done ''r1'' ''ann'' 1
      (duel_server\<lparr>gsWSConns := [(''r1'', [(''ann'', 2)])], gsRoomWS := [(''ann'', 2)]\<rparr>))) ''r1'') ''ann'' = None"
  by (rule conjunct1[OF cleanup_of_replaced_connection[where conns = "[(''ann'', 2)]" and ?c2.0 = 2]]) simp_all

end
