(* ===== verification/Gateway.thy ===== *)
theory Gateway
  imports GoText GoJson Packet
begin

text \<open>
  The gateway: \<open>internal/gateway/tcp_gateway.go\<close>, and the dispatcher it forwards messages with,
  \<open>internal/serviceproxy/dispatcher.go\<close>. A session is an object on a heap, under its
  identifier; the map of sessions and the index of players hold identifiers. The counter of
  sessions is a natural number (64 bits are not exhausted by connections). The token service,
  the services behind the dispatcher and the coding of JSON bodies are functions; \<open>io\<close> says
  which connections fail to write in the step at hand. \<open>gwOut\<close> and \<open>gwWSOut\<close> are the messages
  written completely, in order, and \<open>gwCalls\<close> the remote calls made: the traces the outside
  world sees. A packet is written by two calls of \<open>Write\<close> without a lock; what a failing
  connection received of a packet, and packets of two goroutines mixed on one connection, are
  outside the model.
\<close>

subsection \<open>The commands and services (package protocol)\<close>

definition CmdAuthReq :: "16 word" where "CmdAuthReq = 1001"
definition CmdAuthResp :: "16 word" where "CmdAuthResp = 1002"
definition CmdHeartbeatReq :: "16 word" where "CmdHeartbeatReq = 1003"
definition CmdHeartbeatResp :: "16 word" where "CmdHeartbeatResp = 1004"
definition CmdGameMessage :: "16 word" where "CmdGameMessage = 2001"
definition CmdServerPush :: "16 word" where "CmdServerPush = 3001"
definition CmdError :: "16 word" where "CmdError = 9001"

lemmas cmd_defs = CmdAuthReq_def CmdAuthResp_def CmdHeartbeatReq_def CmdHeartbeatResp_def
  CmdGameMessage_def CmdServerPush_def CmdError_def

definition ServiceAuth :: "16 word" where "ServiceAuth = 2"
definition ServiceLobby :: "16 word" where "ServiceLobby = 3"
definition ServiceMatch :: "16 word" where "ServiceMatch = 4"
definition ServiceRoom :: "16 word" where "ServiceRoom = 5"

record route_envelope =
  ServiceID :: "16 word"
  MsgID :: "16 word"
  Body :: jobj

subsection \<open>The dispatcher\<close>

datatype dispatch_error = UnsupportedService "16 word" | InvokeFailed

text \<open>
  \<open>invoke method request\<close> is the remote call: \<open>None\<close> for an error, else the answer's map;
  \<open>calls\<close> is the trace of the calls made so far.
\<close>

definition Dispatch ::
  "(string \<Rightarrow> jobj \<Rightarrow> jobj option) \<Rightarrow> string \<Rightarrow> route_envelope \<Rightarrow> (string \<times> jobj) list
     \<Rightarrow> (dispatch_error + jobj) \<times> (string \<times> jobj) list" where
  "Dispatch invoke playerID req calls =
     (let request = [(''player_id'', JStr playerID), (''msg_id'', jint (uint (MsgID req))), (''body'', JObj (Body req))];
          call = (\<lambda>method. (case invoke method request of None \<Rightarrow> Inl InvokeFailed | Some out \<Rightarrow> Inr out,
                            calls @ [(method, request)]))
      in if ServiceID req = ServiceLobby then call ''/lobby.LobbyService/HandleGatewayMessage''
         else if ServiceID req = ServiceMatch then call ''/match.MatchService/HandleGatewayMessage''
         else if ServiceID req = ServiceRoom then call ''/room.RoomService/HandleGatewayMessage''
         else (Inl (UnsupportedService (ServiceID req)), calls))"

subsection \<open>Sessions\<close>

record gw_session =
  gwID :: nat
  gwConnectedAt :: int
  gwPlayerID :: string
  gwToken :: string
  gwAuthenticated :: bool
  gwLastSeen :: int

record gateway =
  gwSeq :: nat
  gwHeap :: "(nat, gw_session) gomap"
  gwSessions :: "nat list"
  gwPlayerIndex :: "(string, nat) gomap"
  gwWSByPlayer :: "(string, nat) gomap"
  gwWSToken :: "(string, string) gomap"
  gwClosedConns :: "nat list"
  gwWSClosed :: "nat list"
  gwOut :: "(nat \<times> packet) list"
  gwWSOut :: "(nat \<times> jval) list"
  gwCalls :: "(string \<times> jobj) list"

definition NewTCPGateway :: gateway where
  "NewTCPGateway =
     \<lparr>gwSeq = 0, gwHeap = [], gwSessions = [], gwPlayerIndex = [], gwWSByPlayer = [], gwWSToken = [],
      gwClosedConns = [], gwWSClosed = [], gwOut = [], gwWSOut = [], gwCalls = []\<rparr>"

record gw_services =
  svVerify :: "string \<Rightarrow> (string \<times> bool \<times> string) option"
  svRefresh :: "string \<Rightarrow> (bool \<times> string) option"
  svInvoke :: "string \<Rightarrow> jobj \<Rightarrow> jobj option"
  svParseToken :: "byte list \<Rightarrow> string option"
  svParseRoute :: "byte list \<Rightarrow> route_envelope option"
  svMarshal :: "jobj \<Rightarrow> byte list option"
  svUnmarshal :: "byte list \<Rightarrow> jval option"

text \<open>\<open>payload, _ := json.Marshal\<close>: no bytes if it fails.\<close>

definition marshal :: "gw_services \<Rightarrow> jobj \<Rightarrow> byte list" where
  "marshal sv m = (case svMarshal sv m of None \<Rightarrow> [] | Some b \<Rightarrow> b)"

definition text_bytes :: "string \<Rightarrow> byte list" where
  "text_bytes s = map of_char s"

text \<open>A connection that was closed, or fails now, refuses every write.\<close>

definition conn_write :: "bool \<Rightarrow> byte list \<Rightarrow> byte list \<Rightarrow> unit option \<times> byte list" where
  "conn_write failing bs w = (if failing then (Some (), w) else (None, w @ bs))"

definition writePacket :: "(nat \<Rightarrow> bool) \<Rightarrow> nat \<Rightarrow> packet \<Rightarrow> gateway \<Rightarrow> bool \<times> gateway" where
  "writePacket io sid pkt g =
     (case WritePacket (conn_write (io sid \<or> sid \<in> set (gwClosedConns g))) [] pkt of
        (Some err, w) \<Rightarrow> (True, g)
      | (None, w) \<Rightarrow> (False, g\<lparr>gwOut := gwOut g @ [(sid, pkt)]\<rparr>))"

definition reply :: "16 word \<Rightarrow> 32 word \<Rightarrow> byte list \<Rightarrow> packet" where
  "reply cmd seq payload = \<lparr>pktCmd = cmd, pktSeq = seq, pktPayload = payload\<rparr>"

definition put_gw_session :: "gw_session \<Rightarrow> gateway \<Rightarrow> gateway" where
  "put_gw_session s g = g\<lparr>gwHeap := mput (gwID s) s (gwHeap g)\<rparr>"

subsection \<open>The index of players\<close>

text \<open>
  The index is a \<open>sync.Map\<close>: each of its operations is atomic, but no lock holds them together.
  \<open>bindUniquePlayerSession\<close> and \<open>unbindPlayerSession\<close> are therefore given step by step, as
  between two steps other goroutines may change the index; the whole functions are the steps
  run without interference.
\<close>

definition bind_load :: "gw_session \<Rightarrow> gateway \<Rightarrow> nat option" where
  "bind_load s g = mget (gwPlayerIndex g) (gwPlayerID s)"

text \<open>The session found is told and its connection closed, unless it is the session itself.\<close>

definition bind_kick :: "(nat \<Rightarrow> bool) \<Rightarrow> 32 word \<Rightarrow> gw_session \<Rightarrow> nat option \<Rightarrow> gateway \<Rightarrow> gateway" where
  "bind_kick io seq s found g =
     (case found of
        None \<Rightarrow> g
      | Some old \<Rightarrow>
        if old \<noteq> gwID s
        then (let g' = snd (writePacket io old (reply CmdError seq
                       (text_bytes ''{\"code\":4005,\"msg\":\"kicked_by_new_login\"}'')) g)
              in g'\<lparr>gwClosedConns := old # gwClosedConns g'\<rparr>)
        else g)"

definition bind_store :: "gw_session \<Rightarrow> gateway \<Rightarrow> gateway" where
  "bind_store s g = g\<lparr>gwPlayerIndex := mput (gwPlayerID s) (gwID s) (gwPlayerIndex g)\<rparr>"

definition bindUniquePlayerSession :: "(nat \<Rightarrow> bool) \<Rightarrow> 32 word \<Rightarrow> gw_session \<Rightarrow> gateway \<Rightarrow> gateway" where
  "bindUniquePlayerSession io seq s g =
     (if gwPlayerID s = '''' then g else bind_store s (bind_kick io seq s (bind_load s g) g))"

definition unbind_load :: "gw_session \<Rightarrow> gateway \<Rightarrow> nat option" where
  "unbind_load s g = mget (gwPlayerIndex g) (gwPlayerID s)"

definition unbind_delete :: "gw_session \<Rightarrow> nat option \<Rightarrow> gateway \<Rightarrow> gateway" where
  "unbind_delete s found g =
     (case found of
        None \<Rightarrow> g
      | Some current \<Rightarrow>
        if current = gwID s then g\<lparr>gwPlayerIndex := mdel (gwPlayerID s) (gwPlayerIndex g)\<rparr> else g)"

definition unbindPlayerSession :: "gw_session \<Rightarrow> gateway \<Rightarrow> gateway" where
  "unbindPlayerSession s g =
     (if gwPlayerID s = '''' then g else unbind_delete s (unbind_load s g) g)"

subsection \<open>The handlers; the boolean is whether there was an error, which ends the session\<close>

definition handleAuth ::
  "gw_services \<Rightarrow> (nat \<Rightarrow> bool) \<Rightarrow> 32 word \<Rightarrow> gw_session \<Rightarrow> packet \<Rightarrow> gateway \<Rightarrow> bool \<times> gateway" where
  "handleAuth sv io pushSeq s pkt g =
     (let answer = (\<lambda>payload. writePacket io (gwID s) (reply CmdAuthResp (pktSeq pkt) payload)) in
      case svParseToken sv (pktPayload pkt) of
        None \<Rightarrow> answer (text_bytes ''{\"ok\":false,\"reason\":\"bad_json\"}'') g
      | Some token \<Rightarrow>
        if token = '''' then answer (text_bytes ''{\"ok\":false,\"reason\":\"missing_token\"}'') g
        else
          (case svVerify sv token of
             None \<Rightarrow> answer (text_bytes ''{\"ok\":false,\"reason\":\"verify_service_error\"}'') g
           | Some (playerID, ok, reason) \<Rightarrow>
             if \<not> ok \<or> playerID = ''''
             then (let reason' = (if reason = '''' then ''invalid_token'' else reason)
                   in answer (marshal sv [(''ok'', JBool False), (''reason'', JStr reason')]) g)
             else
               (let s1 = s\<lparr>gwAuthenticated := True, gwPlayerID := playerID, gwToken := token\<rparr>;
                    g1 = bindUniquePlayerSession io pushSeq s1 (put_gw_session s1 g)
                in answer (marshal sv [(''ok'', JBool True), (''player_id'', JStr playerID)]) g1)))"

definition handleHeartbeat ::
  "gw_services \<Rightarrow> (nat \<Rightarrow> bool) \<Rightarrow> string \<Rightarrow> gw_session \<Rightarrow> 32 word \<Rightarrow> gateway \<Rightarrow> bool \<times> gateway" where
  "handleHeartbeat sv io clock s seq g =
     (let answer = (\<lambda>cmd payload. writePacket io (gwID s) (reply cmd seq payload)) in
      if \<not> gwAuthenticated s then answer CmdError (text_bytes ''{\"code\":4002,\"msg\":\"unauthorized\"}'') g
      else
        (case svRefresh sv (gwToken s) of
           None \<Rightarrow> (True, snd (answer CmdError (text_bytes ''{\"code\":5001,\"msg\":\"refresh_token_failed\"}'') g))
         | Some (ok, reason) \<Rightarrow>
           if \<not> ok
           then (let reason' = (if reason = '''' then ''token_invalid'' else reason)
                 in (True, snd (answer CmdError (marshal sv
                      [(''code'', jint 4006), (''msg'', JStr ''token_invalid''), (''reason'', JStr reason')]) g)))
           else answer CmdHeartbeatResp (text_bytes (''{\"ts\":'' @ clock @ ''}'')) g))"

definition handleGameMessage ::
  "gw_services \<Rightarrow> (nat \<Rightarrow> bool) \<Rightarrow> gw_session \<Rightarrow> packet \<Rightarrow> gateway \<Rightarrow> bool \<times> gateway" where
  "handleGameMessage sv io s pkt g =
     (let answer = (\<lambda>cmd payload. writePacket io (gwID s) (reply cmd (pktSeq pkt) payload)) in
      if \<not> gwAuthenticated s then answer CmdError (text_bytes ''{\"code\":4002,\"msg\":\"unauthorized\"}'') g
      else
        (case svParseRoute sv (pktPayload pkt) of
           None \<Rightarrow> answer CmdGameMessage (text_bytes ''{\"code\":4003,\"msg\":\"bad_route_message_json\"}'') g
         | Some req \<Rightarrow>
           if ServiceID req = 0 \<or> MsgID req = 0
             then answer CmdGameMessage (text_bytes ''{\"code\":4004,\"msg\":\"missing_service_or_msg_id\"}'') g
           else if ServiceID req = ServiceAuth
             then answer CmdGameMessage
               (text_bytes ''{\"code\":4007,\"msg\":\"auth_service_not_allowed_after_login\"}'') g
           else
             (case Dispatch (svInvoke sv) (gwPlayerID s) req (gwCalls g) of
                (res, calls) \<Rightarrow>
                  (let g1 = g\<lparr>gwCalls := calls\<rparr>
                   in case res of
                        Inl err \<Rightarrow> answer CmdGameMessage (text_bytes ''{\"code\":5000,\"msg\":\"internal_error\"}'') g1
                      | Inr resp \<Rightarrow>
                        (case svMarshal sv resp of
                           None \<Rightarrow> (True, g1)
                         | Some data \<Rightarrow> answer CmdGameMessage data g1)))))"

definition dispatch_packet ::
  "gw_services \<Rightarrow> (nat \<Rightarrow> bool) \<Rightarrow> 32 word \<Rightarrow> string \<Rightarrow> gw_session \<Rightarrow> packet \<Rightarrow> gateway \<Rightarrow> bool \<times> gateway" where
  "dispatch_packet sv io pushSeq clock s pkt g =
     (if pktCmd pkt = CmdAuthReq then handleAuth sv io pushSeq s pkt g
      else if pktCmd pkt = CmdHeartbeatReq then handleHeartbeat sv io clock s (pktSeq pkt) g
      else if pktCmd pkt = CmdGameMessage then handleGameMessage sv io s pkt g
      else writePacket io (gwID s)
             (reply CmdError (pktSeq pkt) (text_bytes ''{\"code\":4001,\"msg\":\"unknown cmd\"}'')) g)"

subsection \<open>The loop of a connection\<close>

text \<open>\<open>handleConn\<close> up to its loop: a new session.\<close>

definition accept_conn :: "int \<Rightarrow> gateway \<Rightarrow> nat \<times> gateway" where
  "accept_conn now g =
     (let sessionID = gwSeq g + 1;
          s = \<lparr>gwID = sessionID, gwConnectedAt = now, gwPlayerID = '''', gwToken = '''',
               gwAuthenticated = False, gwLastSeen = now\<rparr>
      in (sessionID,
          (put_gw_session s g)\<lparr>gwSeq := sessionID, gwSessions := sessionID # gwSessions g\<rparr>))"

text \<open>What one \<open>ReadPacket\<close> of the loop ends with.\<close>

datatype read_event = GotPacket packet | GotEOF | GotTimeout | GotError

text \<open>One round of the loop at time \<open>now\<close>; the boolean says whether it goes on.\<close>

definition handleConn_round ::
  "gw_services \<Rightarrow> (nat \<Rightarrow> bool) \<Rightarrow> 32 word \<Rightarrow> string \<Rightarrow> int \<Rightarrow> int \<Rightarrow> int \<Rightarrow> nat \<Rightarrow> read_event \<Rightarrow> gateway \<Rightarrow> bool \<times> gateway" where
  "handleConn_round sv io pushSeq clock authTimeout idleTimeout now sid ev g =
     (case mget (gwHeap g) sid of
        None \<Rightarrow> (False, g)
      | Some s \<Rightarrow>
        (case ev of
           GotEOF \<Rightarrow> (False, g)
         | GotError \<Rightarrow> (False, g)
         | GotTimeout \<Rightarrow>
           if \<not> gwAuthenticated s \<and> now - gwConnectedAt s > authTimeout then (False, g)
           else if now - gwLastSeen s > idleTimeout then (False, g)
           else (True, g)
         | GotPacket pkt \<Rightarrow>
           (let s1 = s\<lparr>gwLastSeen := now\<rparr>
            in (case dispatch_packet sv io pushSeq clock s1 pkt (put_gw_session s1 g) of
                  (err, g1) \<Rightarrow> (\<not> err, g1)))))"

text \<open>The deferred cleanup: the session leaves the map and the index, and its connection closes.\<close>

definition handleConn_done :: "nat \<Rightarrow> gateway \<Rightarrow> gateway" where
  "handleConn_done sid g =
     (case mget (gwHeap g) sid of
        None \<Rightarrow> g
      | Some s \<Rightarrow>
        (let g1 = unbindPlayerSession s (g\<lparr>gwSessions := filter (\<lambda>i. i \<noteq> sid) (gwSessions g)\<rparr>)
         in g1\<lparr>gwClosedConns := sid # gwClosedConns g1\<rparr>))"

subsection \<open>Pushing\<close>

definition writeWSPayload ::
  "gw_services \<Rightarrow> (nat \<Rightarrow> bool) \<Rightarrow> nat \<Rightarrow> 16 word \<Rightarrow> byte list \<Rightarrow> gateway \<Rightarrow> bool \<times> gateway" where
  "writeWSPayload sv wsio c cmd payload g =
     (let out = (if length payload > 0
                 then (case svUnmarshal sv payload of
                     None \<Rightarrow> JObj [(''cmd'', jint (uint cmd)), (''payload'', JStr (map (char_of \<circ> unat) payload))]
                   | Some v \<Rightarrow> v)
                 else JObj [(''cmd'', jint (uint cmd))])
      in if wsio c \<or> c \<in> set (gwWSClosed g) then (True, g)
         else (False, g\<lparr>gwWSOut := gwWSOut g @ [(c, out)]\<rparr>))"

text \<open>A websocket that fails is closed and forgotten.\<close>

definition drop_ws :: "string \<Rightarrow> nat \<Rightarrow> gateway \<Rightarrow> gateway" where
  "drop_ws playerID c g =
     g\<lparr>gwWSClosed := c # gwWSClosed g, gwWSByPlayer := mdel playerID (gwWSByPlayer g),
       gwWSToken := mdel playerID (gwWSToken g)\<rparr>"

text \<open>
  \<open>PushToPlayer\<close> in its two halves, the indexed session and the lobby websocket; the result is
  \<open>None\<close> for an empty player, else the number of pushes and whether one failed.
\<close>

definition push_player_tcp :: "(nat \<Rightarrow> bool) \<Rightarrow> packet \<Rightarrow> string \<Rightarrow> gateway \<Rightarrow> nat \<times> bool \<times> gateway" where
  "push_player_tcp io pkt playerID g =
     (case mget (gwPlayerIndex g) playerID of
        None \<Rightarrow> (0, False, g)
      | Some sid \<Rightarrow>
        (case writePacket io sid pkt g of (err, g') \<Rightarrow> if err then (0, True, g') else (1, False, g')))"

definition push_player_ws ::
  "gw_services \<Rightarrow> (nat \<Rightarrow> bool) \<Rightarrow> string \<Rightarrow> 16 word \<Rightarrow> byte list \<Rightarrow> nat \<times> bool \<times> gateway \<Rightarrow> nat \<times> bool \<times> gateway" where
  "push_player_ws sv wsio playerID cmd payload acc =
     (case acc of (n, failed, g) \<Rightarrow>
        (case mget (gwWSByPlayer g) playerID of
           None \<Rightarrow> (n, failed, g)
         | Some c \<Rightarrow>
           (case writeWSPayload sv wsio c cmd payload g of
              (err, g') \<Rightarrow> if err then (n, True, drop_ws playerID c g') else (n + 1, failed, g'))))"

definition PushToPlayer ::
  "gw_services \<Rightarrow> (nat \<Rightarrow> bool) \<Rightarrow> (nat \<Rightarrow> bool) \<Rightarrow> 32 word \<Rightarrow> string \<Rightarrow> 16 word \<Rightarrow> byte list \<Rightarrow> gateway
     \<Rightarrow> (nat \<times> bool) option \<times> gateway" where
  "PushToPlayer sv io wsio seq playerID cmd payload g =
     (if playerID = '''' then (None, g)
      else
        (case push_player_ws sv wsio playerID cmd payload (push_player_tcp io (reply cmd seq payload) playerID g) of
           (n, failed, g') \<Rightarrow> (Some (n, failed), g')))"

definition PushToSession :: "(nat \<Rightarrow> bool) \<Rightarrow> 32 word \<Rightarrow> nat \<Rightarrow> 16 word \<Rightarrow> byte list \<Rightarrow> gateway \<Rightarrow> bool option \<times> gateway" where
  "PushToSession io seq sid cmd payload g =
     (if sid \<notin> set (gwSessions g) then (None, g)
      else (case writePacket io sid (reply cmd seq payload) g of (err, g') \<Rightarrow> (Some err, g')))"

definition push_tcp :: "(nat \<Rightarrow> bool) \<Rightarrow> packet \<Rightarrow> nat \<times> bool \<times> gateway \<Rightarrow> string \<times> nat \<Rightarrow> nat \<times> bool \<times> gateway" where
  "push_tcp io pkt acc e =
     (case acc of (n, failed, g) \<Rightarrow>
        (case writePacket io (snd e) pkt g of (err, g') \<Rightarrow> if err then (n, True, g') else (n + 1, failed, g')))"

definition push_ws ::
  "gw_services \<Rightarrow> (nat \<Rightarrow> bool) \<Rightarrow> 16 word \<Rightarrow> byte list \<Rightarrow> nat \<times> bool \<times> gateway \<Rightarrow> string \<times> nat \<Rightarrow> nat \<times> bool \<times> gateway" where
  "push_ws sv wsio cmd payload acc e =
     (case acc of (n, failed, g) \<Rightarrow>
        (case writeWSPayload sv wsio (snd e) cmd payload g of
           (err, g') \<Rightarrow> if err then (n, True, drop_ws (fst e) (snd e) g') else (n + 1, failed, g')))"

definition PushToAll ::
  "gw_services \<Rightarrow> (nat \<Rightarrow> bool) \<Rightarrow> (nat \<Rightarrow> bool) \<Rightarrow> 32 word \<Rightarrow> 16 word \<Rightarrow> byte list \<Rightarrow> gateway \<Rightarrow> (nat \<times> bool) \<times> gateway" where
  "PushToAll sv io wsio seq cmd payload g =
     (case foldl (push_tcp io (reply cmd seq payload)) (0, False, g) (gwPlayerIndex g) of
        (n, failed, g1) \<Rightarrow>
          (case foldl (push_ws sv wsio cmd payload) (n, failed, g1) (gwWSByPlayer g1) of
             (n', failed', g2) \<Rightarrow> ((n', failed'), g2)))"

definition OnlineCount :: "gateway \<Rightarrow> nat" where
  "OnlineCount g = length (gwSessions g)"

subsection \<open>The lobby websocket\<close>

datatype lobby_open = LobbyMissingToken | LobbyUnauthorized | LobbyUpgradeFailed | LobbyConnected string

definition handleLobbyWS ::
  "gw_services \<Rightarrow> string \<Rightarrow> nat option \<Rightarrow> gateway \<Rightarrow> lobby_open \<times> gateway" where
  "handleLobbyWS sv query upgraded g =
     (let token = TrimSpace query
      in if token = '''' then (LobbyMissingToken, g)
         else
           (case svVerify sv token of
              None \<Rightarrow> (LobbyUnauthorized, g)
            | Some (playerID, ok, reason) \<Rightarrow>
              if \<not> ok \<or> playerID = '''' then (LobbyUnauthorized, g)
              else
                (case upgraded of
                   None \<Rightarrow> (LobbyUpgradeFailed, g)
                 | Some conn \<Rightarrow>
                   (let g1 = (case mget (gwWSByPlayer g) playerID of
                                None \<Rightarrow> g
                              | Some old \<Rightarrow> g\<lparr>gwWSClosed := old # gwWSClosed g\<rparr>);
                        g2 = g1\<lparr>gwWSByPlayer := mput playerID conn (gwWSByPlayer g1),
                                gwWSToken := mput playerID token (gwWSToken g1),
                                gwWSOut := gwWSOut g1 @ [(conn, JObj [(''type'', JStr ''lobby_connected''),
                                                                     (''player_id'', JStr playerID)])]\<rparr>
                    in (LobbyConnected playerID, g2)))))"

definition handleLobbyWS_message ::
  "gw_services \<Rightarrow> int \<Rightarrow> string \<Rightarrow> nat \<Rightarrow> jobj \<Rightarrow> gateway \<Rightarrow> bool \<times> gateway" where
  "handleLobbyWS_message sv nowMS token conn msg g =
     (if as_string (jget msg ''type'') = ''heartbeat''
      then (case svRefresh sv token of
          Some (True, reason) \<Rightarrow>
            (True, g\<lparr>gwWSOut := gwWSOut g @ [(conn, JObj [(''type'', JStr ''heartbeat_ack''), (''ts'', jint nowMS)])]\<rparr>)
        | _ \<Rightarrow> (False, g\<lparr>gwWSOut := gwWSOut g @ [(conn, JObj [(''type'', JStr ''error''), (''msg'', JStr ''token_invalid'')])]\<rparr>))
      else (True, g))"

definition handleLobbyWS_done :: "string \<Rightarrow> nat \<Rightarrow> gateway \<Rightarrow> gateway" where
  "handleLobbyWS_done playerID conn g =
     (let g1 = (if mget (gwWSByPlayer g) playerID = Some conn
                then g\<lparr>gwWSByPlayer := mdel playerID (gwWSByPlayer g), gwWSToken := mdel playerID (gwWSToken g)\<rparr>
                else g)
      in g1\<lparr>gwWSClosed := conn # gwWSClosed g1\<rparr>)"

end
