(* ===== verification/GatewaySpec.thy ===== *)
theory GatewaySpec
  imports Gateway
begin

text \<open>
  The properties of the gateway (\<open>internal/gateway/tcp_gateway.go\<close>), its invariant and the
  states it can reach.
\<close>

subsection \<open>Authenticated sessions\<close>

definition token_valid :: "gw_services \<Rightarrow> string \<Rightarrow> string \<Rightarrow> bool" where
  "token_valid sv token playerID \<longleftrightarrow> (\<exists>reason. svVerify sv token = Some (playerID, True, reason))"

text \<open>\<open>acc token player\<close>: the token service accepted the token for the player at some time.\<close>

definition gw_session_ok :: "(string \<Rightarrow> string \<Rightarrow> bool) \<Rightarrow> nat \<Rightarrow> gw_session \<Rightarrow> bool" where
  "gw_session_ok acc i s \<longleftrightarrow>
     gwID s = i
     \<and> (if gwAuthenticated s then gwPlayerID s \<noteq> '''' \<and> acc (gwToken s) (gwPlayerID s)
        else gwPlayerID s = '''')"

definition authenticated :: "gateway \<Rightarrow> nat \<Rightarrow> bool" where
  "authenticated g i \<longleftrightarrow> (\<exists>s. mget (gwHeap g) i = Some s \<and> gwAuthenticated s)"

definition gateway_ok :: "(string \<Rightarrow> string \<Rightarrow> bool) \<Rightarrow> gateway \<Rightarrow> bool" where
  "gateway_ok acc g \<longleftrightarrow>
     (\<forall>i s. mget (gwHeap g) i = Some s \<longrightarrow> gw_session_ok acc i s \<and> i \<le> gwSeq g)
     \<and> (\<forall>i \<in> set (gwSessions g). mget (gwHeap g) i \<noteq> None)
     \<and> (\<forall>p i. mget (gwPlayerIndex g) p = Some i \<longrightarrow> authenticated g i)"

text \<open>The index of players is an index of authenticated sessions, of any player: a second login may leave an entry behind.\<close>

definition online_members :: "gw_session \<Rightarrow> string set" where
  "online_members s = {p. gwAuthenticated s}"

lemma online_members_iff: "p \<in> online_members s \<longleftrightarrow> gwAuthenticated s"
  by (simp add: online_members_def)

interpretation online: seat_index gwHeap gwPlayerIndex online_members "gateway_ok acc" for acc
  by unfold_locales (simp add: gateway_ok_def authenticated_def online_members_iff)

text \<open>What no operation but a login, an accepted connection and a cleanup touches.\<close>

definition same_core :: "gateway \<Rightarrow> gateway \<Rightarrow> bool" where
  "same_core g g' \<longleftrightarrow> gwSeq g' = gwSeq g \<and> gwHeap g' = gwHeap g \<and> gwSessions g' = gwSessions g
     \<and> gwPlayerIndex g' = gwPlayerIndex g"

lemma same_core_refl [simp]: "same_core g g"
  by (simp add: same_core_def)

lemma same_core_trans: "same_core a b \<Longrightarrow> same_core b c \<Longrightarrow> same_core a c"
  by (simp add: same_core_def)

lemma same_core_calls [simp]: "same_core (g\<lparr>gwCalls := c\<rparr>) g' = same_core g g'" "same_core g (g'\<lparr>gwCalls := c\<rparr>) = same_core g g'"
  by (simp_all add: same_core_def)

lemma gateway_ok_core: "same_core g g' \<Longrightarrow> gateway_ok acc g \<Longrightarrow> gateway_ok acc g'"
  by (simp add: same_core_def gateway_ok_def authenticated_def)

lemma writePacket_core [simp]: "same_core g (snd (writePacket io i pkt g))"
  by (auto simp: writePacket_def same_core_def split: prod.split option.split)

lemma writePacket_calls_core [simp]: "same_core g (snd (writePacket io i pkt (g\<lparr>gwCalls := c\<rparr>)))"
  using writePacket_core[of "g\<lparr>gwCalls := c\<rparr>" io i pkt] unfolding same_core_calls .

lemma writePacket_coreD: "writePacket io i pkt g = (err, g') \<Longrightarrow> same_core g g'"
  using writePacket_core[of g io i pkt] by simp

lemma writePacket_closed [simp]: "gwClosedConns (snd (writePacket io i pkt g)) = gwClosedConns g"
  by (auto simp: writePacket_def split: prod.split option.split)

lemma writeWSPayload_core [simp]: "same_core g (snd (writeWSPayload sv wsio c cmd payload g))"
  by (simp add: writeWSPayload_def same_core_def Let_def)

lemma drop_ws_core [simp]: "same_core g (drop_ws p c g)"
  by (simp add: drop_ws_def same_core_def)

lemma writeWSPayload_coreD: "writeWSPayload sv wsio c cmd payload g = (err, g') \<Longrightarrow> same_core g g'"
  using writeWSPayload_core[of g sv wsio c cmd payload] by simp

lemma push_player_tcp_core: "same_core g (snd (snd (push_player_tcp io pkt p g)))"
  by (auto simp: push_player_tcp_def dest: writePacket_coreD split: option.split prod.split)

lemma push_player_ws_core:
  "same_core g (snd (snd acc)) \<Longrightarrow> same_core g (snd (snd (push_player_ws sv wsio p cmd payload acc)))"
  by (cases acc)
    (auto simp: push_player_ws_def dest!: writeWSPayload_coreD split: option.split prod.split
      intro: same_core_trans same_core_trans[OF same_core_trans drop_ws_core])

lemma PushToPlayer_core: "same_core g (snd (PushToPlayer sv io wsio seq p cmd payload g))"
  using push_player_ws_core[OF push_player_tcp_core, of g sv wsio p cmd payload io "reply cmd seq payload" p]
  by (auto simp: PushToPlayer_def split: prod.split)

lemma push_tcp_core: "same_core g (snd (snd acc)) \<Longrightarrow> same_core g (snd (snd (push_tcp io pkt acc e)))"
  using writePacket_core[of "snd (snd acc)" io "snd e" pkt] same_core_trans
  by (cases acc) (fastforce simp: push_tcp_def split: prod.splits)

lemma push_ws_core: "same_core g (snd (snd acc)) \<Longrightarrow> same_core g (snd (snd (push_ws sv wsio cmd payload acc e)))"
  using writeWSPayload_core[of "snd (snd acc)" sv wsio "snd e" cmd payload] same_core_trans
    same_core_trans[OF _ drop_ws_core]
  by (cases acc) (fastforce simp: push_ws_def split: prod.splits)

lemma PushToAll_core: "same_core g (snd (PushToAll sv io wsio seq cmd payload g))"
proof -
  obtain n f g1 where 1: "foldl (push_tcp io (reply cmd seq payload)) (0, False, g) (gwPlayerIndex g) = (n, f, g1)"
    by (rule prod_cases3)
  have "same_core g (snd (snd (foldl (push_tcp io (reply cmd seq payload)) (0, False, g) (gwPlayerIndex g))))"
    by (rule foldl_invariant[where P = "\<lambda>acc. same_core g (snd (snd acc))"]) (auto intro: push_tcp_core)
  then have "same_core g g1" using 1 by simp
  then have "same_core g (snd (snd (foldl (push_ws sv wsio cmd payload) (n, f, g1) (gwWSByPlayer g1))))"
    by (intro foldl_invariant[where P = "\<lambda>acc. same_core g (snd (snd acc))"]) (auto intro: push_ws_core)
  then show ?thesis using 1 by (auto simp: PushToAll_def split: prod.splits)
qed

lemma lobby_core:
  "same_core g (snd (handleLobbyWS sv q up g))"
  "same_core g (snd (handleLobbyWS_message sv ms tok c msg g))"
  "same_core g (handleLobbyWS_done p c g)"
  by (auto simp: handleLobbyWS_def handleLobbyWS_message_def handleLobbyWS_done_def same_core_def Let_def
      split: option.split prod.split bool.split)

subsection \<open>Logging in\<close>

lemmas bind_defs = bindUniquePlayerSession_def bind_load_def bind_kick_def bind_store_def
lemmas unbind_defs = unbindPlayerSession_def unbind_load_def unbind_delete_def

lemma bind_kick_core [simp]: "same_core g (bind_kick io seq s found g)"
  using writePacket_core[of g io] by (auto simp: bind_kick_def Let_def same_core_def split: option.split)

lemma bind_core:
  "gwPlayerID s \<noteq> '''' \<Longrightarrow>
     gwHeap (bindUniquePlayerSession io seq s g) = gwHeap g
     \<and> gwSeq (bindUniquePlayerSession io seq s g) = gwSeq g
     \<and> gwSessions (bindUniquePlayerSession io seq s g) = gwSessions g
     \<and> gwPlayerIndex (bindUniquePlayerSession io seq s g) = mput (gwPlayerID s) (gwID s) (gwPlayerIndex g)"
  using bind_kick_core[of g io seq s "bind_load s g"]
  by (simp add: bindUniquePlayerSession_def bind_store_def same_core_def)

lemma bind_ok:
  assumes ok: "gateway_ok acc g" and s: "mget (gwHeap g) i = Some s0" and new: "gw_session_ok acc i s" "gwAuthenticated s"
  shows "gateway_ok acc (bindUniquePlayerSession io seq s (put_gw_session s g))"
proof -
  have id: "gwID s = i" and p: "gwPlayerID s \<noteq> ''''" using new by (auto simp: gw_session_ok_def)
  show ?thesis
    using ok s new bind_core[OF p, of io seq "put_gw_session s g"]
    unfolding gateway_ok_def authenticated_def by (auto simp: put_gw_session_def id)
qed

text \<open>What a packet can do: nothing to the core, or log its session in.\<close>

lemma dispatch_core:
  assumes "dispatch_packet sv io ps clock s pkt g = (err, g')"
  shows "same_core g g' \<or>
    (\<exists>token p. p \<noteq> '''' \<and> token_valid sv token p \<and>
       same_core (bindUniquePlayerSession io ps (s\<lparr>gwAuthenticated := True, gwPlayerID := p, gwToken := token\<rparr>)
         (put_gw_session (s\<lparr>gwAuthenticated := True, gwPlayerID := p, gwToken := token\<rparr>) g)) g')"
proof -
  have w: "same_core h (snd (writePacket io i q h))" for h i q by simp
  have hb: "same_core g (snd (handleHeartbeat sv io clock s seq g))" for seq
    by (auto simp: handleHeartbeat_def Let_def split: option.split prod.split)
  have gm: "same_core g (snd (handleGameMessage sv io s pkt g))"
    by (simp add: handleGameMessage_def Let_def split: option.split sum.split prod.split)
  show ?thesis
  proof (cases "pktCmd pkt = CmdAuthReq")
    case False
    then have "g' = snd (handleHeartbeat sv io clock s (pktSeq pkt) g) \<or> g' = snd (handleGameMessage sv io s pkt g)
        \<or> g' = snd (writePacket io (gwID s)
             (reply CmdError (pktSeq pkt) (text_bytes ''{\"code\":4001,\"msg\":\"unknown cmd\"}'')) g)"
      using assms unfolding dispatch_packet_def by (metis snd_conv)
    then have "same_core g g'" using hb gm w by metis
    then show ?thesis ..
  next
    case True
    then have a: "handleAuth sv io ps s pkt g = (err, g')" using assms by (simp add: dispatch_packet_def)
    show ?thesis
    proof (cases "\<exists>token p reason. svParseToken sv (pktPayload pkt) = Some token \<and> token \<noteq> ''''
        \<and> svVerify sv token = Some (p, True, reason) \<and> p \<noteq> ''''")
      case False
      then have "same_core g (snd (handleAuth sv io ps s pkt g))"
        by (auto simp: handleAuth_def Let_def split: option.split prod.split)
      then show ?thesis using a by simp
    next
      case True
      then obtain token p reason where t: "svParseToken sv (pktPayload pkt) = Some token" "token \<noteq> ''''"
        "svVerify sv token = Some (p, True, reason)" "p \<noteq> ''''" by blast
      let ?s = "s\<lparr>gwAuthenticated := True, gwPlayerID := p, gwToken := token\<rparr>"
      have "g' = snd (writePacket io (gwID s) (reply CmdAuthResp (pktSeq pkt) (marshal sv
          [(''ok'', JBool True), (''player_id'', JStr p)])) (bindUniquePlayerSession io ps ?s (put_gw_session ?s g)))"
        using a t by (simp add: handleAuth_def Let_def)
      moreover have "token_valid sv token p" using t(3) by (auto simp: token_valid_def)
      ultimately show ?thesis using t(4) w by blast
    qed
  qed
qed

lemma gateway_ok_see:
  "gateway_ok acc g \<Longrightarrow> mget (gwHeap g) i = Some s \<Longrightarrow> gateway_ok acc (put_gw_session (s\<lparr>gwLastSeen := t\<rparr>) g)"
  unfolding gateway_ok_def authenticated_def
  by (auto simp: put_gw_session_def gw_session_ok_def split: if_splits) fastforce

lemma gateway_ok_round:
  assumes ok: "gateway_ok acc g" and sub: "\<And>tok p. token_valid sv tok p \<Longrightarrow> acc tok p"
  shows "gateway_ok acc (snd (handleConn_round sv io ps clock aut idl now i ev g))"
proof (cases "mget (gwHeap g) i")
  case None
  then show ?thesis using ok by (simp add: handleConn_round_def)
next
  case (Some s)
  let ?s = "s\<lparr>gwLastSeen := now\<rparr>"
  have id: "gwID s = i" using ok Some by (auto simp: gateway_ok_def gw_session_ok_def)
  have ok1: "gateway_ok acc (put_gw_session ?s g)" by (rule gateway_ok_see[OF ok Some])
  have get: "mget (gwHeap (put_gw_session ?s g)) i = Some ?s" by (simp add: put_gw_session_def id)
  show ?thesis
  proof (cases ev)
    case (GotPacket pkt)
    obtain err g' where d: "dispatch_packet sv io ps clock ?s pkt (put_gw_session ?s g) = (err, g')" by fastforce
    have "gateway_ok acc g'"
      using dispatch_core[OF d]
    proof
      assume "same_core (put_gw_session ?s g) g'"
      then show ?thesis using gateway_ok_core ok1 by blast
    next
      assume "\<exists>token p. p \<noteq> '''' \<and> token_valid sv token p \<and>
         same_core (bindUniquePlayerSession io ps (?s\<lparr>gwAuthenticated := True, gwPlayerID := p, gwToken := token\<rparr>)
           (put_gw_session (?s\<lparr>gwAuthenticated := True, gwPlayerID := p, gwToken := token\<rparr>) (put_gw_session ?s g))) g'"
      then obtain token p where t: "p \<noteq> ''''" "token_valid sv token p"
        "same_core (bindUniquePlayerSession io ps (?s\<lparr>gwAuthenticated := True, gwPlayerID := p, gwToken := token\<rparr>)
           (put_gw_session (?s\<lparr>gwAuthenticated := True, gwPlayerID := p, gwToken := token\<rparr>) (put_gw_session ?s g))) g'"
        by blast
      have "gw_session_ok acc i (?s\<lparr>gwAuthenticated := True, gwPlayerID := p, gwToken := token\<rparr>)"
        using t(1) sub[OF t(2)] id by (simp add: gw_session_ok_def)
      then show ?thesis using gateway_ok_core[OF t(3)] bind_ok[OF ok1 get] by simp
    qed
    then show ?thesis using Some GotPacket d by (simp add: handleConn_round_def Let_def)
  qed (use Some ok in \<open>simp_all add: handleConn_round_def\<close>)
qed

lemma unbind_index:
  "mget (gwPlayerIndex (unbindPlayerSession s g)) p
     = (if gwPlayerID s \<noteq> '''' \<and> p = gwPlayerID s \<and> mget (gwPlayerIndex g) p = Some (gwID s)
        then None else mget (gwPlayerIndex g) p)"
  by (auto simp: unbind_defs split: option.split)

lemma unbind_rest [simp]:
  "gwHeap (unbindPlayerSession s g) = gwHeap g" "gwSeq (unbindPlayerSession s g) = gwSeq g"
  "gwSessions (unbindPlayerSession s g) = gwSessions g"
  by (auto simp: unbind_defs split: option.split)

lemma gateway_ok_done: "gateway_ok acc g \<Longrightarrow> gateway_ok acc (handleConn_done i g)"
  by (auto simp: gateway_ok_def handleConn_done_def Let_def authenticated_def unbind_index split: option.split if_splits)

lemma gateway_ok_accept: "gateway_ok acc g \<Longrightarrow> gateway_ok acc (snd (accept_conn now g))"
  unfolding gateway_ok_def accept_conn_def Let_def authenticated_def
  by (auto simp: put_gw_session_def gw_session_ok_def) fastforce+

lemma gateway_ok_login:
  assumes ok: "gateway_ok acc g" and s: "mget (gwHeap g) i = Some s" and t: "acc tok p" "p \<noteq> ''''"
  shows "gateway_ok acc (put_gw_session (s\<lparr>gwAuthenticated := True, gwPlayerID := p, gwToken := tok\<rparr>) g)"
proof -
  have "gwID s = i" using ok s by (auto simp: gateway_ok_def gw_session_ok_def)
  then show ?thesis
    using ok s t unfolding gateway_ok_def authenticated_def by (auto simp: put_gw_session_def gw_session_ok_def)
qed

lemma gateway_ok_store:
  assumes ok: "gateway_ok acc g" and s: "mget (gwHeap g) i = Some s" "gwAuthenticated s"
  shows "gateway_ok acc (bind_store s g)"
proof -
  have "gwID s = i" using ok s by (auto simp: gateway_ok_def gw_session_ok_def)
  then show ?thesis using ok s unfolding gateway_ok_def authenticated_def by (auto simp: bind_store_def)
qed

lemma gateway_ok_delete: "gateway_ok acc g \<Longrightarrow> gateway_ok acc (unbind_delete s found g)"
  by (auto simp: gateway_ok_def authenticated_def unbind_delete_def split: option.split)

text \<open>
  The states a gateway reaches by whole operations and, since a login and a cleanup are not
  atomic, also by each of their steps at any time: marking the session, kicking whatever an
  earlier look at the index found, storing the entry, answering, and deleting an entry on the
  ground of an earlier look. The token service may be in another state at each step, as tokens are issued
  and expire; \<open>acc\<close> holds of every token it accepts at any of them.
\<close>

inductive gw_history :: "(string \<Rightarrow> string \<Rightarrow> bool) \<Rightarrow> gateway \<Rightarrow> bool" for acc where
  start: "gw_history acc NewTCPGateway"
| accept: "gw_history acc g \<Longrightarrow> gw_history acc (snd (accept_conn now g))"
| round: "gw_history acc g \<Longrightarrow> (\<And>tok p. token_valid sv tok p \<Longrightarrow> acc tok p) \<Longrightarrow>
     gw_history acc (snd (handleConn_round sv io ps clock aut idl now i ev g))"
| cleanup: "gw_history acc g \<Longrightarrow> gw_history acc (handleConn_done i g)"
| push: "gw_history acc g \<Longrightarrow> gw_history acc (snd (PushToPlayer sv io wsio seq p cmd payload g))"
| push_session: "gw_history acc g \<Longrightarrow> gw_history acc (snd (PushToSession io seq i cmd payload g))"
| push_all: "gw_history acc g \<Longrightarrow> gw_history acc (snd (PushToAll sv io wsio seq cmd payload g))"
| lobby: "gw_history acc g \<Longrightarrow> gw_history acc (snd (handleLobbyWS sv q up g))"
| lobby_message: "gw_history acc g \<Longrightarrow> gw_history acc (snd (handleLobbyWS_message sv ms tok c msg g))"
| lobby_done: "gw_history acc g \<Longrightarrow> gw_history acc (handleLobbyWS_done p c g)"
| login: "gw_history acc g \<Longrightarrow> mget (gwHeap g) i = Some s \<Longrightarrow> acc tok p \<Longrightarrow> p \<noteq> '''' \<Longrightarrow>
     gw_history acc (put_gw_session (s\<lparr>gwAuthenticated := True, gwPlayerID := p, gwToken := tok\<rparr>) g)"
| kick: "gw_history acc g \<Longrightarrow> gw_history acc (bind_kick io seq s found g)"
| store: "gw_history acc g \<Longrightarrow> mget (gwHeap g) i = Some s \<Longrightarrow> gwAuthenticated s \<Longrightarrow> gw_history acc (bind_store s g)"
| forget: "gw_history acc g \<Longrightarrow> gw_history acc (unbind_delete s found g)"
| written: "gw_history acc g \<Longrightarrow> gw_history acc (snd (writePacket io i pkt g))"

text \<open>With a token service that never changes its mind about a token, accepted is what it accepts.\<close>

abbreviation gw_reachable :: "gw_services \<Rightarrow> gateway \<Rightarrow> bool" where
  "gw_reachable sv \<equiv> gw_history (token_valid sv)"

lemma gw_history_ok: "gw_history acc g \<Longrightarrow> gateway_ok acc g"
proof (induction rule: gw_history.induct)
  case start
  show ?case by (simp add: gateway_ok_def NewTCPGateway_def)
next
  case (push_session g io seq i cmd payload)
  have "same_core g (snd (PushToSession io seq i cmd payload g))"
    by (auto simp: PushToSession_def split: prod.split) (metis snd_conv writePacket_core)
  then show ?case using push_session gateway_ok_core by blast
next
  case (accept g now)
  show ?case by (rule gateway_ok_accept[OF accept.IH])
next
  case (round g sv io ps clock aut idl now i ev)
  show ?case by (rule gateway_ok_round[OF round.IH round.hyps(2)])
next
  case (cleanup g i)
  show ?case by (rule gateway_ok_done[OF cleanup.IH])
next
  case (push g sv io wsio seq p cmd payload)
  show ?case by (rule gateway_ok_core[OF PushToPlayer_core push.IH])
next
  case (push_all g sv io wsio seq cmd payload)
  show ?case by (rule gateway_ok_core[OF PushToAll_core push_all.IH])
next
  case (lobby g sv q up)
  show ?case by (rule gateway_ok_core[OF lobby_core(1) lobby.IH])
next
  case (lobby_message g sv ms tok c msg)
  show ?case by (rule gateway_ok_core[OF lobby_core(2) lobby_message.IH])
next
  case (lobby_done g p c)
  show ?case by (rule gateway_ok_core[OF lobby_core(3) lobby_done.IH])
next
  case (login g i s tok p)
  then show ?case by (intro gateway_ok_login)
next
  case (kick g io seq s found)
  show ?case by (rule gateway_ok_core[OF bind_kick_core kick.IH])
next
  case (store g i s)
  then show ?case by (intro gateway_ok_store)
next
  case (forget g s found)
  show ?case by (rule gateway_ok_delete[OF forget.IH])
next
  case (written g io i pkt)
  show ?case by (rule gateway_ok_core[OF writePacket_core written.IH])
qed


subsection \<open>What is written\<close>

definition deliverable :: "(nat \<Rightarrow> bool) \<Rightarrow> packet \<Rightarrow> gateway \<Rightarrow> nat \<Rightarrow> bool" where
  "deliverable io pkt g i \<longleftrightarrow> \<not> io i \<and> i \<notin> set (gwClosedConns g) \<and> fits pkt"

lemma writePacket_eq:
  "writePacket io i pkt g = (if deliverable io pkt g i then (False, g\<lparr>gwOut := gwOut g @ [(i, pkt)]\<rparr>) else (True, g))"
proof (cases "fits pkt")
  case False
  then show ?thesis by (simp add: writePacket_def deliverable_def WritePacket_too_long)
next
  case True
  then show ?thesis unfolding writePacket_def WritePacket_def max_uint32
    by (simp add: deliverable_def conn_write_def fits_def)
qed

lemma writePacket_view [simp]:
  "gwHeap (snd (writePacket io i pkt g)) = gwHeap g" "gwPlayerIndex (snd (writePacket io i pkt g)) = gwPlayerIndex g"
  "gwSeq (snd (writePacket io i pkt g)) = gwSeq g" "gwSessions (snd (writePacket io i pkt g)) = gwSessions g"
  "gwWSByPlayer (snd (writePacket io i pkt g)) = gwWSByPlayer g"
  "gwWSOut (snd (writePacket io i pkt g)) = gwWSOut g" "gwWSClosed (snd (writePacket io i pkt g)) = gwWSClosed g"
  by (simp_all add: writePacket_eq)

text \<open>A front desk with two players and one of each answer, for the concrete runs below.\<close>

definition desk :: gw_services where
  "desk = \<lparr>svVerify = (\<lambda>t. if t = ''t1'' then Some (''ann'', True, '''') else if t = ''t2'' then Some (''bob'', True, '''')
                        else Some ('''', False, '''')),
          svRefresh = (\<lambda>t. Some (t = ''t1'' \<or> t = ''t2'', '''')),
          svInvoke = (\<lambda>method request. Some [(''code'', jint 0)]),
          svParseToken = (\<lambda>b. if b = [1] then Some ''t1'' else if b = [2] then Some ''t2'' else None),
          svParseRoute = (\<lambda>b. if b = [3] then Some \<lparr>ServiceID = 5, MsgID = 4, Body = []\<rparr> else None),
          svMarshal = (\<lambda>m. Some [7]), svUnmarshal = (\<lambda>b. None)\<rparr>"

definition login_round :: "nat \<Rightarrow> byte \<Rightarrow> gateway \<Rightarrow> gateway" where
  "login_round i b g =
     snd (handleConn_round desk (\<lambda>_. False) 0 ''0'' 10 60 0 i (GotPacket (reply CmdAuthReq 1 [b])) g)"

definition arrived :: gateway where
  "arrived = snd (accept_conn 0 NewTCPGateway)"

definition ann_online :: gateway where
  "ann_online = login_round 1 1 arrived"

definition ann_twice :: gateway where
  "ann_twice = snd (accept_conn 0 ann_online)"

lemmas desk_defs = desk_def login_round_def arrived_def ann_online_def ann_twice_def accept_conn_def NewTCPGateway_def
  handleConn_round_def dispatch_packet_def handleAuth_def bind_defs put_gw_session_def reply_def
  writePacket_eq deliverable_def fits_def marshal_def

lemma desk_reachable: "gw_reachable desk arrived" "gw_reachable desk ann_online" "gw_reachable desk ann_twice"
  unfolding ann_twice_def ann_online_def arrived_def login_round_def
  by (rule gw_history.start gw_history.accept gw_history.round | assumption)+

lemma ann_online_view:
  "mget (gwHeap ann_online) 1 = Some \<lparr>gwID = 1, gwConnectedAt = 0, gwPlayerID = ''ann'', gwToken = ''t1'',
     gwAuthenticated = True, gwLastSeen = 0\<rparr>"
  "gwPlayerIndex ann_online = [(''ann'', 1)]" "gwClosedConns ann_online = []" "gwSeq ann_online = 1"
  by (simp_all add: desk_defs cmd_defs Let_def)


subsection \<open>The claims\<close>

text \<open>
  C24: whatever clients send and whenever connections break, in every reachable state of the
  gateway an authenticated session holds a token the token service accepted for its player and
  the player is not empty, an unauthenticated session has no player, and the index of players
  leads to authenticated sessions only.
\<close>

theorem gateway_invariant:
  assumes "gw_reachable sv g"
  shows "(\<forall>i s. mget (gwHeap g) i = Some s \<longrightarrow>
       gwID s = i \<and> (gwAuthenticated s \<longleftrightarrow> gwPlayerID s \<noteq> '''')
       \<and> (gwAuthenticated s \<longrightarrow> (\<exists>reason. svVerify sv (gwToken s) = Some (gwPlayerID s, True, reason))))
    \<and> (\<forall>p i. mget (gwPlayerIndex g) p = Some i \<longrightarrow> (\<exists>s. mget (gwHeap g) i = Some s \<and> gwAuthenticated s))"
proof (intro conjI)
  note ok = gw_history_ok[OF assms]
  show "\<forall>i s. mget (gwHeap g) i = Some s \<longrightarrow>
       gwID s = i \<and> (gwAuthenticated s \<longleftrightarrow> gwPlayerID s \<noteq> '''')
       \<and> (gwAuthenticated s \<longrightarrow> (\<exists>reason. svVerify sv (gwToken s) = Some (gwPlayerID s, True, reason)))"
    using ok unfolding gateway_ok_def gw_session_ok_def token_valid_def by (auto split: if_splits)
  show "\<forall>p i. mget (gwPlayerIndex g) p = Some i \<longrightarrow> (\<exists>s. mget (gwHeap g) i = Some s \<and> gwAuthenticated s)"
    by (auto simp: online_members_iff dest!: online.lookup[OF ok])
qed

text \<open>The same over time: an authenticated session holds a token that was accepted for its player once.\<close>

lemma gateway_invariant_over_time:
  assumes "gw_history acc g" and "mget (gwHeap g) i = Some s"
  shows "gwID s = i \<and> (gwAuthenticated s \<longleftrightarrow> gwPlayerID s \<noteq> '''') \<and> (gwAuthenticated s \<longrightarrow> acc (gwToken s) (gwPlayerID s))"
  using gw_history_ok[OF assms(1)] assms(2) unfolding gateway_ok_def gw_session_ok_def by (auto split: if_splits)

theorem gateway_invariant_witness:
  "gw_reachable desk ann_online
   \<and> (\<exists>s. mget (gwHeap ann_online) 1 = Some s \<and> (\<exists>reason. svVerify desk (gwToken s) = Some (''ann'', True, reason)))"
proof -
  have i: "gw_session.gwAuthenticated s \<Longrightarrow> mget (gwHeap ann_online) 1 = Some s \<Longrightarrow>
      (\<exists>reason. svVerify desk (gwToken s) = Some (gwPlayerID s, True, reason))" for s
    using gateway_invariant[OF desk_reachable(2)] by blast
  show ?thesis using desk_reachable(2) i ann_online_view(1) by fastforce
qed

text \<open>
  C25: before its login a client can do nothing but log in. Whatever packet it sends that is not
  a login is answered on its own connection, with the error unauthorized or unknown cmd; the
  services and the token refresh are not consulted (the outcome is the same whatever they
  are), and no session, player or websocket changes.
\<close>

theorem unauthenticated_is_confined:
  assumes "\<not> gwAuthenticated s" and "pktCmd pkt \<noteq> CmdAuthReq"
  shows "dispatch_packet sv io ps clock s pkt g =
      writePacket io (gwID s) (reply CmdError (pktSeq pkt)
        (text_bytes (if pktCmd pkt = CmdHeartbeatReq \<or> pktCmd pkt = CmdGameMessage
          then ''{\"code\":4002,\"msg\":\"unauthorized\"}'' else ''{\"code\":4001,\"msg\":\"unknown cmd\"}''))) g
    \<and> dispatch_packet (sv\<lparr>svInvoke := anyInvoke, svRefresh := anyRefresh\<rparr>) io ps clock s pkt g
        = dispatch_packet sv io ps clock s pkt g
    \<and> same_core g (snd (dispatch_packet sv io ps clock s pkt g))"
proof -
  have d: "dispatch_packet v io ps clock s pkt g =
      writePacket io (gwID s) (reply CmdError (pktSeq pkt)
        (text_bytes (if pktCmd pkt = CmdHeartbeatReq \<or> pktCmd pkt = CmdGameMessage
          then ''{\"code\":4002,\"msg\":\"unauthorized\"}'' else ''{\"code\":4001,\"msg\":\"unknown cmd\"}''))) g" for v
    using assms unfolding dispatch_packet_def handleHeartbeat_def handleGameMessage_def Let_def by simp
  show ?thesis unfolding d using writePacket_core by blast
qed

theorem unauthenticated_is_confined_witness:
  "dispatch_packet desk (\<lambda>_. False) 0 ''0'' \<lparr>gwID = 1, gwConnectedAt = 0, gwPlayerID = '''', gwToken = '''',
      gwAuthenticated = False, gwLastSeen = 0\<rparr> (reply CmdGameMessage 9 [3]) arrived
    = writePacket (\<lambda>_. False) 1 (reply CmdError 9 (text_bytes ''{\"code\":4002,\"msg\":\"unauthorized\"}'')) arrived"
  using unauthenticated_is_confined[of "\<lparr>gwID = 1, gwConnectedAt = 0, gwPlayerID = '''', gwToken = '''',
      gwAuthenticated = False, gwLastSeen = 0\<rparr>" "reply CmdGameMessage 9 [3]" desk "\<lambda>_. False" 0 "''0''" arrived]
  by (simp add: cmd_defs reply_def)

text \<open>
  A game message of an authenticated session goes to the service it names, under the
  identity of the session: of the three services the request names one, the player in the call
  is the session's player whatever the packet says, and the answer of the service returns to the
  same connection. Messages that name nothing, the login service or an unknown service, and
  failing calls, are answered with their error code and reach no service.
\<close>

theorem game_message_routed:
  assumes "gwAuthenticated s" and "pktCmd pkt = CmdGameMessage"
    and "svParseRoute sv (pktPayload pkt) = Some req"
  shows "dispatch_packet sv io ps clock s pkt g =
    (let answer = (\<lambda>payload. writePacket io (gwID s) (reply CmdGameMessage (pktSeq pkt) payload) g);
         request = [(''player_id'', JStr (gwPlayerID s)), (''msg_id'', jint (uint (MsgID req))), (''body'', JObj (Body req))];
         call = (\<lambda>method. let g1 = g\<lparr>gwCalls := gwCalls g @ [(method, request)]\<rparr>;
                             answer1 = (\<lambda>payload. writePacket io (gwID s) (reply CmdGameMessage (pktSeq pkt) payload) g1)
                  in case svInvoke sv method request of
                    None \<Rightarrow> answer1 (text_bytes ''{\"code\":5000,\"msg\":\"internal_error\"}'')
                  | Some resp \<Rightarrow> (case svMarshal sv resp of None \<Rightarrow> (True, g1) | Some data \<Rightarrow> answer1 data))
     in if ServiceID req = 0 \<or> MsgID req = 0
        then answer (text_bytes ''{\"code\":4004,\"msg\":\"missing_service_or_msg_id\"}'')
        else if ServiceID req = 2
        then answer (text_bytes ''{\"code\":4007,\"msg\":\"auth_service_not_allowed_after_login\"}'')
        else if ServiceID req = 3 then call ''/lobby.LobbyService/HandleGatewayMessage''
        else if ServiceID req = 4 then call ''/match.MatchService/HandleGatewayMessage''
        else if ServiceID req = 5 then call ''/room.RoomService/HandleGatewayMessage''
        else answer (text_bytes ''{\"code\":5000,\"msg\":\"internal_error\"}''))"
proof -
  have d: "dispatch_packet sv io ps clock s pkt g = handleGameMessage sv io s pkt g"
    using assms(2) by (simp add: dispatch_packet_def cmd_defs)
  show ?thesis
    unfolding d handleGameMessage_def Dispatch_def Let_def ServiceAuth_def ServiceLobby_def ServiceMatch_def ServiceRoom_def
    using assms(1,3) by (auto split: option.split)
qed

theorem game_message_routed_witness:
  "snd (dispatch_packet desk (\<lambda>_. False) 0 ''0'' \<lparr>gwID = 1, gwConnectedAt = 0, gwPlayerID = ''ann'', gwToken = ''t1'',
      gwAuthenticated = True, gwLastSeen = 0\<rparr> (reply CmdGameMessage 9 [3]) ann_online)
    = ann_online\<lparr>gwOut := gwOut ann_online @ [(1, reply CmdGameMessage 9 [7])],
        gwCalls := gwCalls ann_online @ [(''/room.RoomService/HandleGatewayMessage'',
          [(''player_id'', JStr ''ann''), (''msg_id'', jint 4), (''body'', JObj [])])]\<rparr>"
proof -
  have p: "svParseRoute desk (pktPayload (reply CmdGameMessage 9 [3])) = Some \<lparr>ServiceID = 5, MsgID = 4, Body = []\<rparr>"
    by (simp add: desk_def reply_def)
  show ?thesis
    by (subst game_message_routed[OF _ _ p])
      (simp_all add: reply_def writePacket_eq deliverable_def fits_def ann_online_view Let_def desk_def)
qed


text \<open>A round with an accepted login, in full.\<close>

definition accepts :: "gw_services \<Rightarrow> packet \<Rightarrow> string \<Rightarrow> string \<Rightarrow> bool" where
  "accepts sv pkt tok p \<longleftrightarrow> pktCmd pkt = CmdAuthReq \<and> svParseToken sv (pktPayload pkt) = Some tok \<and> tok \<noteq> ''''
     \<and> (\<exists>reason. svVerify sv tok = Some (p, True, reason)) \<and> p \<noteq> ''''"

lemma login_eq:
  assumes "accepts sv pkt tok p" and "mget (gwHeap g) i = Some s" and "gwID s = i"
  shows "\<exists>s' g1. gwID s' = i \<and> gwPlayerID s' = p \<and> gwAuthenticated s'
    \<and> gwHeap g1 = mput i s' (mput i (s\<lparr>gwLastSeen := now\<rparr>) (gwHeap g)) \<and> gwPlayerIndex g1 = gwPlayerIndex g
    \<and> gwClosedConns g1 = gwClosedConns g \<and> gwOut g1 = gwOut g \<and> gwWSByPlayer g1 = gwWSByPlayer g
    \<and> handleConn_round sv io ps clock aut idl now i (GotPacket pkt) g =
        (case writePacket io i (reply CmdAuthResp (pktSeq pkt)
            (marshal sv [(''ok'', JBool True), (''player_id'', JStr p)])) (bindUniquePlayerSession io ps s' g1) of
           (err, g') \<Rightarrow> (\<not> err, g'))"
proof -
  let ?s = "s\<lparr>gwLastSeen := now\<rparr>"
  let ?s' = "?s\<lparr>gwAuthenticated := True, gwPlayerID := p, gwToken := tok\<rparr>"
  show ?thesis
    using assms unfolding accepts_def
    by (intro exI[of _ ?s'] exI[of _ "put_gw_session ?s' (put_gw_session ?s g)"])
      (auto simp: handleConn_round_def dispatch_packet_def handleAuth_def put_gw_session_def Let_def)
qed

lemma bind_view:
  assumes "gwPlayerID s \<noteq> ''''"
  shows "gwClosedConns (bindUniquePlayerSession io ps s g) =
      (case mget (gwPlayerIndex g) (gwPlayerID s) of None \<Rightarrow> gwClosedConns g
       | Some old \<Rightarrow> if old \<noteq> gwID s then old # gwClosedConns g else gwClosedConns g)"
    "gwWSByPlayer (bindUniquePlayerSession io ps s g) = gwWSByPlayer g"
  using assms by (auto simp: bind_defs Let_def split: option.split)

lemma bind_notifies:
  assumes "gwPlayerID s \<noteq> ''''" and "mget (gwPlayerIndex g) (gwPlayerID s) = Some old" and "old \<noteq> gwID s"
    and "\<not> io old" and "old \<notin> set (gwClosedConns g)"
  shows "gwOut (bindUniquePlayerSession io ps s g) =
    gwOut g @ [(old, reply CmdError ps (text_bytes ''{\"code\":4005,\"msg\":\"kicked_by_new_login\"}''))]"
  using assms by (simp add: bind_defs Let_def writePacket_eq deliverable_def fits_def reply_def text_bytes_def)

lemma done_index:
  "mget (gwHeap g) j = Some s \<Longrightarrow> gwID s = j \<Longrightarrow>
   mget (gwPlayerIndex (handleConn_done j g)) p =
     (if p \<noteq> '''' \<and> p = gwPlayerID s \<and> mget (gwPlayerIndex g) p = Some j then None else mget (gwPlayerIndex g) p)"
  by (auto simp: handleConn_done_def Let_def unbind_index)

lemma round_heap_ids:
  assumes "gw_history acc g" and "mget (gwHeap g) j = Some s"
  shows "gwID s = j"
  using gw_history_ok[OF assms(1)] assms(2) by (auto simp: gateway_ok_def gw_session_ok_def)

text \<open>A login of a player without interference, in full.\<close>

lemma undisturbed_login:
  assumes "gw_reachable sv g" and "mget (gwHeap g) i = Some s" and "accepts sv pkt tok p"
    and "handleConn_round sv io ps clock aut idl now i (GotPacket pkt) g = (goes_on, g')"
  shows "mget (gwPlayerIndex g') = (mget (gwPlayerIndex g))(p \<mapsto> i)
    \<and> (\<forall>old. mget (gwPlayerIndex g) p = Some old \<and> old \<noteq> i \<longrightarrow> old \<in> set (gwClosedConns g')
        \<and> (\<not> io old \<and> old \<notin> set (gwClosedConns g) \<longrightarrow>
            (old, reply CmdError ps (text_bytes ''{\"code\":4005,\"msg\":\"kicked_by_new_login\"}'')) \<in> set (gwOut g')))
    \<and> (\<forall>j. j \<noteq> i \<longrightarrow> mget (gwPlayerIndex (handleConn_done j g')) p = Some i)"
proof -
  have id: "gwID s = i" by (rule round_heap_ids[OF assms(1,2)])
  have p: "p \<noteq> ''''" using assms(3) by (simp add: accepts_def)
  obtain s' g1 where s': "gwID s' = i" "gwPlayerID s' = p"
    and g1: "gwPlayerIndex g1 = gwPlayerIndex g" "gwClosedConns g1 = gwClosedConns g" "gwOut g1 = gwOut g"
    and r: "handleConn_round sv io ps clock aut idl now i (GotPacket pkt) g =
        (case writePacket io i (reply CmdAuthResp (pktSeq pkt)
            (marshal sv [(''ok'', JBool True), (''player_id'', JStr p)])) (bindUniquePlayerSession io ps s' g1) of
           (err, g') \<Rightarrow> (\<not> err, g'))"
    using login_eq[OF assms(3,2) id, of now io ps clock aut idl] by blast
  let ?b = "bindUniquePlayerSession io ps s' g1"
  have g': "g' = snd (writePacket io i (reply CmdAuthResp (pktSeq pkt)
            (marshal sv [(''ok'', JBool True), (''player_id'', JStr p)])) ?b)"
    using r assms(4) by (auto split: prod.splits)
  have s'p: "gwPlayerID s' \<noteq> ''''" using s' p by simp
  have idx: "mget (gwPlayerIndex g') = (mget (gwPlayerIndex g))(p \<mapsto> i)"
    using bind_core[OF s'p, of io ps g1] g' g1 s' by (auto simp: fun_eq_iff)
  have closed: "mget (gwPlayerIndex g) p = Some old \<Longrightarrow> old \<noteq> i \<Longrightarrow> old \<in> set (gwClosedConns g')" for old
    using bind_view(1)[OF s'p, of io ps g1] g' g1 s' by simp
  have told: "(old, reply CmdError ps (text_bytes ''{\"code\":4005,\"msg\":\"kicked_by_new_login\"}'')) \<in> set (gwOut g')"
    if "mget (gwPlayerIndex g) p = Some old" "old \<noteq> i" "\<not> io old" "old \<notin> set (gwClosedConns g)" for old
    using bind_notifies[OF s'p, of g1 old io ps] that g' g1 s' by (auto simp: writePacket_eq)
  have ok': "gw_reachable sv g'" using gw_history.round[OF assms(1)] assms(4) by (metis snd_conv)
  have keep: "mget (gwPlayerIndex (handleConn_done j g')) p = Some i" if "j \<noteq> i" for j
  proof (cases "mget (gwHeap g') j")
    case None
    then show ?thesis using idx by (simp add: handleConn_done_def)
  next
    case (Some t)
    then show ?thesis using done_index[OF Some round_heap_ids[OF ok' Some], of p] idx that by simp
  qed
  show ?thesis using idx closed told keep by blast
qed

lemma ann_twice_view:
  "mget (gwHeap ann_twice) 2 = Some \<lparr>gwID = 2, gwConnectedAt = 0, gwPlayerID = '''', gwToken = '''',
     gwAuthenticated = False, gwLastSeen = 0\<rparr>"
  "gwPlayerIndex ann_twice = [(''ann'', 1)]" "gwClosedConns ann_twice = []"
  by (simp_all add: desk_defs cmd_defs Let_def)

text \<open>What others may do between two steps of a login as p: anything but change the entry of p.\<close>

definition keeps_entry :: "string \<Rightarrow> gateway \<Rightarrow> gateway \<Rightarrow> bool" where
  "keeps_entry p g g' \<longleftrightarrow> mget (gwPlayerIndex g') p = mget (gwPlayerIndex g) p
     \<and> set (gwClosedConns g) \<subseteq> set (gwClosedConns g') \<and> set (gwOut g) \<subseteq> set (gwOut g')"

abbreviation kicked_out :: "32 word \<Rightarrow> packet" where
  "kicked_out ps \<equiv> reply CmdError ps (text_bytes ''{\"code\":4005,\"msg\":\"kicked_by_new_login\"}'')"

lemma bind_kick_effect:
  assumes "found = Some old" and "old \<noteq> gwID s"
  shows "old \<in> set (gwClosedConns (bind_kick io ps s found g))"
    and "deliverable io (kicked_out ps) g old \<Longrightarrow> (old, kicked_out ps) \<in> set (gwOut (bind_kick io ps s found g))"
  using assms by (simp_all add: bind_kick_def writePacket_eq Let_def)

text \<open>
  C27: the newest login of a player wins, on a condition. Session i, logging in as p, looks at
  the index in state g0, tells and closes the session it found in g1, and stores its entry in g2;
  between these steps other goroutines do whatever they like except change the entry of p. Then
  the index leads from p to i and is unchanged for everybody else; the session that held p until
  then is told, if its connection takes the message, and closed; and the cleanup of any other
  session that looks at the index once i is stored does not touch p's entry, whatever happens
  between its look and its end. The condition is not guaranteed by any lock:
  \<open>login_races\<close> below shows what two logins, or a login and a cleanup, can do to each other.
\<close>

theorem newest_login_wins:
  assumes "gwID s = i" and "gwPlayerID s = p"
    and "keeps_entry p g0 g1" and "keeps_entry p (bind_kick io ps s (bind_load s g0) g1) g2"
  shows "mget (gwPlayerIndex (bind_store s g2)) = (mget (gwPlayerIndex g2))(p \<mapsto> i)
    \<and> (\<forall>old. mget (gwPlayerIndex g2) p = Some old \<and> old \<noteq> i \<longrightarrow>
        old \<in> set (gwClosedConns (bind_store s g2))
        \<and> (deliverable io (kicked_out ps) g1 old \<longrightarrow> (old, kicked_out ps) \<in> set (gwOut (bind_store s g2))))
    \<and> (\<forall>t g4 g5. gwID t \<noteq> i \<and> mget (gwPlayerIndex g4) p = Some i \<longrightarrow>
        mget (gwPlayerIndex (unbind_delete t (unbind_load t g4) g5)) p = mget (gwPlayerIndex g5) p)"
proof (intro conjI)
  have index: "mget (gwPlayerIndex g2) p = bind_load s g0"
    using assms bind_kick_core[of g1 io ps s "bind_load s g0"]
    by (simp add: keeps_entry_def bind_load_def same_core_def)
  show "mget (gwPlayerIndex (bind_store s g2)) = (mget (gwPlayerIndex g2))(p \<mapsto> i)"
    using assms(1,2) by (auto simp: bind_store_def fun_eq_iff)
  show "\<forall>old. mget (gwPlayerIndex g2) p = Some old \<and> old \<noteq> i \<longrightarrow>
        old \<in> set (gwClosedConns (bind_store s g2))
        \<and> (deliverable io (kicked_out ps) g1 old \<longrightarrow> (old, kicked_out ps) \<in> set (gwOut (bind_store s g2)))"
  proof (intro allI impI)
    fix old assume "mget (gwPlayerIndex g2) p = Some old \<and> old \<noteq> i"
    then have "bind_load s g0 = Some old" "old \<noteq> gwID s" using index assms(1) by auto
    then show "old \<in> set (gwClosedConns (bind_store s g2))
        \<and> (deliverable io (kicked_out ps) g1 old \<longrightarrow> (old, kicked_out ps) \<in> set (gwOut (bind_store s g2)))"
      using bind_kick_effect[of "bind_load s g0" old s io ps g1] assms(4)
      by (auto simp: keeps_entry_def bind_store_def)
  qed
  show "\<forall>t g4 g5. gwID t \<noteq> i \<and> mget (gwPlayerIndex g4) p = Some i \<longrightarrow>
        mget (gwPlayerIndex (unbind_delete t (unbind_load t g4) g5)) p = mget (gwPlayerIndex g5) p"
    by (auto simp: unbind_delete_def unbind_load_def split: option.split)
qed

text \<open>Ann logs in on a second connection while a third one is accepted between any two steps.\<close>

theorem newest_login_wins_witness:
  "let s = \<lparr>gwID = 2, gwConnectedAt = 0, gwPlayerID = ''ann'', gwToken = ''t1'', gwAuthenticated = True, gwLastSeen = 0\<rparr>;
       g1 = snd (accept_conn 3 ann_twice);
       g2 = snd (accept_conn 4 (bind_kick (\<lambda>_. False) 0 s (bind_load s ann_twice) g1))
   in mget (gwPlayerIndex (bind_store s g2)) ''ann'' = Some 2 \<and> 1 \<in> set (gwClosedConns (bind_store s g2))"
proof -
  let ?s = "\<lparr>gwID = 2, gwConnectedAt = 0, gwPlayerID = ''ann'', gwToken = ''t1'', gwAuthenticated = True, gwLastSeen = 0\<rparr>"
  let ?k = "bind_kick (\<lambda>_. False) 0 ?s (bind_load ?s ann_twice) (snd (accept_conn 3 ann_twice))"
  have acc: "keeps_entry p g (snd (accept_conn now g))" for p g now
    by (simp add: keeps_entry_def accept_conn_def put_gw_session_def Let_def)
  have "mget (gwPlayerIndex (snd (accept_conn 4 ?k))) ''ann'' = Some 1"
    using bind_kick_core[of "snd (accept_conn 3 ann_twice)" "\<lambda>_. False" 0 ?s "bind_load ?s ann_twice"] ann_twice_view(2)
    by (simp add: same_core_def accept_conn_def put_gw_session_def Let_def)
  then show ?thesis
    using newest_login_wins[of ?s 2 "''ann''" ann_twice "snd (accept_conn 3 ann_twice)" "\<lambda>_. False" 0 "snd (accept_conn 4 ?k)"]
      acc by (simp add: Let_def)
qed

text \<open>
  What the missing lock allows. Two logins of one player that both look at the index before
  either stores find nobody: both sessions stay connected, untold, and the index knows the
  second only. A cleanup that looked at the index before a new login of its player stored its
  entry deletes the new entry: the player is logged in, and no push reaches the session.
\<close>

lemma login_races:
  assumes "gwPlayerID s1 = p" and "gwPlayerID s2 = p"
  shows "mget (gwPlayerIndex g) p = None \<Longrightarrow>
      bind_store s2 (bind_kick io2 ps2 s2 (bind_load s2 g) (bind_store s1 (bind_kick io1 ps1 s1 (bind_load s1 g) g)))
        = g\<lparr>gwPlayerIndex := mput p (gwID s2) (mput p (gwID s1) (gwPlayerIndex g))\<rparr>"
    and "mget (gwPlayerIndex g) p = Some (gwID s1) \<Longrightarrow>
      mget (gwPlayerIndex (unbind_delete s1 (unbind_load s1 g) (bind_store s2 g))) p = None"
  using assms by (simp_all add: bind_defs unbind_defs)

text \<open>
  A session that logs in again as another player keeps the entry of its old player. The
  index still leads from q to the session, which now belongs to p; a push addressed to q is
  written on the connection of p; and when the session ends, its cleanup leaves the entry of q
  behind, although the connection is closed.
\<close>

theorem relogin_leaves_stale_entry:
  assumes "gw_reachable sv g" and "mget (gwHeap g) i = Some s" and "accepts sv pkt tok p"
    and "mget (gwPlayerIndex g) q = Some i" and "q \<noteq> p" and "q \<noteq> ''''"
    and "handleConn_round sv io ps clock aut idl now i (GotPacket pkt) g = (goes_on, g')"
  shows "mget (gwPlayerIndex g') q = Some i
    \<and> (\<exists>s'. mget (gwHeap g') i = Some s' \<and> gwPlayerID s' = p)
    \<and> (deliverable io2 (reply cmd seq payload) g' i \<and> mget (gwWSByPlayer g') q = None \<longrightarrow>
        PushToPlayer sv io2 wsio seq q cmd payload g'
          = (Some (1, False), g'\<lparr>gwOut := gwOut g' @ [(i, reply cmd seq payload)]\<rparr>))
    \<and> mget (gwPlayerIndex (handleConn_done i g')) q = Some i
    \<and> i \<in> set (gwClosedConns (handleConn_done i g'))"
proof -
  have id: "gwID s = i" by (rule round_heap_ids[OF assms(1,2)])
  have p: "p \<noteq> ''''" using assms(3) by (simp add: accepts_def)
  obtain s' g1 where s': "gwID s' = i" "gwPlayerID s' = p"
    and g1: "gwHeap g1 = mput i s' (mput i (s\<lparr>gwLastSeen := now\<rparr>) (gwHeap g))" "gwPlayerIndex g1 = gwPlayerIndex g"
    and r: "handleConn_round sv io ps clock aut idl now i (GotPacket pkt) g =
        (case writePacket io i (reply CmdAuthResp (pktSeq pkt)
            (marshal sv [(''ok'', JBool True), (''player_id'', JStr p)])) (bindUniquePlayerSession io ps s' g1) of
           (err, g') \<Rightarrow> (\<not> err, g'))"
    using login_eq[OF assms(3,2) id, of now io ps clock aut idl] by blast
  let ?b = "bindUniquePlayerSession io ps s' g1"
  have s'p: "gwPlayerID s' \<noteq> ''''" using s' p by simp
  have g': "g' = snd (writePacket io i (reply CmdAuthResp (pktSeq pkt)
            (marshal sv [(''ok'', JBool True), (''player_id'', JStr p)])) ?b)"
    using r assms(7) by (auto split: prod.splits)
  have idx: "mget (gwPlayerIndex g') q = Some i"
    using bind_core[OF s'p, of io ps g1] g' g1 s' assms(4,5) by simp
  have heap: "mget (gwHeap g') i = Some s'"
    using bind_core[OF s'p, of io ps g1] g' g1 by simp
  have push: "PushToPlayer sv io2 wsio seq q cmd payload g'
      = (Some (1, False), g'\<lparr>gwOut := gwOut g' @ [(i, reply cmd seq payload)]\<rparr>)"
    if "deliverable io2 (reply cmd seq payload) g' i" "mget (gwWSByPlayer g') q = None"
    using that idx assms(6) by (simp add: PushToPlayer_def push_player_tcp_def push_player_ws_def writePacket_eq)
  have "mget (gwPlayerIndex (handleConn_done i g')) q = Some i"
    using done_index[OF heap s'(1), of q] idx s'(2) assms(5) by simp
  moreover have "i \<in> set (gwClosedConns (handleConn_done i g'))"
    using heap by (simp add: handleConn_done_def Let_def)
  ultimately show ?thesis using idx heap s'(2) push by blast
qed

theorem relogin_leaves_stale_entry_witness:
  "mget (gwPlayerIndex (login_round 1 2 ann_online)) ''ann'' = Some 1
   \<and> mget (gwPlayerIndex (handleConn_done 1 (login_round 1 2 ann_online))) ''ann'' = Some 1"
proof -
  have acc: "accepts desk (reply CmdAuthReq 1 [2]) ''t2'' ''bob''" by (simp add: accepts_def desk_def reply_def)
  obtain go g' where r: "handleConn_round desk (\<lambda>_. False) 0 ''0'' 10 60 0 1 (GotPacket (reply CmdAuthReq 1 [2])) ann_online
      = (go, g')" by fastforce
  then have "login_round 1 2 ann_online = g'" by (simp add: login_round_def)
  then show ?thesis
    using relogin_leaves_stale_entry[OF desk_reachable(2) ann_online_view(1) acc _ _ _ r, of "''ann''"]
    by (simp add: ann_online_view)
qed

subsection \<open>Pushing to everybody\<close>

lemma push_tcp_all:
  "foldl (push_tcp io pkt) (n, failed, g) es =
     (n + length (filter (\<lambda>e. deliverable io pkt g (snd e)) es),
      failed \<or> (\<exists>e \<in> set es. \<not> deliverable io pkt g (snd e)),
      g\<lparr>gwOut := gwOut g @ map (\<lambda>e. (snd e, pkt)) (filter (\<lambda>e. deliverable io pkt g (snd e)) es)\<rparr>)"
proof (induction es arbitrary: n failed g)
  case (Cons e es)
  have "deliverable io pkt (g\<lparr>gwOut := x\<rparr>) i = deliverable io pkt g i" for x i by (simp add: deliverable_def)
  then show ?case using Cons by (simp add: push_tcp_def writePacket_eq)
qed simp

definition ws_alive :: "(nat \<Rightarrow> bool) \<Rightarrow> gateway \<Rightarrow> nat \<Rightarrow> bool" where
  "ws_alive wsio g c \<longleftrightarrow> \<not> wsio c \<and> c \<notin> set (gwWSClosed g)"

definition ws_message :: "gw_services \<Rightarrow> 16 word \<Rightarrow> byte list \<Rightarrow> jval" where
  "ws_message sv cmd payload =
     (if payload = [] then JObj [(''cmd'', jint (uint cmd))]
      else (case svUnmarshal sv payload of
          None \<Rightarrow> JObj [(''cmd'', jint (uint cmd)), (''payload'', JStr (map (char_of \<circ> unat) payload))]
        | Some v \<Rightarrow> v))"

lemma push_ws_step:
  "push_ws sv wsio cmd payload (n, failed, g) (p, c) = (n', failed', g') \<Longrightarrow>
     gwOut g' = gwOut g \<and> gwClosedConns g' = gwClosedConns g
     \<and> (if ws_alive wsio g c then n' = n + 1 \<and> failed' = failed \<and> gwWSClosed g' = gwWSClosed g
          \<and> gwWSByPlayer g' = gwWSByPlayer g \<and> gwWSOut g' = gwWSOut g @ [(c, ws_message sv cmd payload)]
        else n' = n \<and> failed' \<and> gwWSClosed g' = c # gwWSClosed g \<and> gwWSByPlayer g' = mdel p (gwWSByPlayer g)
          \<and> gwWSOut g' = gwWSOut g)"
  by (auto simp: push_ws_def writeWSPayload_def drop_ws_def ws_alive_def ws_message_def Let_def)

lemma push_ws_all:
  "foldl (push_ws sv wsio cmd payload) (n, failed, g) es = (n', failed', g') \<Longrightarrow>
     gwOut g' = gwOut g
     \<and> gwWSOut g' = gwWSOut g @ map (\<lambda>e. (snd e, ws_message sv cmd payload)) (filter (\<lambda>e. ws_alive wsio g (snd e)) es)
     \<and> n' = n + length (filter (\<lambda>e. ws_alive wsio g (snd e)) es)
     \<and> (failed' \<longleftrightarrow> failed \<or> (\<exists>e \<in> set es. \<not> ws_alive wsio g (snd e)))
     \<and> (\<forall>e \<in> set es. \<not> ws_alive wsio g (snd e) \<longrightarrow> mget (gwWSByPlayer g') (fst e) = None)
     \<and> (\<forall>p. mget (gwWSByPlayer g) p = None \<longrightarrow> mget (gwWSByPlayer g') p = None)"
proof (induction es arbitrary: n failed g)
  case (Cons e es)
  obtain p c where e: "e = (p, c)" by (cases e)
  obtain n1 f1 g1 where s: "push_ws sv wsio cmd payload (n, failed, g) (p, c) = (n1, f1, g1)"
    by (rule prod_cases3)
  then have r: "foldl (push_ws sv wsio cmd payload) (n1, f1, g1) es = (n', failed', g')" using Cons.prems e by simp
  note ih = Cons.IH[OF r] and st = push_ws_step[OF s]
  have alive: "ws_alive wsio g1 d = ws_alive wsio g d" for d
    using st by (auto simp: ws_alive_def split: if_splits)
  show ?case
  proof (cases "ws_alive wsio g c")
    case True
    then show ?thesis using ih st unfolding alive by (auto simp: e)
  next
    case False
    then show ?thesis using ih st unfolding alive by (auto simp: e)
  qed
qed simp

text \<open>
  A push to everybody writes the packet once to every indexed session whose connection accepts it
  and to no other connection, in the order of the index; it writes the message once to every live
  lobby websocket and to no other; it continues after a failure, forgets the lobby websockets
  that were dead, and returns the number of messages that were written, with an error exactly
  when one could not be.
\<close>

lemma PushToAll_effect:
  assumes "PushToAll sv io wsio seq cmd payload g = ((n, failed), g')"
  defines "pkt \<equiv> reply cmd seq payload"
  shows "gwOut g' = gwOut g @ map (\<lambda>e. (snd e, pkt)) (filter (\<lambda>e. deliverable io pkt g (snd e)) (gwPlayerIndex g))
    \<and> gwWSOut g' = gwWSOut g @ map (\<lambda>e. (snd e, ws_message sv cmd payload)) (filter (\<lambda>e. ws_alive wsio g (snd e)) (gwWSByPlayer g))
    \<and> n = length (filter (\<lambda>e. deliverable io pkt g (snd e)) (gwPlayerIndex g))
        + length (filter (\<lambda>e. ws_alive wsio g (snd e)) (gwWSByPlayer g))
    \<and> (failed \<longleftrightarrow> (\<exists>e \<in> set (gwPlayerIndex g). \<not> deliverable io pkt g (snd e))
        \<or> (\<exists>e \<in> set (gwWSByPlayer g). \<not> ws_alive wsio g (snd e)))
    \<and> (\<forall>(p, c) \<in> set (gwWSByPlayer g). \<not> ws_alive wsio g c \<longrightarrow> mget (gwWSByPlayer g') p = None)
    \<and> same_core g g'"
proof -
  let ?ok = "\<lambda>e. deliverable io pkt g (snd e)"
  let ?g1 = "g\<lparr>gwOut := gwOut g @ map (\<lambda>e. (snd e, pkt)) (filter ?ok (gwPlayerIndex g))\<rparr>"
  let ?n = "length (filter ?ok (gwPlayerIndex g))"
  let ?f = "\<exists>e \<in> set (gwPlayerIndex g). \<not> ?ok e"
  have "foldl (push_ws sv wsio cmd payload) (?n, ?f, ?g1) (gwWSByPlayer g) = (n, failed, g')"
    using assms(1) unfolding PushToAll_def pkt_def push_tcp_all by (simp split: prod.splits)
  note ws = push_ws_all[OF this]
  have alive: "ws_alive wsio ?g1 c = ws_alive wsio g c" for c by (simp add: ws_alive_def)
  have core: "same_core g g'" using PushToAll_core[of g sv io wsio seq cmd payload] assms(1) by simp
  show ?thesis using ws core unfolding alive by auto
qed

text \<open>
  The limit for the login is looked at only when a read times out: a client that keeps sending, if only
  heartbeats it gets refused, stays connected without a login for as long as it likes.
\<close>

lemma chatter_outlives_login_limit:
  assumes "mget (gwHeap g) i = Some s" and "\<not> gwAuthenticated s" and "gwID s = i" and "pktCmd pkt = CmdHeartbeatReq"
    and "\<not> io i" and "i \<notin> set (gwClosedConns g)"
  shows "fst (handleConn_round sv io ps clock authTimeout idl now i (GotPacket pkt) g)"
  using assms
  by (simp add: handleConn_round_def dispatch_packet_def handleHeartbeat_def cmd_defs Let_def writePacket_eq deliverable_def
      put_gw_session_def fits_def reply_def text_bytes_def)

end
