(* ===== verification/Mono.thy ===== *)
theory Mono
  imports EngineProps GoText
begin

text \<open>
  The all-in-one server: \<open>internal/mono/server.go\<close>, with its login, its lobby and its games. The
  SQL database is a state of type \<open>'d\<close> with the statements of the source as operations on it
  (\<open>db_ops\<close>), \<open>None\<close> when a statement fails; the clock is \<open>clk\<close>, where \<open>clk i\<close> is the i-th reading of the step in nanoseconds;
  random draws are arguments and connections are identifiers. A request holds what the JSON
  decoder made of its body. \<open>None\<close> is a panic.
\<close>

record 'd db_ops =
  dbCountUser :: "'d \<Rightarrow> string \<Rightarrow> nat option"
  dbInsertUser :: "'d \<Rightarrow> string \<Rightarrow> string \<Rightarrow> int \<Rightarrow> 'd option"
  dbPassword :: "'d \<Rightarrow> string \<Rightarrow> string option"
  dbPutToken :: "'d \<Rightarrow> string \<Rightarrow> string \<Rightarrow> int \<Rightarrow> 'd option"
  dbToken :: "'d \<Rightarrow> string \<Rightarrow> (string \<times> int) option"
  dbRenewToken :: "'d \<Rightarrow> int \<Rightarrow> string \<Rightarrow> 'd option"

datatype room_phase = PhWaiting | PhPlaying

fun phase_text :: "room_phase \<Rightarrow> string" where
  "phase_text PhWaiting = ''waiting''"
| "phase_text PhPlaying = ''playing''"

record mono_room =
  mrID :: string
  mrName :: string
  mrOwnerID :: string
  mrState :: room_phase
  mrWinnerID :: string
  mrMaxPlayers :: int
  mrPlayers :: "(string, unit) gomap"

record mono_config =
  cfListenAddr :: string
  cfDBPath :: string
  cfTokenTTL :: int
  cfHeartbeatTimeout :: int
  cfShutdownTimeout :: int

type_synonym states = "(string, player_state) gomap"

record 'd mono_server =
  moCfg :: mono_config
  moDB :: 'd
  moRooms :: "(string, mono_room) gomap"
  moPlayerRoom :: "(string, string) gomap"
  moGameStates :: "(string, states) gomap"
  moRoomConns :: "(string, (string, nat) gomap) gomap"
  moLastHB :: "(string, int) gomap"
  moRoomTickets :: "(string, (string, string) gomap) gomap"
  moRoomNextAdd :: "(string, int) gomap"
  moLobbySubs :: "nat list"
  moClosed :: "nat list"
  moLobbyOut :: "(nat \<times> jval) list"

definition mono_defaults :: "mono_config \<Rightarrow> mono_config" where
  "mono_defaults cfg =
     cfg\<lparr>cfListenAddr := (if cfListenAddr cfg = '''' then '':8099'' else cfListenAddr cfg),
        cfDBPath := (if cfDBPath cfg = '''' then ''./mono.db'' else cfDBPath cfg),
        cfTokenTTL := (if cfTokenTTL cfg \<le> 0 then 24 * 3600 * 1000000000 else cfTokenTTL cfg),
        cfHeartbeatTimeout := (if cfHeartbeatTimeout cfg \<le> 0 then 5 * 1000000000 else cfHeartbeatTimeout cfg),
        cfShutdownTimeout := (if cfShutdownTimeout cfg \<le> 0 then 10 * 1000000000 else cfShutdownTimeout cfg)\<rparr>"

definition mono_New :: "mono_config \<Rightarrow> 'd \<Rightarrow> 'd mono_server" where
  "mono_New cfg db =
     \<lparr>moCfg = mono_defaults cfg, moDB = db, moRooms = [], moPlayerRoom = [], moGameStates = [], moRoomConns = [],
      moLastHB = [], moRoomTickets = [], moRoomNextAdd = [], moLobbySubs = [], moClosed = [], moLobbyOut = []\<rparr>"

text \<open>The clock in seconds and in milliseconds.\<close>

definition unix_s :: "int \<Rightarrow> int" where "unix_s ns = ns div 1000000000"
definition unix_ms :: "int \<Rightarrow> int" where "unix_ms ns = ns div 1000000"

subsection \<open>Requests and answers\<close>

record http_request =
  rqMethod :: string
  rqAuthorization :: string
  rqCookie :: "string option"
  rqQuery :: "string \<Rightarrow> string"
  rqHost :: string
  rqLogin :: "(string \<times> string) option"
  rqName :: string
  rqMax :: int
  rqRoomID :: string

subsection \<open>Logging in\<close>

definition randHex :: "8 word list \<Rightarrow> string" where
  "randHex bs = hex_encode bs"

text \<open>\<open>ensureUser\<close>: a new user is inserted, a known one must give the stored password.\<close>

definition ensureUser :: "'d db_ops \<Rightarrow> int \<Rightarrow> string \<Rightarrow> string \<Rightarrow> 'd \<Rightarrow> 'd option" where
  "ensureUser db now username password d =
     (case dbCountUser db d username of
        None \<Rightarrow> None
      | Some n \<Rightarrow>
        if n = 0 then dbInsertUser db d username password (unix_s now)
        else (case dbPassword db d username of
            None \<Rightarrow> None
          | Some dbPwd \<Rightarrow> if dbPwd \<noteq> password then None else Some d))"

text \<open>\<open>_, _ = s.db.Exec(...)\<close>: a failed statement is ignored and leaves the database as it was.\<close>

fun exec_ignored :: "'d \<Rightarrow> 'd option \<Rightarrow> 'd" where
  "exec_ignored d None = d"
| "exec_ignored d (Some d') = d'"

definition handleLogin ::
  "'d db_ops \<Rightarrow> (nat \<Rightarrow> int) \<Rightarrow> 8 word list \<Rightarrow> http_request \<Rightarrow> 'd mono_server \<Rightarrow> http_reply \<times> 'd mono_server" where
  "handleLogin db clk rnd rq s =
     (if rqMethod rq \<noteq> ''POST'' then (HttpError 405 ''method not allowed'', s)
      else (case rqLogin rq of
          None \<Rightarrow> (HttpError 400 ''bad json'', s)
        | Some (username0, password) \<Rightarrow>
          (let username = TrimSpace username0
           in if username = '''' \<or> password = '''' then (HttpError 400 ''missing username/password'', s)
              else (case ensureUser db (clk 0) username password (moDB s) of
                  None \<Rightarrow> (HttpError 401 ''login failed'', s)
                | Some d \<Rightarrow>
                  (let token = randHex rnd; expAt = unix_s (clk 1 + cfTokenTTL (moCfg s))
                   in (HttpJson (JObj [(''token'', JStr token), (''player_id'', JStr username),
                                       (''expires_in'', jint (int_Seconds (cfTokenTTL (moCfg s))))]),
                       s\<lparr>moDB := exec_ignored d (dbPutToken db d token username expAt)\<rparr>))))))"

text \<open>
  \<open>strings.HasPrefix(strings.ToLower(token), "bearer ")\<close>: no character outside ASCII has a letter
  of this prefix as its lower case.
\<close>

definition ascii_lower :: "char \<Rightarrow> char" where
  "ascii_lower c = (if 65 \<le> (of_char c :: nat) \<and> of_char c \<le> (90::nat) then char_of ((of_char c :: nat) + 32) else c)"

definition has_bearer :: "string \<Rightarrow> bool" where
  "has_bearer t \<longleftrightarrow> map ascii_lower (take 7 t) = ''bearer ''"

definition request_token :: "http_request \<Rightarrow> string" where
  "request_token rq =
     (let t0 = TrimSpace (rqAuthorization rq);
          t1 = (if has_bearer t0 then TrimSpace (drop 7 t0) else t0);
          t2 = (if t1 = '''' then (case rqCookie rq of None \<Rightarrow> t1 | Some c \<Rightarrow> TrimSpace c) else t1)
      in if t2 = '''' then TrimSpace (rqQuery rq ''token'') else t2)"

datatype auth_error = MissingToken | InvalidToken | TokenExpired

definition authPlayer ::
  "'d db_ops \<Rightarrow> int \<Rightarrow> int \<Rightarrow> http_request \<Rightarrow> 'd mono_server \<Rightarrow> (auth_error + string) \<times> 'd mono_server" where
  "authPlayer db t1 t2 rq s =
     (let token = request_token rq
      in if token = '''' then (Inl MissingToken, s)
         else (case dbToken db (moDB s) token of
             None \<Rightarrow> (Inl InvalidToken, s)
           | Some (pid, expAt) \<Rightarrow>
             if expAt < unix_s t1 then (Inl TokenExpired, s)
             else (Inr pid, s\<lparr>moDB := exec_ignored (moDB s)
                     (dbRenewToken db (moDB s) (unix_s (t2 + cfTokenTTL (moCfg s))) token)\<rparr>)))"

subsection \<open>Telling the lobby\<close>

definition lobby_event :: "string \<Rightarrow> string \<Rightarrow> int \<Rightarrow> jval" where
  "lobby_event roomID playerID ts =
     JObj [(''type'', JStr ''lobby_rooms_updated''), (''room_id'', JStr roomID), (''player_id'', JStr playerID),
           (''ts'', jint ts)]"

definition tell_lobby :: "(nat \<Rightarrow> bool) \<Rightarrow> jval \<Rightarrow> 'd mono_server \<Rightarrow> nat \<Rightarrow> 'd mono_server" where
  "tell_lobby io evt s c =
     (if io c \<or> c \<in> set (moClosed s)
      then s\<lparr>moLobbySubs := filter (\<lambda>d. d \<noteq> c) (moLobbySubs s), moClosed := c # moClosed s\<rparr>
      else s\<lparr>moLobbyOut := moLobbyOut s @ [(c, evt)]\<rparr>)"

definition broadcastLobbyRoomsUpdated ::
  "(nat \<Rightarrow> bool) \<Rightarrow> int \<Rightarrow> string \<Rightarrow> string \<Rightarrow> 'd mono_server \<Rightarrow> 'd mono_server" where
  "broadcastLobbyRoomsUpdated io now roomID playerID s =
     foldl (tell_lobby io (lobby_event roomID playerID (unix_ms now))) s (moLobbySubs s)"

subsection \<open>Leaving a room\<close>

definition put_room :: "mono_room \<Rightarrow> 'd mono_server \<Rightarrow> 'd mono_server" where
  "put_room r s = s\<lparr>moRooms := mput (mrID r) r (moRooms s)\<rparr>"

definition forget_game :: "string \<Rightarrow> 'd mono_server \<Rightarrow> 'd mono_server" where
  "forget_game rid s =
     s\<lparr>moGameStates := mdel rid (moGameStates s), moRoomTickets := mdel rid (moRoomTickets s),
       moRoomNextAdd := mdel rid (moRoomNextAdd s)\<rparr>"

text \<open>The first remaining player that has a state and has not lost.\<close>

definition last_standing :: "states \<Rightarrow> string list \<Rightarrow> string option" where
  "last_standing states ps =
     List.find (\<lambda>p. case mget states p of None \<Rightarrow> False | Some st \<Rightarrow> Status st \<noteq> StLose) ps"

definition mo_close_old :: "nat option \<Rightarrow> 'd mono_server \<Rightarrow> 'd mono_server" where
  "mo_close_old oc s = (case oc of None \<Rightarrow> s | Some c \<Rightarrow> s\<lparr>moClosed := c # moClosed s\<rparr>)"

definition removePlayerLocked :: "string \<Rightarrow> string \<Rightarrow> 'd mono_server \<Rightarrow> 'd mono_server" where
  "removePlayerLocked pid rid s =
     (case mget (moRooms s) rid of
        None \<Rightarrow> s\<lparr>moPlayerRoom := mdel pid (moPlayerRoom s)\<rparr>
      | Some r0 \<Rightarrow>
        (let r1 = r0\<lparr>mrPlayers := mdel pid (mrPlayers r0)\<rparr>;
             s1 = mo_close_old (mget (get_or [] (moRoomConns s) rid) pid)
                    (s\<lparr>moRooms := mput rid r1 (moRooms s), moPlayerRoom := mdel pid (moPlayerRoom s)\<rparr>)
         in if length (mrPlayers r1) = 0
            then (forget_game rid s1)\<lparr>moRooms := mdel rid (moRooms s1), moRoomConns := mdel rid (moRoomConns s1)\<rparr>
            else
              (let (r2, s2) =
                     (if mrState r1 = PhPlaying \<and> length (mrPlayers r1) \<le> 1
                      then (r1\<lparr>mrState := PhWaiting,
                               mrWinnerID := (case last_standing (get_or [] (moGameStates s1) rid) (map fst (mrPlayers r1)) of
                                  None \<Rightarrow> '''' | Some w \<Rightarrow> w)\<rparr>,
                            forget_game rid s1)
                      else (r1, s1));
                   r3 = (if mrOwnerID r2 = pid then r2\<lparr>mrOwnerID := fst (hd (mrPlayers r2))\<rparr> else r2)
               in s2\<lparr>moRooms := mput rid r3 (moRooms s2)\<rparr>)))"

subsection \<open>The lobby\<close>

definition room_view :: "mono_room \<Rightarrow> jobj" where
  "room_view r =
     [(''room_id'', JStr (mrID r)), (''name'', JStr (mrName r)), (''owner_id'', JStr (mrOwnerID r)),
      (''state'', JStr (phase_text (mrState r))), (''winner_id'', JStr (mrWinnerID r)),
      (''player_cnt'', jint (int (length (mrPlayers r)))), (''max_players'', jint (mrMaxPlayers r))]"

definition mono_listRooms :: "'d mono_server \<Rightarrow> http_reply" where
  "mono_listRooms s =
     HttpJson (JObj [(''code'', jint 0), (''rooms'', JArr (map (\<lambda>(rid, r). JObj (room_view r)) (moRooms s)))])"

definition clamp_max :: "int \<Rightarrow> int" where
  "clamp_max n = (let n1 = (if n < 2 then 2 else n) in if n1 > 8 then 8 else n1)"

definition mono_createRoom ::
  "'d db_ops \<Rightarrow> (nat \<Rightarrow> bool) \<Rightarrow> (nat \<Rightarrow> int) \<Rightarrow> http_request \<Rightarrow> 'd mono_server \<Rightarrow> http_reply \<times> 'd mono_server" where
  "mono_createRoom db io clk rq s =
     (case authPlayer db (clk 0) (clk 1) rq s of
        (Inl err, s0) \<Rightarrow> (HttpError 401 ''unauthorized'', s0)
      | (Inr pid, s0) \<Rightarrow>
        (let s1 = (case mget (moPlayerRoom s0) pid of None \<Rightarrow> s0 | Some rid \<Rightarrow> removePlayerLocked pid rid s0);
             rid = FormatInt (clk 2);
             room = \<lparr>mrID = rid, mrName = (if rqName rq = '''' then ''Room'' else rqName rq), mrOwnerID = pid,
                     mrState = PhWaiting, mrWinnerID = '''', mrMaxPlayers = clamp_max (rqMax rq), mrPlayers = [(pid, ())]\<rparr>;
             s2 = s1\<lparr>moRooms := mput rid room (moRooms s1), moPlayerRoom := mput pid rid (moPlayerRoom s1)\<rparr>
         in (HttpJson (JObj [(''code'', jint 0), (''room'', JObj (room_view room))]),
             broadcastLobbyRoomsUpdated io (clk 3) rid pid s2)))"

definition handleRooms ::
  "'d db_ops \<Rightarrow> (nat \<Rightarrow> bool) \<Rightarrow> (nat \<Rightarrow> int) \<Rightarrow> http_request \<Rightarrow> 'd mono_server \<Rightarrow> http_reply \<times> 'd mono_server" where
  "handleRooms db io clk rq s =
     (if rqMethod rq = ''GET'' then (mono_listRooms s, s)
      else if rqMethod rq = ''POST'' then mono_createRoom db io clk rq s
      else (HttpError 405 ''method not allowed'', s))"

definition handleJoin ::
  "'d db_ops \<Rightarrow> (nat \<Rightarrow> bool) \<Rightarrow> (nat \<Rightarrow> int) \<Rightarrow> http_request \<Rightarrow> 'd mono_server \<Rightarrow> http_reply \<times> 'd mono_server" where
  "handleJoin db io clk rq s =
     (if rqMethod rq \<noteq> ''POST'' then (HttpError 405 ''method not allowed'', s)
      else (case authPlayer db (clk 0) (clk 1) rq s of
          (Inl err, s0) \<Rightarrow> (HttpError 401 ''unauthorized'', s0)
        | (Inr pid, s0) \<Rightarrow>
          (case mget (moRooms s0) (rqRoomID rq) of
             None \<Rightarrow> (HttpError 404 ''room not found'', s0)
           | Some room \<Rightarrow>
             if mhas (mrPlayers room) pid then (HttpJson (JObj [(''code'', jint 0)]), s0)
             else if int (length (mrPlayers room)) \<ge> mrMaxPlayers room then (HttpError 409 ''room full'', s0)
             else
               (let s1 = s0\<lparr>moRooms := mput (rqRoomID rq) (room\<lparr>mrPlayers := mput pid () (mrPlayers room)\<rparr>) (moRooms s0),
                           moPlayerRoom := mput pid (mrID room) (moPlayerRoom s0)\<rparr>
                in (HttpJson (JObj [(''code'', jint 0)]),
                    broadcastLobbyRoomsUpdated io (clk 2) (mrID room) pid s1)))))"

definition handleLeave ::
  "'d db_ops \<Rightarrow> (nat \<Rightarrow> bool) \<Rightarrow> (nat \<Rightarrow> int) \<Rightarrow> http_request \<Rightarrow> 'd mono_server \<Rightarrow> http_reply \<times> 'd mono_server" where
  "handleLeave db io clk rq s =
     (if rqMethod rq \<noteq> ''POST'' then (HttpError 405 ''method not allowed'', s)
      else (case authPlayer db (clk 0) (clk 1) rq s of
          (Inl err, s0) \<Rightarrow> (HttpError 401 ''unauthorized'', s0)
        | (Inr pid, s0) \<Rightarrow>
          (let rid = get_or '''' (moPlayerRoom s0) pid;
               s1 = (if rid \<noteq> '''' then removePlayerLocked pid rid s0 else s0)
           in (HttpJson (JObj [(''code'', jint 0), (''next_page'', JStr ''/lobby'')]),
               broadcastLobbyRoomsUpdated io (clk 2) rid pid s1))))"

definition handleRoomDetail ::
  "'d db_ops \<Rightarrow> (nat \<Rightarrow> int) \<Rightarrow> http_request \<Rightarrow> 'd mono_server \<Rightarrow> http_reply \<times> 'd mono_server" where
  "handleRoomDetail db clk rq s =
     (if rqMethod rq \<noteq> ''GET'' then (HttpError 405 ''method not allowed'', s)
      else (case authPlayer db (clk 0) (clk 1) rq s of
          (Inl err, s0) \<Rightarrow> (HttpError 401 ''unauthorized'', s0)
        | (Inr pid, s0) \<Rightarrow>
          (let rid = TrimSpace (rqQuery rq ''room_id'')
           in (case mget (moRooms s0) rid of
                 None \<Rightarrow> (HttpError 404 ''room not found'', s0)
               | Some room \<Rightarrow>
                 if get_or '''' (moPlayerRoom s0) pid \<noteq> rid then (HttpError 403 ''player not in room'', s0)
                 else
                   (HttpJson (JObj
                      [(''code'', jint 0), (''room'', JObj (room_view (room\<lparr>mrID := rid\<rparr>))),
                       (''members'', JArr (map (\<lambda>(p, u). JStr p) (mrPlayers room))),
                       (''is_owner'', JBool (pid = mrOwnerID room)), (''game_addr'', JStr (rqHost rq)),
                       (''game_ticket'', JStr (case mget (moRoomTickets s0) rid of
                                          None \<Rightarrow> '''' | Some ts \<Rightarrow> get_or '''' ts pid))]), s0)))))"

subsection \<open>Starting a game\<close>

text \<open>The draws for one player: colours, board and the bytes of the ticket.\<close>

record seat_draws =
  sdCurrent :: int
  sdNext :: int
  sdCoin :: "int \<Rightarrow> int \<Rightarrow> float64"
  sdPick :: "int \<Rightarrow> int \<Rightarrow> int"
  sdTicket :: "8 word list"

definition new_states :: "int \<Rightarrow> (string \<Rightarrow> seat_draws) \<Rightarrow> (string, unit) gomap \<Rightarrow> states" where
  "new_states now draws players =
     map (\<lambda>(p, u). (p, NewInitialState (unix_ms now) (sdCurrent (draws p)) (sdNext (draws p)) (sdCoin (draws p)) (sdPick (draws p))))
       players"

definition new_tickets :: "(string \<Rightarrow> seat_draws) \<Rightarrow> (string, unit) gomap \<Rightarrow> (string, string) gomap" where
  "new_tickets draws players = map (\<lambda>(p, u). (p, randHex (sdTicket (draws p)))) players"

definition handleStart ::
  "'d db_ops \<Rightarrow> (nat \<Rightarrow> bool) \<Rightarrow> (nat \<Rightarrow> int) \<Rightarrow> (string \<Rightarrow> seat_draws) \<Rightarrow> http_request \<Rightarrow> 'd mono_server
     \<Rightarrow> http_reply \<times> 'd mono_server" where
  "handleStart db io clk draws rq s =
     (if rqMethod rq \<noteq> ''POST'' then (HttpError 405 ''method not allowed'', s)
      else (case authPlayer db (clk 0) (clk 1) rq s of
          (Inl err, s0) \<Rightarrow> (HttpError 401 ''unauthorized'', s0)
        | (Inr pid, s0) \<Rightarrow>
          (case mget (moRooms s0) (rqRoomID rq) of
             None \<Rightarrow> (HttpError 404 ''room not found'', s0)
           | Some room \<Rightarrow>
             if mrOwnerID room \<noteq> pid then (HttpError 403 ''only owner can start'', s0)
             else if length (mrPlayers room) < 2 then (HttpError 409 ''need at least 2 players'', s0)
             else
               (let rid = mrID room; tickets = new_tickets draws (mrPlayers room);
                    s1 = s0\<lparr>moRooms := mput (rqRoomID rq) (room\<lparr>mrState := PhPlaying, mrWinnerID := ''''\<rparr>) (moRooms s0),
                            moGameStates := mput rid (new_states (clk 2) draws (mrPlayers room)) (moGameStates s0),
                            moRoomTickets := mput rid tickets (moRoomTickets s0),
                            moRoomNextAdd := mput rid (unix_ms (clk 3) + 10000) (moRoomNextAdd s0)\<rparr>
                in (HttpJson (JObj [(''code'', jint 0), (''msg'', JStr ''started''), (''game_addr'', JStr (rqHost rq)),
                                    (''game_ticket'', JStr (get_or '''' tickets pid))]),
                    broadcastLobbyRoomsUpdated io (clk 4) rid pid s1)))))"

subsection \<open>The outcome of a game\<close>

text \<open>The players of the room with a state, split into those that lost and those alive.\<close>

definition room_alive :: "mono_room \<Rightarrow> states \<Rightarrow> string list" where
  "room_alive room states =
     filter (\<lambda>p. case mget states p of None \<Rightarrow> False | Some st \<Rightarrow> Status st \<noteq> StLose) (map fst (mrPlayers room))"

definition room_losers :: "mono_room \<Rightarrow> states \<Rightarrow> string list" where
  "room_losers room states =
     filter (\<lambda>p. case mget states p of None \<Rightarrow> False | Some st \<Rightarrow> Status st = StLose) (map fst (mrPlayers room))"

definition room_winner :: "mono_room \<Rightarrow> states \<Rightarrow> string option" where
  "room_winner room states =
     (if mrState room \<noteq> PhPlaying \<or> length (mrPlayers room) < 2 then None
      else if length (room_losers room states) = 0 \<or> length (room_alive room states) \<noteq> 1 then None
      else Some (hd (room_alive room states)))"

text \<open>What the states become: loops that still hold them show the outcome once.\<close>

definition final_state :: "string \<Rightarrow> string \<Rightarrow> player_state \<Rightarrow> player_state" where
  "final_state w p st =
     (let st1 = st\<lparr>Moving := None, PendingShot := False\<rparr>
      in if p = w then (if Status st1 \<noteq> StLose then st1\<lparr>Status := StWin\<rparr> else st1) else st1\<lparr>Status := StLose\<rparr>)"

definition resolveRoomOutcomeLocked :: "string \<Rightarrow> 'd mono_server \<Rightarrow> 'd mono_server" where
  "resolveRoomOutcomeLocked roomID s =
     (case mget (moRooms s) roomID of
        None \<Rightarrow> s
      | Some room \<Rightarrow>
        (case mget (moGameStates s) roomID of
           None \<Rightarrow> s
         | Some states \<Rightarrow>
           (case room_winner room states of
              None \<Rightarrow> s
            | Some w \<Rightarrow>
              forget_game roomID
                (s\<lparr>moRooms := mput roomID (room\<lparr>mrState := PhWaiting, mrWinnerID := w\<rparr>) (moRooms s)\<rparr>))))"

subsection \<open>New layers\<close>

definition canAddLayer :: "states \<Rightarrow> bool" where
  "canAddLayer states \<longleftrightarrow>
     length states \<noteq> 0 \<and> list_all (\<lambda>(p, st). Status st = StPlaying \<and> Moving st = None \<and> \<not> PendingShot st) states"

text \<open>The loop: \<open>draw k p\<close> are the colours of the k-th layer of player p.\<close>

function add_layers :: "(nat \<Rightarrow> string \<Rightarrow> int \<Rightarrow> int) \<Rightarrow> int \<Rightarrow> nat \<Rightarrow> int \<Rightarrow> states \<Rightarrow> int \<times> states" where
  "add_layers draw now k nextAt states =
     (if now < nextAt \<or> \<not> canAddLayer states then (nextAt, states)
      else add_layers draw now (Suc k) (nextAt + 10000) (mmap_vals (\<lambda>p st. AddTopLayer st (draw k p)) states))"
  by pat_completeness auto
termination by (relation "measure (\<lambda>(draw, now, k, nextAt, states). nat (now + 1 - nextAt))") auto

declare add_layers.simps [simp del]

definition maybeAddTopLayerLocked ::
  "(nat \<Rightarrow> string \<Rightarrow> int \<Rightarrow> int) \<Rightarrow> string \<Rightarrow> int \<Rightarrow> 'd mono_server \<Rightarrow> 'd mono_server" where
  "maybeAddTopLayerLocked draw roomID now s =
     (case mget (moRooms s) roomID of
        None \<Rightarrow> s\<lparr>moRoomNextAdd := mdel roomID (moRoomNextAdd s)\<rparr>
      | Some room \<Rightarrow>
        if mrState room \<noteq> PhPlaying then s\<lparr>moRoomNextAdd := mdel roomID (moRoomNextAdd s)\<rparr>
        else
          (let states = get_or [] (moGameStates s) roomID
           in if length states = 0 then s
              else
                (let nextAt = get_or 0 (moRoomNextAdd s) roomID
                 in if nextAt \<le> 0 then s\<lparr>moRoomNextAdd := mput roomID (now + 10000) (moRoomNextAdd s)\<rparr>
                    else if now \<ge> nextAt \<and> \<not> canAddLayer states then s
                    else (case add_layers draw now 0 nextAt states of
                        (nextAt', states') \<Rightarrow>
                          s\<lparr>moGameStates := mput roomID states' (moGameStates s),
                            moRoomNextAdd := mput roomID nextAt' (moRoomNextAdd s)\<rparr>))))"

subsection \<open>The game connection\<close>

datatype room_open = RoUnauthorized | RoMissingRoom | RoUpgradeFailed | RoNotInRoom | RoBadTicket | RoAttached string

text \<open>\<open>handleWSRoom\<close> in its two critical sections: the check, and the registration.\<close>

definition room_check :: "string \<Rightarrow> string \<Rightarrow> string \<Rightarrow> 'd mono_server \<Rightarrow> room_open" where
  "room_check pid roomID ticket s =
     (if get_or '''' (moPlayerRoom s) pid \<noteq> roomID then RoNotInRoom
      else (case mget (moRooms s) roomID of
          None \<Rightarrow> RoAttached pid
        | Some room \<Rightarrow>
          if mrState room = PhPlaying
          then (case mget (moRoomTickets s) roomID of
              None \<Rightarrow> RoAttached pid
            | Some ts \<Rightarrow>
              if get_or '''' ts pid = '''' \<or> get_or '''' ts pid \<noteq> ticket then RoBadTicket else RoAttached pid)
          else RoAttached pid))"

definition room_attach :: "int \<Rightarrow> string \<Rightarrow> string \<Rightarrow> nat \<Rightarrow> 'd mono_server \<Rightarrow> 'd mono_server" where
  "room_attach now roomID pid conn s =
     (let conns = get_or [] (moRoomConns s) roomID;
          s1 = mo_close_old (mget conns pid) s
      in s1\<lparr>moRoomConns := mput roomID (mput pid conn conns) (moRoomConns s1),
            moLastHB := mput pid (unix_ms now) (moLastHB s1)\<rparr>)"

definition mono_handleWSRoom ::
  "'d db_ops \<Rightarrow> (nat \<Rightarrow> int) \<Rightarrow> nat option \<Rightarrow> http_request \<Rightarrow> 'd mono_server \<Rightarrow> room_open \<times> 'd mono_server" where
  "mono_handleWSRoom db clk upgraded rq s =
     (case authPlayer db (clk 0) (clk 1) rq s of
        (Inl err, s0) \<Rightarrow> (RoUnauthorized, s0)
      | (Inr pid, s0) \<Rightarrow>
        (let roomID = TrimSpace (rqQuery rq ''room_id''); ticket = TrimSpace (rqQuery rq ''ticket'')
         in if roomID = '''' then (RoMissingRoom, s0)
            else (case upgraded of
                None \<Rightarrow> (RoUpgradeFailed, s0)
              | Some conn \<Rightarrow>
                (case room_check pid roomID ticket s0 of
                   RoAttached p \<Rightarrow> (RoAttached p, room_attach (clk 2) roomID pid conn s0)
                 | refused \<Rightarrow> (refused, s0\<lparr>moClosed := conn # moClosed s0\<rparr>)))))"

definition mono_handleWSRoom_done :: "string \<Rightarrow> string \<Rightarrow> nat \<Rightarrow> 'd mono_server \<Rightarrow> 'd mono_server" where
  "mono_handleWSRoom_done roomID pid conn s =
     (let s1 = (case mget (moRoomConns s) roomID of
                  None \<Rightarrow> s
                | Some m \<Rightarrow>
                  (let m' = mdel pid m
                   in if length m' = 0 then s\<lparr>moRoomConns := mdel roomID (moRoomConns s)\<rparr>
                      else s\<lparr>moRoomConns := mput roomID m' (moRoomConns s)\<rparr>))
      in s1\<lparr>moClosed := conn # moClosed s1\<rparr>)"

definition put_state :: "string \<Rightarrow> string \<Rightarrow> states \<Rightarrow> player_state \<Rightarrow> 'd mono_server \<Rightarrow> 'd mono_server" where
  "put_state roomID pid states st s = s\<lparr>moGameStates := mput roomID (mput pid st states) (moGameStates s)\<rparr>"

text \<open>The three cases of a message; a failed operation changes nothing.\<close>

definition player_message ::
  "(nat \<Rightarrow> int) \<Rightarrow> int \<Rightarrow> string \<Rightarrow> string \<Rightarrow> jobj \<Rightarrow> states \<Rightarrow> player_state \<Rightarrow> 'd mono_server \<Rightarrow> 'd mono_server" where
  "player_message clk draw roomID pid req states st s =
     (let typ = as_string (jget req ''type'') in
      if typ = ''aim'' then
        (case jget req ''angle'' of
           JNum a \<Rightarrow> put_state roomID pid states (st\<lparr>AimAngle := ClampAim a\<rparr>) s
         | _ \<Rightarrow> s)
      else if typ = ''shot'' then
        (case jget req ''angle'' of
           JNum a \<Rightarrow> (case BeginClientShot (Some st) a (unix_ms (clk 1)) of
               Inl err \<Rightarrow> s
             | Inr st' \<Rightarrow> put_state roomID pid states st' s)
         | _ \<Rightarrow> s)
      else if typ = ''land'' then
        resolveRoomOutcomeLocked roomID
          (case CommitLanding (Some st) (toFloat64 (jget req ''angle'')) (toFloat64 (jget req ''x''))
                  (toFloat64 (jget req ''y'')) draw of
             Inl err \<Rightarrow> s
           | Inr st' \<Rightarrow> put_state roomID pid states st' s)
      else s)"

definition readPlayerWS ::
  "(nat \<Rightarrow> int) \<Rightarrow> int \<Rightarrow> string \<Rightarrow> string \<Rightarrow> jobj \<Rightarrow> 'd mono_server \<Rightarrow> 'd mono_server" where
  "readPlayerWS clk draw roomID pid req s =
     (let s1 = s\<lparr>moLastHB := mput pid (unix_ms (clk 0)) (moLastHB s)\<rparr>
      in (case mget (moGameStates s1) roomID of
            None \<Rightarrow> s1
          | Some states \<Rightarrow>
            (case mget states pid of
               None \<Rightarrow> s1
             | Some st \<Rightarrow> player_message clk draw roomID pid req states st s1)))"

definition tick_all :: "int \<Rightarrow> (string \<Rightarrow> int) \<Rightarrow> states \<Rightarrow> states" where
  "tick_all nowMS draw states = mmap_vals (\<lambda>p st. the (TickState (Some st) nowMS (draw p))) states"

text \<open>
  The states the loop still holds after a tick: those of the room, or, when the game has just
  been decided and taken out of the maps, the final ones.
\<close>

definition held_states :: "string \<Rightarrow> mono_room \<Rightarrow> states \<Rightarrow> 'd mono_server \<Rightarrow> states" where
  "held_states roomID room ticked s3 =
     (case room_winner room ticked of
        Some w \<Rightarrow> mmap_vals (final_state w) ticked
      | None \<Rightarrow> get_or [] (moGameStates s3) roomID)"

definition others_view :: "string \<Rightarrow> states \<Rightarrow> jval" where
  "others_view pid states =
     JArr (map (\<lambda>(p, st). JObj [(''player_id'', JStr p), (''state'', the (CloneState (Some st)))])
       (filter (\<lambda>(p, st). p \<noteq> pid) states))"

text \<open>The game of a room that is played moves on to time \<open>nowMS\<close>.\<close>

definition tick_room ::
  "int \<Rightarrow> (string \<Rightarrow> int) \<Rightarrow> (nat \<Rightarrow> string \<Rightarrow> int \<Rightarrow> int) \<Rightarrow> string \<Rightarrow> states \<Rightarrow> 'd mono_server \<Rightarrow> 'd mono_server" where
  "tick_room nowMS draw layer roomID states s =
     maybeAddTopLayerLocked layer roomID nowMS
       (resolveRoomOutcomeLocked roomID
          (s\<lparr>moGameStates := mput roomID (tick_all nowMS draw states) (moGameStates s)\<rparr>))"

definition mono_buildState ::
  "int \<Rightarrow> (string \<Rightarrow> int) \<Rightarrow> (nat \<Rightarrow> string \<Rightarrow> int \<Rightarrow> int) \<Rightarrow> string \<Rightarrow> string \<Rightarrow> 'd mono_server
     \<Rightarrow> (jval option \<times> 'd mono_server) option" where
  "mono_buildState nowMS draw layer roomID pid s =
     (case mget (moRooms s) roomID of
        None \<Rightarrow> Some (None, s)
      | Some room \<Rightarrow>
        (case mget (moGameStates s) roomID of
           None \<Rightarrow>
             Some (Some (JObj [(''type'', JStr ''state''),
                (''room'', JObj [(''room_id'', JStr roomID), (''state'', JStr (phase_text (mrState room)))]),
                (''self'', JNull), (''others'', JArr [])]), s)
         | Some states \<Rightarrow>
           (let s3 = tick_room nowMS draw layer roomID states s;
                held = held_states roomID room (tick_all nowMS draw states) s3;
                room' = the (mget (moRooms s3) roomID)
            in (case CloneState (mget held pid) of
                  None \<Rightarrow> None
                | Some self \<Rightarrow>
                  Some (Some (JObj [(''type'', JStr ''state''),
                    (''room'', JObj [(''room_id'', JStr roomID), (''state'', JStr (phase_text (mrState room'))),
                                    (''winner_id'', JStr (mrWinnerID room'))]),
                    (''self'', self), (''others'', others_view pid held)]), s3)))))"

subsection \<open>The heartbeat loop\<close>

definition mono_timeout_ms :: "'d mono_server \<Rightarrow> int" where
  "mono_timeout_ms s =
     (let t = cfHeartbeatTimeout (moCfg s) sdiv 1000000 in if t \<le> 0 then 5000 else t)"

definition mono_expired :: "int \<Rightarrow> 'd mono_server \<Rightarrow> string list" where
  "mono_expired nowMS s = map fst (filter (\<lambda>(pid, hb). nowMS - hb > mono_timeout_ms s) (moLastHB s))"

definition expire_seat :: "(nat \<Rightarrow> bool) \<Rightarrow> int \<Rightarrow> 'd mono_server \<Rightarrow> string \<Rightarrow> 'd mono_server" where
  "expire_seat io now s pid =
     (let rid = get_or '''' (moPlayerRoom s) pid;
          s1 = (if rid \<noteq> '''' then broadcastLobbyRoomsUpdated io now rid pid (removePlayerLocked pid rid s) else s)
      in s1\<lparr>moLastHB := mdel pid (moLastHB s1)\<rparr>)"

definition heartbeatLoop :: "(nat \<Rightarrow> bool) \<Rightarrow> int \<Rightarrow> int \<Rightarrow> 'd mono_server \<Rightarrow> 'd mono_server" where
  "heartbeatLoop io t1 t2 s = foldl (expire_seat io t2) s (mono_expired (unix_ms t1) s)"

subsection \<open>The lobby connection\<close>

definition handleWSLobby ::
  "'d db_ops \<Rightarrow> (nat \<Rightarrow> int) \<Rightarrow> nat option \<Rightarrow> http_request \<Rightarrow> 'd mono_server \<Rightarrow> bool \<times> 'd mono_server" where
  "handleWSLobby db clk upgraded rq s =
     (case authPlayer db (clk 0) (clk 1) rq s of
        (Inl err, s0) \<Rightarrow> (False, s0)
      | (Inr pid, s0) \<Rightarrow>
        (case upgraded of
           None \<Rightarrow> (False, s0)
         | Some conn \<Rightarrow> (True, s0\<lparr>moLobbySubs := conn # filter (\<lambda>d. d \<noteq> conn) (moLobbySubs s0)\<rparr>)))"

definition handleWSLobby_done :: "nat \<Rightarrow> 'd mono_server \<Rightarrow> 'd mono_server" where
  "handleWSLobby_done conn s =
     s\<lparr>moLobbySubs := filter (\<lambda>d. d \<noteq> conn) (moLobbySubs s), moClosed := conn # moClosed s\<rparr>"

end
