(* ===== verification/MonoProps.thy ===== *)
theory MonoProps
  imports Mono
begin

text \<open>
  The invariant of the all-in-one server (\<open>internal/mono/server.go\<close>): every room is in order, a
  room that is played has its states, its tickets and its next layer and no other room has any,
  and the room a player is registered in seats the player. Then the states the server reaches.
\<close>

subsection \<open>Tables of states\<close>

definition states_ok :: "(player_state \<Rightarrow> bool) \<Rightarrow> states \<Rightarrow> bool" where
  "states_ok ok states \<longleftrightarrow> wf_map states \<and> (\<forall>p st. mget states p = Some st \<longrightarrow> ok st)"

lemma states_okD: "states_ok ok states \<Longrightarrow> mget states p = Some st \<Longrightarrow> ok st"
  by (simp add: states_ok_def)

lemma states_ok_Nil [simp]: "states_ok ok []"
  by (simp add: states_ok_def)

lemma states_ok_put: "states_ok ok m \<Longrightarrow> ok st \<Longrightarrow> states_ok ok (mput p st m)"
  by (auto simp: states_ok_def)

lemma states_ok_del: "states_ok ok m \<Longrightarrow> states_ok ok (mdel p m)"
  by (auto simp: states_ok_def)

lemma states_ok_map: "states_ok ok m \<Longrightarrow> (\<And>p st. ok st \<Longrightarrow> ok (f p st)) \<Longrightarrow> states_ok ok (mmap_vals f m)"
  by (auto simp: states_ok_def)

definition seat_fair :: "seat_draws \<Rightarrow> bool" where
  "seat_fair d \<longleftrightarrow> colour (sdCurrent d) \<and> colour (sdNext d) \<and> (\<forall>r c. colour (sdPick d r c))"

lemma mget_seats: "mget (map (\<lambda>(p, u). (p, f p)) m) q = (if mhas m q then Some (f q) else None)"
  by (induction m) (auto simp: mhas_def)

context game_rules
begin

lemma seat_new: "seat_fair d \<Longrightarrow> ok (NewInitialState now (sdCurrent d) (sdNext d) (sdCoin d) (sdPick d))"
  by (rule new) (simp_all add: seat_fair_def)

lemma tables_new:
  assumes "wf_map players" and "\<forall>p. seat_fair (draws p)"
  shows "states_ok ok (new_states now draws players)"
proof -
  have "map fst (new_states now draws players) = map fst players"
    by (auto simp: new_states_def comp_def split_beta)
  then have "wf_map (new_states now draws players)" using assms(1) by (simp only: wf_map_def)
  then show ?thesis
    using assms(2) seat_new by (auto simp: states_ok_def new_states_def mget_seats split: if_splits)
qed

lemma tables_tick: "states_ok ok m \<Longrightarrow> \<forall>p. colour (draw p) \<Longrightarrow> states_ok ok (tick_all t draw m)"
  unfolding tick_all_def by (intro states_ok_map) (use tick in auto)

lemma final: "ok st \<Longrightarrow> ok (final_state w p st)"
  using outcome[OF settle] settle by (simp add: final_state_def Let_def)

lemma tables_final: "states_ok ok m \<Longrightarrow> states_ok ok (mmap_vals (final_state w) m)"
  by (rule states_ok_map) (use final in auto)

lemma tables_layers:
  "\<forall>k p c. colour (draw k p c) \<Longrightarrow> states_ok ok states \<Longrightarrow> add_layers draw now k n states = (n', states') \<Longrightarrow>
     states_ok ok states' \<and> map fst states' = map fst states"
proof (induction draw now k n states rule: add_layers.induct)
  case (1 draw now k nextAt states)
  show ?case
  proof (cases "now < nextAt \<or> \<not> canAddLayer states")
    case True
    then show ?thesis using 1(3,4) by (simp add: add_layers.simps[of draw now k nextAt])
  next
    case False
    let ?sts = "mmap_vals (\<lambda>p st. AddTopLayer st (draw k p)) states"
    have "add_layers draw now (Suc k) (nextAt + 10000) ?sts = (n', states')"
      using 1(4) False by (subst (asm) add_layers.simps) simp
    moreover have "states_ok ok ?sts" by (rule states_ok_map[OF 1(3)]) (use layer 1(2) in blast)
    ultimately show ?thesis using 1(1)[OF False 1(2)] by simp
  qed
qed

end

subsection \<open>The invariant\<close>

definition mono_wf_room :: "string \<Rightarrow> mono_room \<Rightarrow> bool" where
  "mono_wf_room rid r \<longleftrightarrow>
     mrID r = rid \<and> wf_map (mrPlayers r) \<and> mhas (mrPlayers r) (mrOwnerID r)
     \<and> 2 \<le> mrMaxPlayers r \<and> mrMaxPlayers r \<le> 8 \<and> int (length (mrPlayers r)) \<le> mrMaxPlayers r
     \<and> (mrState r = PhPlaying \<longrightarrow> 2 \<le> length (mrPlayers r) \<and> mrWinnerID r = '''')"

abbreviation wf_states :: "states \<Rightarrow> bool" where
  "wf_states \<equiv> states_ok player_ok"

definition played :: "'d mono_server \<Rightarrow> string \<Rightarrow> bool" where
  "played s rid \<longleftrightarrow> (\<exists>states tickets nextAt. mget (moGameStates s) rid = Some states \<and> wf_states states
     \<and> mget (moRoomTickets s) rid = Some tickets \<and> map fst tickets = map fst states
     \<and> mget (moRoomNextAdd s) rid = Some nextAt)"

definition idle :: "'d mono_server \<Rightarrow> string \<Rightarrow> bool" where
  "idle s rid \<longleftrightarrow> mget (moGameStates s) rid = None \<and> mget (moRoomTickets s) rid = None
     \<and> mget (moRoomNextAdd s) rid = None"

definition room_ok :: "'d mono_server \<Rightarrow> string \<Rightarrow> bool" where
  "room_ok s rid \<longleftrightarrow>
     (case mget (moRooms s) rid of
        None \<Rightarrow> idle s rid
      | Some r \<Rightarrow> mono_wf_room rid r \<and> (if mrState r = PhPlaying then played s rid else idle s rid))"

definition seated :: "'d mono_server \<Rightarrow> string \<Rightarrow> string \<Rightarrow> bool" where
  "seated s p rid \<longleftrightarrow> (\<exists>r. mget (moRooms s) rid = Some r \<and> mhas (mrPlayers r) p)"

definition mono_ok :: "'d mono_server \<Rightarrow> bool" where
  "mono_ok s \<longleftrightarrow> (\<forall>rid. room_ok s rid)
     \<and> (\<forall>p rid. mget (moPlayerRoom s) p = Some rid \<longrightarrow> seated s p rid)
     \<and> mget (moRooms s) '''' = None"

interpretation seats: seat_index moRooms moPlayerRoom "\<lambda>r. mkeys (mrPlayers r)" mono_ok
  by unfold_locales (auto simp: mono_ok_def seated_def mhas_def mkeys_iff)

lemma mono_ok_seated: "mono_ok s \<Longrightarrow> mget (moPlayerRoom s) p = Some rid \<Longrightarrow> seated s p rid"
  using seats.lookup by (fastforce simp: seated_def mhas_def mkeys_iff)

text \<open>What authentication, connections and broadcasts leave as it is.\<close>

definition same_rooms :: "'d mono_server \<Rightarrow> 'd mono_server \<Rightarrow> bool" where
  "same_rooms s s' \<longleftrightarrow> moRooms s' = moRooms s \<and> moPlayerRoom s' = moPlayerRoom s \<and> moGameStates s' = moGameStates s
     \<and> moRoomTickets s' = moRoomTickets s \<and> moRoomNextAdd s' = moRoomNextAdd s"

lemma same_rooms_refl [simp]: "same_rooms s s"
  by (simp add: same_rooms_def)

lemma same_rooms_trans: "same_rooms a b \<Longrightarrow> same_rooms b c \<Longrightarrow> same_rooms a c"
  by (simp add: same_rooms_def)

lemma room_ok_cong:
  assumes "mget (moRooms s') k = mget (moRooms s) k" and "mget (moGameStates s') k = mget (moGameStates s) k"
    and "mget (moRoomTickets s') k = mget (moRoomTickets s) k" and "mget (moRoomNextAdd s') k = mget (moRoomNextAdd s) k"
  shows "room_ok s' k = room_ok s k"
proof -
  have "idle s' k = idle s k" "played s' k = played s k" using assms by (simp_all add: idle_def played_def)
  then show ?thesis using assms(1) by (simp add: room_ok_def split: option.split)
qed

lemma mono_ok_same:
  assumes "same_rooms s s'" and "mono_ok s"
  shows "mono_ok s'"
proof -
  have "room_ok s' k = room_ok s k" for k using assms(1) by (intro room_ok_cong) (simp_all add: same_rooms_def)
  then show ?thesis using assms by (simp add: same_rooms_def mono_ok_def seated_def)
qed

lemma tell_lobby_rooms [simp]: "same_rooms s (tell_lobby io evt s c)"
  by (simp add: tell_lobby_def same_rooms_def)

lemma broadcast_rooms [simp]: "same_rooms s (broadcastLobbyRoomsUpdated io now rid pid s)"
  unfolding broadcastLobbyRoomsUpdated_def
  by (rule foldl_invariant) (auto intro: same_rooms_trans)

lemma authPlayer_rooms: "authPlayer db t1 t2 rq s = (res, s') \<Longrightarrow> same_rooms s s'"
  by (auto simp: authPlayer_def Let_def same_rooms_def split: if_splits option.splits prod.splits)

lemma close_old_rooms [simp]:
  "moRooms (mo_close_old c s) = moRooms s" "moPlayerRoom (mo_close_old c s) = moPlayerRoom s"
  "moGameStates (mo_close_old c s) = moGameStates s" "moRoomTickets (mo_close_old c s) = moRoomTickets s"
  "moRoomNextAdd (mo_close_old c s) = moRoomNextAdd s" "moRoomConns (mo_close_old c s) = moRoomConns s"
  by (auto simp: mo_close_old_def split: option.split)

subsection \<open>Leaving\<close>

text \<open>The room after pid has left it, when somebody stays.\<close>

definition room_after :: "string \<Rightarrow> states \<Rightarrow> mono_room \<Rightarrow> mono_room" where
  "room_after pid states r0 =
     (let r1 = r0\<lparr>mrPlayers := mdel pid (mrPlayers r0)\<rparr>;
          r2 = (if mrState r0 = PhPlaying \<and> length (mrPlayers r1) \<le> 1
                then r1\<lparr>mrState := PhWaiting,
                        mrWinnerID := (case last_standing states (map fst (mrPlayers r1)) of None \<Rightarrow> '''' | Some w \<Rightarrow> w)\<rparr>
                else r1)
      in if mrOwnerID r2 = pid then r2\<lparr>mrOwnerID := fst (hd (mrPlayers r2))\<rparr> else r2)"

definition game_ends :: "string \<Rightarrow> mono_room \<Rightarrow> bool" where
  "game_ends pid r0 \<longleftrightarrow> mdel pid (mrPlayers r0) = [] \<or> mrState r0 = PhPlaying \<and> length (mdel pid (mrPlayers r0)) \<le> 1"

lemma remove_view:
  assumes "mget (moRooms s) rid = Some r0"
  shows "mget (moRooms (removePlayerLocked pid rid s)) k =
      (if k = rid then (if mdel pid (mrPlayers r0) = [] then None
         else Some (room_after pid (get_or [] (moGameStates s) rid) r0)) else mget (moRooms s) k)"
    "mget (moGameStates (removePlayerLocked pid rid s)) k =
      (if k = rid \<and> game_ends pid r0 then None else mget (moGameStates s) k)"
    "mget (moRoomTickets (removePlayerLocked pid rid s)) k =
      (if k = rid \<and> game_ends pid r0 then None else mget (moRoomTickets s) k)"
    "mget (moRoomNextAdd (removePlayerLocked pid rid s)) k =
      (if k = rid \<and> game_ends pid r0 then None else mget (moRoomNextAdd s) k)"
  using assms
  by (simp_all add: removePlayerLocked_def Let_def forget_game_def room_after_def game_ends_def)

lemma remove_playerRoom [simp]: "moPlayerRoom (removePlayerLocked pid rid s) = mdel pid (moPlayerRoom s)"
  by (simp add: removePlayerLocked_def Let_def forget_game_def split: option.split)

lemma remove_gone:
  "mget (moRooms s) rid = None \<Longrightarrow> removePlayerLocked pid rid s = s\<lparr>moPlayerRoom := mdel pid (moPlayerRoom s)\<rparr>"
  by (simp add: removePlayerLocked_def)

lemma room_after_players [simp]: "mrPlayers (room_after pid sts r) = mdel pid (mrPlayers r)"
  by (simp add: room_after_def Let_def)

lemma hd_member: "m \<noteq> [] \<Longrightarrow> mhas m (fst (hd m))"
  by (cases m) (auto simp: mhas_def)

lemma wf_room_after:
  assumes "mono_wf_room rid r" and "mdel pid (mrPlayers r) \<noteq> []"
  shows "mono_wf_room rid (room_after pid sts r)"
proof -
  have own: "mrOwnerID r \<noteq> pid \<Longrightarrow> mhas (mdel pid (mrPlayers r)) (mrOwnerID r)"
    using assms(1) by (auto simp: mono_wf_room_def mhas_def)
  have len: "length (mdel pid (mrPlayers r)) \<le> length (mrPlayers r)"
    using assms(1) by (simp add: mono_wf_room_def length_mdel)
  show ?thesis
    using assms own len hd_member[OF assms(2)]
    by (auto simp: mono_wf_room_def room_after_def Let_def)
qed

lemma room_after_state:
  "mrState (room_after pid sts r) = (if mrState r = PhPlaying \<and> length (mdel pid (mrPlayers r)) \<le> 1 then PhWaiting else mrState r)"
  by (simp add: room_after_def Let_def)

lemma remove_room_ok:
  assumes "\<forall>k. room_ok s k"
  shows "room_ok (removePlayerLocked pid rid s) k"
proof (cases "mget (moRooms s) rid")
  case None
  then have "room_ok (removePlayerLocked pid rid s) k = room_ok s k" by (intro room_ok_cong) (simp_all add: remove_gone)
  then show ?thesis using assms by simp
next
  case (Some r0)
  note v = remove_view[OF Some, of pid k]
  show ?thesis
  proof (cases "k = rid")
    case False
    then have "room_ok (removePlayerLocked pid rid s) k = room_ok s k" using v by (intro room_ok_cong) simp_all
    then show ?thesis using assms by simp
  next
    case True
    have ok: "mono_wf_room rid r0" "if mrState r0 = PhPlaying then played s rid else idle s rid"
      using assms[rule_format, of rid] Some by (simp_all add: room_ok_def)
    show ?thesis
    proof (cases "game_ends pid r0")
      case ends: True
      then have "idle (removePlayerLocked pid rid s) k" using v True by (simp add: idle_def)
      then show ?thesis
        using v True ends ok wf_room_after[OF ok(1), of pid] room_after_state[of pid _ r0]
        by (auto simp: room_ok_def game_ends_def)
    next
      case False
      then have ne: "mdel pid (mrPlayers r0) \<noteq> []" by (simp add: game_ends_def)
      have "mrState (room_after pid (get_or [] (moGameStates s) rid) r0) = mrState r0"
        using False by (auto simp: room_after_state game_ends_def)
      moreover have "played (removePlayerLocked pid rid s) k = played s rid" "idle (removePlayerLocked pid rid s) k = idle s rid"
        using v True False by (simp_all add: played_def idle_def)
      ultimately show ?thesis using v True False ok ne wf_room_after[OF ok(1) ne] by (simp add: room_ok_def)
    qed
  qed
qed

lemma remove_seated:
  assumes "seated s p k" and "p \<noteq> pid"
  shows "seated (removePlayerLocked pid rid s) p k"
proof (cases "mget (moRooms s) rid")
  case None
  then show ?thesis using assms by (simp add: remove_gone seated_def)
next
  case (Some r0)
  show ?thesis
  proof (cases "k = rid")
    case False
    then show ?thesis using assms remove_view(1)[OF Some] by (simp add: seated_def)
  next
    case True
    have "mhas (mdel pid (mrPlayers r0)) p" using assms Some True by (auto simp: seated_def mhas_def)
    moreover from this have "mdel pid (mrPlayers r0) \<noteq> []" by (metis map_of.simps(1) mhas_def)
    ultimately show ?thesis using remove_view(1)[OF Some, of pid k] True by (simp add: seated_def)
  qed
qed

lemma mono_ok_remove: "mono_ok s \<Longrightarrow> mono_ok (removePlayerLocked pid rid s)"
proof -
  assume ok: "mono_ok s"
  have e: "mget (moRooms (removePlayerLocked pid rid s)) '''' = None"
    using ok remove_view(1)[of s rid _ pid "''''"]
    by (cases "mget (moRooms s) rid") (auto simp: mono_ok_def remove_gone)
  have "seated (removePlayerLocked pid rid s) p k" if "mget (moPlayerRoom (removePlayerLocked pid rid s)) p = Some k" for p k
    using that ok remove_seated[of s p k pid rid] by (auto simp: mono_ok_def split: if_splits)
  then show ?thesis using e remove_room_ok ok by (auto simp: mono_ok_def)
qed

subsection \<open>Rooms and games that start\<close>

lemma mono_ok_room:
  assumes "mono_ok s" and "mget (moRooms s) rid = Some r"
  shows "mono_wf_room rid r" and "mrID r = rid" and "rid \<noteq> ''''"
    and "if mrState r = PhPlaying then played s rid else idle s rid"
proof -
  have "room_ok s rid" using assms(1) by (simp add: mono_ok_def)
  then show a: "mono_wf_room rid r" and "if mrState r = PhPlaying then played s rid else idle s rid"
    using assms(2) by (simp_all add: room_ok_def)
  then show "mrID r = rid" by (simp add: mono_wf_room_def)
  show "rid \<noteq> ''''" using assms by (auto simp: mono_ok_def)
qed

text \<open>A room is replaced by one with the same seats, its game as the new room says.\<close>

lemma mono_ok_replace:
  assumes ok: "mono_ok s"
    and other: "\<And>k. k \<noteq> rid \<Longrightarrow> mget (moRooms s') k = mget (moRooms s) k \<and> mget (moGameStates s') k = mget (moGameStates s) k
       \<and> mget (moRoomTickets s') k = mget (moRoomTickets s) k \<and> mget (moRoomNextAdd s') k = mget (moRoomNextAdd s) k"
    and here: "room_ok s' rid" "rid \<noteq> ''''"
    and seats: "\<And>p k. mget (moPlayerRoom s') p = Some k \<Longrightarrow> seated s' p k"
  shows "mono_ok s'"
proof -
  have "room_ok s' k" for k
  proof (cases "k = rid")
    case False
    then have "room_ok s' k = room_ok s k" using other by (intro room_ok_cong) auto
    then show ?thesis using ok by (simp add: mono_ok_def)
  qed (use here in simp)
  moreover have "mget (moRooms s') '''' = None" using other[of "''''"] here(2) ok by (simp add: mono_ok_def)
  ultimately show ?thesis using seats by (simp add: mono_ok_def)
qed

lemma seated_same_players:
  assumes "seated s p k" and "\<And>j. j \<noteq> rid \<Longrightarrow> mget (moRooms s') j = mget (moRooms s) j"
    and "\<And>r. mget (moRooms s) rid = Some r \<Longrightarrow> \<exists>r'. mget (moRooms s') rid = Some r' \<and> (\<forall>q. mhas (mrPlayers r) q \<longrightarrow> mhas (mrPlayers r') q)"
  shows "seated s' p k"
proof (cases "k = rid")
  case False
  then show ?thesis using assms(1,2) by (simp add: seated_def)
next
  case True
  then obtain r where r: "mget (moRooms s) rid = Some r" "mhas (mrPlayers r) p" using assms(1) by (auto simp: seated_def)
  then show ?thesis using assms(3)[OF r(1)] True by (auto simp: seated_def)
qed

lemma clamp_max_range: "2 \<le> clamp_max n \<and> clamp_max n \<le> 8"
  by (simp add: clamp_max_def Let_def)

definition open_room :: "string \<Rightarrow> string \<Rightarrow> string \<Rightarrow> int \<Rightarrow> 'd mono_server \<Rightarrow> 'd mono_server" where
  "open_room rid pid name mx s =
     s\<lparr>moRooms := mput rid \<lparr>mrID = rid, mrName = name, mrOwnerID = pid, mrState = PhWaiting, mrWinnerID = '''',
         mrMaxPlayers = clamp_max mx, mrPlayers = [(pid, ())]\<rparr> (moRooms s), moPlayerRoom := mput pid rid (moPlayerRoom s)\<rparr>"

lemma mono_ok_open:
  assumes ok: "mono_ok s" and fresh: "mget (moRooms s) rid = None" and ne: "rid \<noteq> ''''"
  shows "mono_ok (open_room rid pid name mx s)"
proof (rule mono_ok_replace[OF ok _ _ ne])
  have "idle s rid" using ok fresh by (auto simp: mono_ok_def room_ok_def dest!: spec[of _ rid] split: option.splits)
  then show "room_ok (open_room rid pid name mx s) rid"
    using clamp_max_range[of mx] by (simp add: open_room_def room_ok_def idle_def mono_wf_room_def mhas_def)
  fix p k assume k: "mget (moPlayerRoom (open_room rid pid name mx s)) p = Some k"
  show "seated (open_room rid pid name mx s) p k"
  proof (cases "p = pid")
    case True
    then show ?thesis using k by (auto simp: open_room_def seated_def mhas_def)
  next
    case False
    then have "seated s p k" using k ok by (auto simp: open_room_def mono_ok_def)
    then show ?thesis by (rule seated_same_players[where rid = rid]) (use fresh in \<open>auto simp: open_room_def\<close>)
  qed
qed (simp_all add: open_room_def)

definition sit_down :: "string \<Rightarrow> string \<Rightarrow> mono_room \<Rightarrow> 'd mono_server \<Rightarrow> 'd mono_server" where
  "sit_down rid pid room s =
     s\<lparr>moRooms := mput rid (room\<lparr>mrPlayers := mput pid () (mrPlayers room)\<rparr>) (moRooms s),
       moPlayerRoom := mput pid (mrID room) (moPlayerRoom s)\<rparr>"

lemma mono_ok_sit:
  assumes ok: "mono_ok s" and room: "mget (moRooms s) rid = Some room"
    and new: "\<not> mhas (mrPlayers room) pid" "int (length (mrPlayers room)) < mrMaxPlayers room"
  shows "mono_ok (sit_down rid pid room s)"
proof (rule mono_ok_replace[OF ok _ _ mono_ok_room(3)[OF ok room]])
  note wf = mono_ok_room[OF ok room]
  have "mono_wf_room rid (room\<lparr>mrPlayers := mput pid () (mrPlayers room)\<rparr>)"
    using wf(1) new by (auto simp: mono_wf_room_def mhas_def length_mput)
  moreover have "played (sit_down rid pid room s) rid = played s rid" "idle (sit_down rid pid room s) rid = idle s rid"
    by (simp_all add: sit_down_def played_def idle_def)
  ultimately show "room_ok (sit_down rid pid room s) rid" using wf(4) by (simp add: room_ok_def sit_down_def)
  fix p k assume k: "mget (moPlayerRoom (sit_down rid pid room s)) p = Some k"
  show "seated (sit_down rid pid room s) p k"
  proof (cases "p = pid")
    case True
    then show ?thesis using k wf(2) by (auto simp: sit_down_def seated_def mhas_def)
  next
    case False
    then have "seated s p k" using k ok by (auto simp: sit_down_def mono_ok_def)
    then show ?thesis by (rule seated_same_players[where rid = rid]) (use room in \<open>auto simp: sit_down_def mhas_def\<close>)
  qed
qed (simp_all add: sit_down_def)

definition start_game ::
  "string \<Rightarrow> mono_room \<Rightarrow> int \<Rightarrow> int \<Rightarrow> (string \<Rightarrow> seat_draws) \<Rightarrow> 'd mono_server \<Rightarrow> 'd mono_server" where
  "start_game rid room t2 t3 draws s =
     s\<lparr>moRooms := mput rid (room\<lparr>mrState := PhPlaying, mrWinnerID := ''''\<rparr>) (moRooms s),
       moGameStates := mput (mrID room) (new_states t2 draws (mrPlayers room)) (moGameStates s),
       moRoomTickets := mput (mrID room) (new_tickets draws (mrPlayers room)) (moRoomTickets s),
       moRoomNextAdd := mput (mrID room) (unix_ms t3 + 10000) (moRoomNextAdd s)\<rparr>"

lemma mono_ok_start:
  assumes ok: "mono_ok s" and room: "mget (moRooms s) rid = Some room" and two: "2 \<le> length (mrPlayers room)"
    and fair: "\<forall>p. seat_fair (draws p)"
  shows "mono_ok (start_game rid room t2 t3 draws s)"
proof (rule mono_ok_replace[OF ok _ _ mono_ok_room(3)[OF ok room]])
  note wf = mono_ok_room[OF ok room]
  have "wf_map (mrPlayers room)" using wf(1) by (simp add: mono_wf_room_def)
  then have "played (start_game rid room t2 t3 draws s) rid"
    using still.tables_new[OF _ fair] wf(2)
    by (auto simp: played_def start_game_def new_states_def new_tickets_def comp_def split_beta)
  then show "room_ok (start_game rid room t2 t3 draws s) rid"
    using wf(1) two by (auto simp: room_ok_def start_game_def mono_wf_room_def)
  fix p k assume "mget (moPlayerRoom (start_game rid room t2 t3 draws s)) p = Some k"
  then have "seated s p k" using ok by (auto simp: start_game_def mono_ok_def)
  then show "seated (start_game rid room t2 t3 draws s) p k"
    by (rule seated_same_players[where rid = rid]) (use room in \<open>auto simp: start_game_def\<close>)
qed (use mono_ok_room(2)[OF ok room] in \<open>simp_all add: start_game_def\<close>)

subsection \<open>Games that are played\<close>

lemma mono_ok_playing:
  assumes "mono_ok s" and "mget (moGameStates s) rid = Some states"
  obtains r where "mget (moRooms s) rid = Some r" and "mrState r = PhPlaying" and "played s rid" and "wf_states states"
proof -
  have ok: "room_ok s rid" using assms(1) by (simp add: mono_ok_def)
  have "\<not> idle s rid" using assms(2) by (simp add: idle_def)
  then obtain r where r: "mget (moRooms s) rid = Some r" "mrState r = PhPlaying" "played s rid"
    using ok by (auto simp: room_ok_def split: option.splits if_splits)
  moreover from r(3) have "wf_states states" using assms(2) by (auto simp: played_def)
  ultimately show thesis using that by blast
qed

lemma mono_ok_states:
  assumes ok: "mono_ok s" and sts: "mget (moGameStates s) rid = Some states"
    and new: "map fst states' = map fst states" "wf_states states'"
  shows "mono_ok (s\<lparr>moGameStates := mput rid states' (moGameStates s)\<rparr>)"
proof -
  obtain r where r: "mget (moRooms s) rid = Some r" "mrState r = PhPlaying" "played s rid"
    using mono_ok_playing[OF ok sts] .
  show ?thesis
  proof (rule mono_ok_replace[OF ok _ _ mono_ok_room(3)[OF ok r(1)]])
    have "played (s\<lparr>moGameStates := mput rid states' (moGameStates s)\<rparr>) rid"
      using r(3) sts new by (auto simp: played_def)
    then show "room_ok (s\<lparr>moGameStates := mput rid states' (moGameStates s)\<rparr>) rid"
      using mono_ok_room(1)[OF ok r(1)] r by (simp add: room_ok_def)
  qed (use ok in \<open>auto simp: mono_ok_def seated_def\<close>)
qed

lemma mono_ok_nextAdd:
  assumes ok: "mono_ok s" and sts: "mget (moGameStates s) rid = Some states"
  shows "mono_ok (s\<lparr>moRoomNextAdd := mput rid n (moRoomNextAdd s)\<rparr>)"
proof -
  obtain r where r: "mget (moRooms s) rid = Some r" "mrState r = PhPlaying" "played s rid"
    using mono_ok_playing[OF ok sts] .
  show ?thesis
  proof (rule mono_ok_replace[OF ok _ _ mono_ok_room(3)[OF ok r(1)]])
    have "played (s\<lparr>moRoomNextAdd := mput rid n (moRoomNextAdd s)\<rparr>) rid" using r(3) by (auto simp: played_def)
    then show "room_ok (s\<lparr>moRoomNextAdd := mput rid n (moRoomNextAdd s)\<rparr>) rid"
      using mono_ok_room(1)[OF ok r(1)] r by (simp add: room_ok_def)
  qed (use ok in \<open>auto simp: mono_ok_def seated_def\<close>)
qed

lemma map_fst_mput_same: "mget m k = Some v \<Longrightarrow> map fst (mput k v' m) = map fst m"
proof -
  assume "mget m k = Some v"
  then have "k \<in> set (map fst m)" by (simp only: wf_map_key_mem) simp
  then show ?thesis using update_keys[of k v' m] by simp
qed

lemma mono_ok_put_state:
  assumes "mono_ok s" and "mget (moGameStates s) rid = Some states" and "mget states p = Some st" and "player_ok st'"
  shows "mono_ok (put_state rid p states st' s)"
proof -
  have "wf_states states" using mono_ok_playing[OF assms(1,2)] by blast
  then have "wf_states (mput p st' states)" using assms(4) by (rule states_ok_put)
  then show ?thesis unfolding put_state_def
    by (rule mono_ok_states[OF assms(1,2) map_fst_mput_same[OF assms(3)]])
qed

lemma mono_ok_resolve: "mono_ok s \<Longrightarrow> mono_ok (resolveRoomOutcomeLocked rid s)"
proof -
  assume ok: "mono_ok s"
  show ?thesis
  proof (cases "mget (moRooms s) rid")
    case None
    then show ?thesis using ok by (simp add: resolveRoomOutcomeLocked_def)
  next
    case (Some r)
    show ?thesis
    proof (cases "mget (moGameStates s) rid")
      case None
      then show ?thesis using ok Some by (simp add: resolveRoomOutcomeLocked_def)
    next
      case sts: (Some states)
      show ?thesis
      proof (cases "room_winner r states")
        case None
        then show ?thesis using ok Some sts by (simp add: resolveRoomOutcomeLocked_def)
      next
        case (Some w)
        let ?r = "r\<lparr>mrState := PhWaiting, mrWinnerID := w\<rparr>"
        let ?s = "forget_game rid (s\<lparr>moRooms := mput rid ?r (moRooms s)\<rparr>)"
        have "mono_ok ?s"
        proof (rule mono_ok_replace[OF ok _ _ mono_ok_room(3)[OF ok \<open>mget (moRooms s) rid = Some r\<close>]])
          show "room_ok ?s rid" using mono_ok_room(1)[OF ok \<open>mget (moRooms s) rid = Some r\<close>]
            by (simp add: room_ok_def forget_game_def idle_def mono_wf_room_def)
          fix p k assume "mget (moPlayerRoom ?s) p = Some k"
          then have "seated s p k" using ok by (simp add: forget_game_def mono_ok_def)
          then show "seated ?s p k"
            by (rule seated_same_players[where rid = rid])
              (use \<open>mget (moRooms s) rid = Some r\<close> in \<open>auto simp: forget_game_def\<close>)
        qed (simp_all add: forget_game_def)
        then show ?thesis using \<open>mget (moRooms s) rid = Some r\<close> sts Some by (simp add: resolveRoomOutcomeLocked_def)
      qed
    qed
  qed
qed

lemma mono_ok_no_next:
  assumes ok: "mono_ok s" and "case mget (moRooms s) rid of None \<Rightarrow> True | Some r \<Rightarrow> mrState r \<noteq> PhPlaying"
  shows "mono_ok (s\<lparr>moRoomNextAdd := mdel rid (moRoomNextAdd s)\<rparr>)"
proof -
  have "idle s rid" using ok assms(2) by (auto simp: mono_ok_def room_ok_def dest!: spec[of _ rid] split: option.splits)
  then have "room_ok (s\<lparr>moRoomNextAdd := mdel rid (moRoomNextAdd s)\<rparr>) k = room_ok s k" for k
    by (intro room_ok_cong) (auto simp: idle_def)
  then show ?thesis using ok by (simp add: mono_ok_def seated_def)
qed

lemma mono_ok_layers:
  assumes ok: "mono_ok s" and fair: "\<forall>k p c. colour (draw k p c)"
  shows "mono_ok (maybeAddTopLayerLocked draw rid now s)"
proof (cases "mget (moRooms s) rid")
  case None
  then show ?thesis using mono_ok_no_next[OF ok, of rid] by (simp add: maybeAddTopLayerLocked_def)
next
  case (Some r)
  show ?thesis
  proof (cases "mrState r = PhPlaying \<and> length (get_or [] (moGameStates s) rid) \<noteq> 0")
    case False
    then show ?thesis using mono_ok_no_next[OF ok, of rid] ok Some by (auto simp: maybeAddTopLayerLocked_def Let_def)
  next
    case True
    then obtain states where sts: "mget (moGameStates s) rid = Some states"
      by (cases "mget (moGameStates s) rid") (auto simp: get_or_def)
    obtain n' states' where al: "add_layers draw now 0 (get_or 0 (moRoomNextAdd s) rid) states = (n', states')" by fastforce
    have "wf_states states" using mono_ok_playing[OF ok sts] by blast
    note new = still.tables_layers[OF fair this al]
    let ?s = "s\<lparr>moGameStates := mput rid states' (moGameStates s)\<rparr>"
    have ok1: "mono_ok ?s" using mono_ok_states[OF ok sts] new by blast
    have "mono_ok (?s\<lparr>moRoomNextAdd := mput rid n' (moRoomNextAdd ?s)\<rparr>)"
      by (rule mono_ok_nextAdd[OF ok1]) simp
    then show ?thesis
      using True Some sts al ok mono_ok_nextAdd[OF ok sts, of "now + 10000"]
      by (simp add: maybeAddTopLayerLocked_def get_or_def Let_def)
  qed
qed

lemma mono_ok_tick:
  assumes ok: "mono_ok s" and sts: "mget (moGameStates s) rid = Some states" and fair: "\<forall>k p c. colour (layer k p c)"
  shows "mono_ok (tick_room nowMS draw layer rid states s)"
proof -
  have "wf_states states" using mono_ok_playing[OF ok sts] by blast
  then have "wf_states (tick_all nowMS draw states)" unfolding tick_all_def by (rule states_ok_map) (use tick_ok in blast)
  then have "mono_ok (s\<lparr>moGameStates := mput rid (tick_all nowMS draw states) (moGameStates s)\<rparr>)"
    by (intro mono_ok_states[OF ok sts]) (simp_all add: tick_all_def)
  then show ?thesis unfolding tick_room_def by (intro mono_ok_layers mono_ok_resolve fair)
qed

lemma mono_ok_message:
  assumes ok: "mono_ok s" and sts: "mget (moGameStates s) rid = Some states" "mget states p = Some st" and fair: "colour draw"
  shows "mono_ok (player_message clk draw rid p req states st s)"
proof -
  have st: "player_ok st" using mono_ok_playing[OF ok sts(1)] sts(2) by (auto dest: states_okD)
  have aim: "mono_ok (put_state rid p states (st\<lparr>AimAngle := ClampAim a\<rparr>) s)" for a
    using mono_ok_put_state[OF ok sts still.aim[OF st]] .
  have shot: "mono_ok (put_state rid p states st' s)" if "BeginClientShot (Some st) a t = Inr st'" for a t st'
    using mono_ok_put_state[OF ok sts] shot_ok[OF that st] by blast
  have land: "mono_ok (put_state rid p states st' s)" if "CommitLanding (Some st) a x y draw = Inr st'" for a x y st'
    using mono_ok_put_state[OF ok sts] landing_ok[OF that st fair] by blast
  show ?thesis
    using ok aim shot land
    by (auto simp: player_message_def Let_def intro!: mono_ok_resolve split: jval.split sum.split)
qed

lemma mono_ok_expire:
  assumes "mono_ok s"
  shows "mono_ok (expire_seat io now s p)"
proof -
  let ?rid = "get_or '''' (moPlayerRoom s) p"
  let ?s = "if ?rid \<noteq> '''' then broadcastLobbyRoomsUpdated io now ?rid p (removePlayerLocked p ?rid s) else s"
  have "mono_ok ?s" using assms mono_ok_same[OF broadcast_rooms mono_ok_remove[OF assms]] by simp
  then show ?thesis
    by (rule mono_ok_same[rotated]) (simp add: expire_seat_def same_rooms_def Let_def)
qed

lemma mono_ok_heartbeats: "mono_ok s \<Longrightarrow> mono_ok (heartbeatLoop io t1 t2 s)"
  unfolding heartbeatLoop_def by (rule foldl_invariant) (auto intro: mono_ok_expire)

end
