(* ===== verification/MonoSpec.thy ===== *)
theory MonoSpec
  imports MonoProps
begin

text \<open>
  The properties of the all-in-one server (\<open>internal/mono/server.go\<close>): the states it reaches,
  the outcome of games, the growth of layers, players in two rooms, and the login.
\<close>

subsection \<open>Reachable states\<close>

text \<open>
  One step of the server: a request, a message, a tick of a connection, a round of the heartbeat
  loop, or an opened or ended connection. Random colours are colours; the identifier of a new
  room, a clock reading, is not one of a room that exists. A tick whose answer panics has
  changed the state, so it is the state of \<open>tick_room\<close>. The parts of a request that hold the lock
  apart from the rest, authenticating, registering a room connection and telling the lobby, are
  also steps of their own, at any time. Go may visit the rooms and the players of a
  room in another order at any time.
\<close>

inductive mono_step :: "'d db_ops \<Rightarrow> 'd mono_server \<Rightarrow> 'd mono_server \<Rightarrow> bool" for db where
  login: "mono_step db s (snd (handleLogin db clk rnd rq s))"
| rooms: "mget (moRooms s) (FormatInt (clk 2)) = None \<Longrightarrow> mono_step db s (snd (handleRooms db io clk rq s))"
| join: "mono_step db s (snd (handleJoin db io clk rq s))"
| leave: "mono_step db s (snd (handleLeave db io clk rq s))"
| detail: "mono_step db s (snd (handleRoomDetail db clk rq s))"
| start_game: "\<forall>p. seat_fair (draws p) \<Longrightarrow> mono_step db s (snd (handleStart db io clk draws rq s))"
| open_room: "mono_step db s (snd (mono_handleWSRoom db clk up rq s))"
| message: "colour draw \<Longrightarrow> mono_step db s (readPlayerWS clk draw rid p req s)"
| tick: "mget (moGameStates s) rid = Some states \<Longrightarrow> \<forall>k p c. colour (layer k p c) \<Longrightarrow>
     mono_step db s (tick_room nowMS draw layer rid states s)"
| room_done: "mono_step db s (mono_handleWSRoom_done rid p c s)"
| heartbeats: "mono_step db s (heartbeatLoop io t1 t2 s)"
| lobby: "mono_step db s (snd (handleWSLobby db clk up rq s))"
| lobby_done: "mono_step db s (handleWSLobby_done c s)"
| authenticate: "mono_step db s (snd (authPlayer db t1 t2 rq s))"
| attach: "mono_step db s (room_attach now rid p c s)"
| tell: "mono_step db s (broadcastLobbyRoomsUpdated io now rid p s)"
| other_players: "mget (moRooms s) rid = Some r \<Longrightarrow> mset ps = mset (mrPlayers r) \<Longrightarrow>
     mono_step db s (s\<lparr>moRooms := mput rid (r\<lparr>mrPlayers := ps\<rparr>) (moRooms s)\<rparr>)"
| other_rooms: "mget rooms = mget (moRooms s) \<Longrightarrow> mono_step db s (s\<lparr>moRooms := rooms\<rparr>)"

inductive mono_reachable :: "'d db_ops \<Rightarrow> 'd mono_server \<Rightarrow> bool" for db where
  new: "mono_reachable db (mono_New cfg d)"
| step: "mono_reachable db s \<Longrightarrow> mono_step db s s' \<Longrightarrow> mono_reachable db s'"

lemma mono_ok_new: "mono_ok (mono_New cfg d)"
  by (simp add: mono_ok_def mono_New_def room_ok_def idle_def)

lemma mono_ok_auth: "mono_ok s \<Longrightarrow> authPlayer db t1 t2 rq s = (res, s') \<Longrightarrow> mono_ok s'"
  using authPlayer_rooms mono_ok_same by blast

lemma mono_ok_broadcast: "mono_ok s \<Longrightarrow> mono_ok (broadcastLobbyRoomsUpdated io now rid pid s)"
  by (rule mono_ok_same[OF broadcast_rooms])

lemma mono_ok_login: "mono_ok s \<Longrightarrow> mono_ok (snd (handleLogin db clk rnd rq s))"
proof (rule mono_ok_same)
  show "same_rooms s (snd (handleLogin db clk rnd rq s))"
    by (auto simp: handleLogin_def Let_def same_rooms_def split: option.split prod.split)
qed

lemma remove_no_new:
  "mget (moRooms s) k = None \<Longrightarrow> mget (moRooms (removePlayerLocked pid rid s)) k = None"
  using remove_view(1)[of s rid _ pid k] by (cases "mget (moRooms s) rid") (auto simp: remove_gone)

lemma mono_ok_create:
  assumes ok: "mono_ok s" and fresh: "mget (moRooms s) (FormatInt (clk 2)) = None"
  shows "mono_ok (snd (handleRooms db io clk rq s))"
proof -
  have "mono_ok (snd (mono_createRoom db io clk rq s))"
  proof (cases "authPlayer db (clk 0) (clk 1) rq s")
    case (Pair res s0)
    then have ok0: "mono_ok s0" and fresh0: "mget (moRooms s0) (FormatInt (clk 2)) = None"
      using mono_ok_auth[OF ok] fresh authPlayer_rooms[OF Pair] by (simp_all add: same_rooms_def)
    show ?thesis
    proof (cases res)
      case (Inl e)
      then show ?thesis using Pair ok0 by (simp add: mono_createRoom_def)
    next
      case (Inr pid)
      let ?s1 = "case mget (moPlayerRoom s0) pid of None \<Rightarrow> s0 | Some rid \<Rightarrow> removePlayerLocked pid rid s0"
      have "mono_ok ?s1" "mget (moRooms ?s1) (FormatInt (clk 2)) = None"
        using ok0 fresh0 mono_ok_remove remove_no_new by (auto split: option.split)
      then have "mono_ok (MonoProps.open_room (FormatInt (clk 2)) pid (if rqName rq = '''' then ''Room'' else rqName rq) (rqMax rq) ?s1)"
        by (rule mono_ok_open) simp
      then have "mono_ok (broadcastLobbyRoomsUpdated io (clk 3) (FormatInt (clk 2)) pid
          (MonoProps.open_room (FormatInt (clk 2)) pid (if rqName rq = '''' then ''Room'' else rqName rq) (rqMax rq) ?s1))"
        by (rule mono_ok_broadcast)
      then show ?thesis using Pair Inr by (simp add: mono_createRoom_def MonoProps.open_room_def Let_def)
    qed
  qed
  then show ?thesis using ok by (simp add: handleRooms_def)
qed

lemma mono_ok_join: 
  assumes ok: "mono_ok s"
  shows "mono_ok (snd (handleJoin db io clk rq s))"
proof (cases "authPlayer db (clk 0) (clk 1) rq s")
  case (Pair res s0)
  then have ok0: "mono_ok s0" using mono_ok_auth[OF ok] by simp
  show ?thesis
  proof (cases res)
    case (Inl e)
    then show ?thesis using Pair ok0 ok by (simp add: handleJoin_def)
  next
    case (Inr pid)
    show ?thesis
    proof (cases "\<exists>room. mget (moRooms s0) (rqRoomID rq) = Some room \<and> \<not> mhas (mrPlayers room) pid
        \<and> int (length (mrPlayers room)) < mrMaxPlayers room")
      case False
      then show ?thesis using Pair Inr ok0 ok by (auto simp: handleJoin_def split: option.split)
    next
      case True
      then obtain room where r: "mget (moRooms s0) (rqRoomID rq) = Some room" "\<not> mhas (mrPlayers room) pid"
        "int (length (mrPlayers room)) < mrMaxPlayers room" by blast
      have "mono_ok (broadcastLobbyRoomsUpdated io (clk 2) (mrID room) pid (sit_down (rqRoomID rq) pid room s0))"
        using mono_ok_broadcast[OF mono_ok_sit[OF ok0 r]] .
      then show ?thesis using Pair Inr r ok by (simp add: handleJoin_def sit_down_def Let_def)
    qed
  qed
qed

lemma mono_ok_leave:
  assumes ok: "mono_ok s"
  shows "mono_ok (snd (handleLeave db io clk rq s))"
proof (cases "authPlayer db (clk 0) (clk 1) rq s")
  case (Pair res s0)
  then have ok0: "mono_ok s0" using mono_ok_auth[OF ok] by simp
  show ?thesis
    using ok Pair ok0
    by (cases res) (simp_all add: handleLeave_def Let_def mono_ok_broadcast mono_ok_remove)
qed

lemma mono_ok_handleStart:
  assumes ok: "mono_ok s" and fair: "\<forall>p. seat_fair (draws p)"
  shows "mono_ok (snd (handleStart db io clk draws rq s))"
proof (cases "authPlayer db (clk 0) (clk 1) rq s")
  case (Pair res s0)
  then have ok0: "mono_ok s0" using mono_ok_auth[OF ok] by simp
  show ?thesis
  proof (cases res)
    case (Inl e)
    then show ?thesis using Pair ok0 ok by (simp add: handleStart_def)
  next
    case (Inr pid)
    show ?thesis
    proof (cases "\<exists>room. mget (moRooms s0) (rqRoomID rq) = Some room \<and> mrOwnerID room = pid \<and> 2 \<le> length (mrPlayers room)")
      case False
      then show ?thesis using Pair Inr ok0 ok by (auto simp: handleStart_def split: option.split)
    next
      case True
      then obtain room where r: "mget (moRooms s0) (rqRoomID rq) = Some room" "mrOwnerID room = pid"
        "2 \<le> length (mrPlayers room)" by blast
      have "mono_ok (broadcastLobbyRoomsUpdated io (clk 4) (mrID room) pid
          (MonoProps.start_game (rqRoomID rq) room (clk 2) (clk 3) draws s0))"
        using mono_ok_broadcast[OF mono_ok_start[OF ok0 r(1,3) fair]] .
      then show ?thesis using Pair Inr r ok by (simp add: handleStart_def MonoProps.start_game_def Let_def)
    qed
  qed
qed

lemma mono_ok_readPlayerWS:
  assumes ok: "mono_ok s" and fair: "colour draw"
  shows "mono_ok (readPlayerWS clk draw rid p req s)"
proof -
  let ?s = "s\<lparr>moLastHB := mput p (unix_ms (clk 0)) (moLastHB s)\<rparr>"
  have ok1: "mono_ok ?s" by (rule mono_ok_same[OF _ ok]) (simp add: same_rooms_def)
  show ?thesis
  proof (cases "\<exists>states st. mget (moGameStates ?s) rid = Some states \<and> mget states p = Some st")
    case True
    then obtain states st where x: "mget (moGameStates ?s) rid = Some states" "mget states p = Some st" by blast
    then show ?thesis using mono_ok_message[OF ok1 x fair, of clk req] by (simp add: readPlayerWS_def Let_def)
  next
    case False
    then show ?thesis using ok1 by (auto simp: readPlayerWS_def Let_def split: option.split)
  qed
qed

lemma mono_ok_connections:
  assumes ok: "mono_ok s"
  shows "mono_ok (snd (handleRoomDetail db clk rq s))" "mono_ok (snd (mono_handleWSRoom db clk up rq s))"
    "mono_ok (mono_handleWSRoom_done rid p c s)" "mono_ok (snd (handleWSLobby db clk up rq s))"
    "mono_ok (handleWSLobby_done c s)" "mono_ok (snd (authPlayer db t1 t2 rq s))" "mono_ok (room_attach now rid p c s)"
proof -
  show "mono_ok (snd (authPlayer db t1 t2 rq s))" by (rule mono_ok_auth[OF ok, where res = "fst (authPlayer db t1 t2 rq s)"]) simp
  show "mono_ok (room_attach now rid p c s)"
    by (rule mono_ok_same[OF _ ok]) (simp add: room_attach_def same_rooms_def Let_def)
  obtain res s0 where a: "authPlayer db (clk 0) (clk 1) rq s = (res, s0)" by fastforce
  have ok0: "mono_ok s0" by (rule mono_ok_auth[OF ok a])
  show "mono_ok (snd (handleRoomDetail db clk rq s))"
    using ok ok0 a by (auto simp: handleRoomDetail_def Let_def split: sum.split option.split)
  have at: "same_rooms s0 (room_attach now rid' p' c' s0)" for now rid' p' c'
    by (simp add: room_attach_def same_rooms_def Let_def)
  have cl: "same_rooms s0 (s0\<lparr>moClosed := cs\<rparr>)" for cs by (simp add: same_rooms_def)
  show "mono_ok (snd (mono_handleWSRoom db clk up rq s))"
    using ok0 a mono_ok_same[OF at ok0] mono_ok_same[OF cl ok0]
    by (auto simp: mono_handleWSRoom_def Let_def split: sum.split option.split room_open.split)
  show "mono_ok (mono_handleWSRoom_done rid p c s)"
    by (rule mono_ok_same[OF _ ok]) (simp add: mono_handleWSRoom_done_def Let_def same_rooms_def split: option.split)
  have lo: "same_rooms s0 (s0\<lparr>moLobbySubs := cs\<rparr>)" for cs by (simp add: same_rooms_def)
  show "mono_ok (snd (handleWSLobby db clk up rq s))"
    using ok0 a mono_ok_same[OF lo ok0] by (auto simp: handleWSLobby_def split: sum.split option.split)
  show "mono_ok (handleWSLobby_done c s)"
    by (rule mono_ok_same[OF _ ok]) (simp add: handleWSLobby_done_def same_rooms_def)
qed

lemma mono_ok_other_players:
  assumes ok: "mono_ok s" and r: "mget (moRooms s) rid = Some r" and ps: "mset ps = mset (mrPlayers r)"
  shows "mono_ok (s\<lparr>moRooms := mput rid (r\<lparr>mrPlayers := ps\<rparr>) (moRooms s)\<rparr>)"
proof (rule mono_ok_replace[OF ok _ _ mono_ok_room(3)[OF ok r]])
  note wf = mono_ok_room[OF ok r]
  have w: "wf_map (mrPlayers r)" using wf(1) by (simp add: mono_wf_room_def)
  have has: "mhas ps = mhas (mrPlayers r)" using mset_mget[OF ps[symmetric] w] by (simp add: mhas_def fun_eq_iff)
  have "mono_wf_room rid (r\<lparr>mrPlayers := ps\<rparr>)"
    using wf(1) w mset_wf_map[OF ps] has mset_eq_length[OF ps] by (simp add: mono_wf_room_def)
  then show "room_ok (s\<lparr>moRooms := mput rid (r\<lparr>mrPlayers := ps\<rparr>) (moRooms s)\<rparr>) rid"
    using wf(4) by (auto simp: room_ok_def played_def idle_def split: if_splits)
  fix p k assume "mget (moPlayerRoom (s\<lparr>moRooms := mput rid (r\<lparr>mrPlayers := ps\<rparr>) (moRooms s)\<rparr>)) p = Some k"
  then have "seated s p k" using mono_ok_seated[OF ok] by simp
  then show "seated (s\<lparr>moRooms := mput rid (r\<lparr>mrPlayers := ps\<rparr>) (moRooms s)\<rparr>) p k"
    by (rule seated_same_players[where rid = rid]) (use r has in auto)
qed simp_all

lemma mono_ok_other_rooms: "mono_ok s \<Longrightarrow> mget rooms = mget (moRooms s) \<Longrightarrow> mono_ok (s\<lparr>moRooms := rooms\<rparr>)"
  using room_ok_cong[of "s\<lparr>moRooms := rooms\<rparr>" _ s] by (simp add: mono_ok_def seated_def)

lemma mono_ok_step: "mono_step db s s' \<Longrightarrow> mono_ok s \<Longrightarrow> mono_ok s'"
  by (induction rule: mono_step.induct)
    (simp_all add: mono_ok_login mono_ok_create mono_ok_join mono_ok_leave mono_ok_handleStart mono_ok_readPlayerWS
      mono_ok_tick mono_ok_heartbeats mono_ok_connections mono_ok_broadcast mono_ok_other_players mono_ok_other_rooms)

lemma mono_reachable_ok: "mono_reachable db s \<Longrightarrow> mono_ok s"
  by (induction rule: mono_reachable.induct) (auto intro: mono_ok_new mono_ok_step)

subsection \<open>A server with two players\<close>

text \<open>
  A database of association lists: users with passwords, tokens with player and expiry.
\<close>

type_synonym tables = "(string, string) gomap \<times> (string, string \<times> int) gomap"

definition table_db :: "tables db_ops" where
  "table_db =
     \<lparr>dbCountUser = (\<lambda>d u. Some (if mhas (fst d) u then 1 else 0)),
      dbInsertUser = (\<lambda>d u p c. if mhas (fst d) u then None else Some (mput u p (fst d), snd d)),
      dbPassword = (\<lambda>d u. mget (fst d) u),
      dbPutToken = (\<lambda>d t p e. Some (fst d, mput t (p, e) (snd d))),
      dbToken = (\<lambda>d t. mget (snd d) t),
      dbRenewToken = (\<lambda>d e t. Some (fst d, case mget (snd d) t of None \<Rightarrow> snd d | Some (p, e0) \<Rightarrow> mput t (p, e) (snd d)))\<rparr>"

definition ask :: "string \<Rightarrow> string \<Rightarrow> string \<Rightarrow> http_request" where
  "ask how token rid =
     \<lparr>rqMethod = how, rqAuthorization = token, rqCookie = None, rqQuery = (\<lambda>_. ''''), rqHost = ''h'', rqLogin = None,
      rqName = '''', rqMax = 2, rqRoomID = rid\<rparr>"

definition plain_seat :: seat_draws where
  "plain_seat = \<lparr>sdCurrent = 0, sdNext = 1, sdCoin = (\<lambda>r c. Flt 1), sdPick = (\<lambda>r c. 0), sdTicket = [1]\<rparr>"

definition hall0 :: "tables mono_server" where
  "hall0 = mono_New \<lparr>cfListenAddr = '''', cfDBPath = '''', cfTokenTTL = 0, cfHeartbeatTimeout = 0, cfShutdownTimeout = 0\<rparr>
     ([], [(''a'', (''ann'', 90)), (''b'', (''bob'', 90))])"

definition hall1 :: "tables mono_server" where
  "hall1 = snd (handleRooms table_db (\<lambda>_. False) (\<lambda>i. 7) (ask ''POST'' ''a'' '''') hall0)"

definition hall2 :: "tables mono_server" where
  "hall2 = snd (handleJoin table_db (\<lambda>_. False) (\<lambda>i. 8) (ask ''POST'' ''b'' ''7'') hall1)"

definition hall3 :: "tables mono_server" where
  "hall3 = snd (handleStart table_db (\<lambda>_. False) (\<lambda>i. 9) (\<lambda>_. plain_seat) (ask ''POST'' ''a'' ''7'') hall2)"

lemma hall_tokens [simp]:
  "request_token (ask how ''a'' rid) = ''a''" "request_token (ask how ''b'' rid) = ''b''"
proof -
  have "TrimSpace ''a'' = ''a''" "TrimSpace ''b'' = ''b''" "has_bearer ''a'' = False" "has_bearer ''b'' = False"
    by code_simp+
  then show "request_token (ask how ''a'' rid) = ''a''" "request_token (ask how ''b'' rid) = ''b''"
    by (simp_all add: request_token_def ask_def)
qed

lemma FormatInt_7 [simp]: "FormatInt 7 = ''7''" "FormatInt 8 = ''8''"
  by code_simp+

lemma ask_simps [simp]:
  "rqMethod (ask how t rid) = how" "rqRoomID (ask how t rid) = rid" "rqName (ask how t rid) = ''''" "rqMax (ask how t rid) = 2"
  by (simp_all add: ask_def)

lemmas hall_auth = authPlayer_def table_db_def unix_s_def mono_New_def mono_defaults_def broadcastLobbyRoomsUpdated_def

lemma hall1_view:
  "moRooms hall1 = [(''7'', \<lparr>mrID = ''7'', mrName = ''Room'', mrOwnerID = ''ann'', mrState = PhWaiting, mrWinnerID = '''',
     mrMaxPlayers = 2, mrPlayers = [(''ann'', ())]\<rparr>)]"
  "moPlayerRoom hall1 = [(''ann'', ''7'')]" "moGameStates hall1 = []" "moRoomNextAdd hall1 = []" "moRoomTickets hall1 = []"
  "moLobbySubs hall1 = []" "moLastHB hall1 = []" "cfTokenTTL (moCfg hall1) = 86400000000000"
  "mget (snd (moDB hall1)) ''b'' = Some (''bob'', 90)" "mget (snd (moDB hall1)) ''a'' = Some (''ann'', 86400)"
  by (simp_all add: hall1_def hall0_def handleRooms_def mono_createRoom_def hall_auth clamp_max_def Let_def)

lemma hall2_view:
  "moRooms hall2 = [(''7'', \<lparr>mrID = ''7'', mrName = ''Room'', mrOwnerID = ''ann'', mrState = PhWaiting, mrWinnerID = '''',
     mrMaxPlayers = 2, mrPlayers = [(''ann'', ()), (''bob'', ())]\<rparr>)]"
  "moPlayerRoom hall2 = [(''ann'', ''7''), (''bob'', ''7'')]" "moGameStates hall2 = []" "moRoomNextAdd hall2 = []"
  "moRoomTickets hall2 = []" "moLobbySubs hall2 = []" "moLastHB hall2 = []" "cfTokenTTL (moCfg hall2) = 86400000000000"
  "mget (snd (moDB hall2)) ''b'' = Some (''bob'', 86400)" "mget (snd (moDB hall2)) ''a'' = Some (''ann'', 86400)"
  by (simp_all add: hall2_def handleJoin_def hall1_view hall_auth mhas_def Let_def)

definition fresh_state :: player_state where
  "fresh_state = NewInitialState 0 0 1 (\<lambda>r c. Flt 1) (\<lambda>r c. 0)"

lemma hall3_view:
  "moRooms hall3 = [(''7'', \<lparr>mrID = ''7'', mrName = ''Room'', mrOwnerID = ''ann'', mrState = PhPlaying, mrWinnerID = '''',
     mrMaxPlayers = 2, mrPlayers = [(''ann'', ()), (''bob'', ())]\<rparr>)]"
  "moPlayerRoom hall3 = [(''ann'', ''7''), (''bob'', ''7'')]"
  "moGameStates hall3 = [(''7'', [(''ann'', fresh_state), (''bob'', fresh_state)])]" "moRoomNextAdd hall3 = [(''7'', 10000)]"
  "moRoomTickets hall3 = [(''7'', [(''ann'', ''01''), (''bob'', ''01'')])]" "moLobbySubs hall3 = []" "moLastHB hall3 = []"
proof -
  have hx: "hex_encode [1] = ''01''" by code_simp
  show "moRooms hall3 = [(''7'', \<lparr>mrID = ''7'', mrName = ''Room'', mrOwnerID = ''ann'', mrState = PhPlaying, mrWinnerID = '''',
     mrMaxPlayers = 2, mrPlayers = [(''ann'', ()), (''bob'', ())]\<rparr>)]"
  "moPlayerRoom hall3 = [(''ann'', ''7''), (''bob'', ''7'')]"
  "moGameStates hall3 = [(''7'', [(''ann'', fresh_state), (''bob'', fresh_state)])]" "moRoomNextAdd hall3 = [(''7'', 10000)]"
  "moRoomTickets hall3 = [(''7'', [(''ann'', ''01''), (''bob'', ''01'')])]" "moLobbySubs hall3 = []" "moLastHB hall3 = []"
    by (simp_all add: hall3_def handleStart_def hall2_view hall_auth Let_def new_states_def new_tickets_def unix_ms_def
        fresh_state_def plain_seat_def randHex_def hx)
qed

lemma plain_seat_fair: "seat_fair plain_seat"
  by (simp add: seat_fair_def plain_seat_def colour_def)

lemma hall_reachable:
  "mono_reachable table_db hall1" "mono_reachable table_db hall2" "mono_reachable table_db hall3"
proof -
  have 0: "mono_reachable table_db hall0" unfolding hall0_def by (rule mono_reachable.new)
  have "mget (moRooms hall0) (FormatInt 7) = None" by (simp add: hall0_def mono_New_def)
  then show 1: "mono_reachable table_db hall1"
    unfolding hall1_def by (intro mono_reachable.step[OF 0] mono_step.rooms)
  show 2: "mono_reachable table_db hall2" unfolding hall2_def by (rule mono_reachable.step[OF 1 mono_step.join])
  show "mono_reachable table_db hall3" unfolding hall3_def
    by (rule mono_reachable.step[OF 2 mono_step.start_game]) (use plain_seat_fair in blast)
qed

subsection \<open>The claims\<close>

text \<open>
  C29: in every state the server can reach, whatever players request, send or leave undone: a room
  seats its owner and at most as many players as it allows, between two and eight; a room is
  played exactly when it has states, tickets and a time for its next layer, then it has two
  players or more and no winner, and states and tickets belong to the same players; every state
  of a game is well formed with no bubble in flight; and the room a player is registered in
  seats the player.
\<close>

theorem mono_reachable_invariant:
  assumes "mono_reachable db s"
  shows "(\<forall>rid r. mget (moRooms s) rid = Some r \<longrightarrow>
       mrID r = rid \<and> mhas (mrPlayers r) (mrOwnerID r) \<and> int (length (mrPlayers r)) \<le> mrMaxPlayers r
       \<and> mrMaxPlayers r \<in> {2..8} \<and> (mrState r = PhPlaying \<longrightarrow> 2 \<le> length (mrPlayers r) \<and> mrWinnerID r = ''''))
    \<and> (\<forall>rid. let playing = (\<exists>r. mget (moRooms s) rid = Some r \<and> mrState r = PhPlaying) in
       (mget (moGameStates s) rid \<noteq> None \<longleftrightarrow> playing) \<and> (mget (moRoomTickets s) rid \<noteq> None \<longleftrightarrow> playing)
       \<and> (mget (moRoomNextAdd s) rid \<noteq> None \<longleftrightarrow> playing))
    \<and> (\<forall>rid states. mget (moGameStates s) rid = Some states \<longrightarrow>
       (\<exists>tickets. mget (moRoomTickets s) rid = Some tickets \<and> map fst tickets = map fst states)
       \<and> (\<forall>p st. mget states p = Some st \<longrightarrow> wf_state st \<and> Moving st = None))
    \<and> (\<forall>p rid. mget (moPlayerRoom s) p = Some rid \<longrightarrow> seated s p rid)"
proof -
  have ok: "mono_ok s" by (rule mono_reachable_ok[OF assms])
  have rooms: "mrID r = rid \<and> mhas (mrPlayers r) (mrOwnerID r) \<and> int (length (mrPlayers r)) \<le> mrMaxPlayers r
       \<and> mrMaxPlayers r \<in> {2..8} \<and> (mrState r = PhPlaying \<longrightarrow> 2 \<le> length (mrPlayers r) \<and> mrWinnerID r = '''')"
    if "mget (moRooms s) rid = Some r" for rid r
    using mono_ok_room(1)[OF ok that] by (simp add: mono_wf_room_def)
  have games: "let playing = (\<exists>r. mget (moRooms s) rid = Some r \<and> mrState r = PhPlaying) in
       (mget (moGameStates s) rid \<noteq> None \<longleftrightarrow> playing) \<and> (mget (moRoomTickets s) rid \<noteq> None \<longleftrightarrow> playing)
       \<and> (mget (moRoomNextAdd s) rid \<noteq> None \<longleftrightarrow> playing)" for rid
    using ok by (auto simp: mono_ok_def room_ok_def idle_def played_def Let_def dest!: spec[of _ rid] split: option.splits if_splits)
  have sts: "(\<exists>tickets. mget (moRoomTickets s) rid = Some tickets \<and> map fst tickets = map fst states)
       \<and> (\<forall>p st. mget states p = Some st \<longrightarrow> wf_state st \<and> Moving st = None)"
    if "mget (moGameStates s) rid = Some states" for rid states
    using mono_ok_playing[OF ok that] that by (fastforce simp: played_def states_ok_def player_ok_def)
  have "\<forall>p rid. mget (moPlayerRoom s) p = Some rid \<longrightarrow> seated s p rid" using mono_ok_seated[OF ok] by blast
  then show ?thesis using rooms games sts by blast
qed

theorem mono_reachable_invariant_witness: "wf_state fresh_state \<and> Moving fresh_state = None"
proof -
  have "mget (moGameStates hall3) ''7'' = Some [(''ann'', fresh_state), (''bob'', fresh_state)]" by (simp add: hall3_view)
  then have "\<forall>p st. mget [(''ann'', fresh_state), (''bob'', fresh_state)] p = Some st \<longrightarrow> wf_state st \<and> Moving st = None"
    using mono_reachable_invariant[OF hall_reachable(3)] by blast
  then show ?thesis by (elim allE[of _ "''ann''"]) simp
qed

definition alive_set :: "mono_room \<Rightarrow> states \<Rightarrow> string set" where
  "alive_set room states = {p. mhas (mrPlayers room) p \<and> (\<exists>st. mget states p = Some st \<and> Status st \<noteq> StLose)}"

definition lost_set :: "mono_room \<Rightarrow> states \<Rightarrow> string set" where
  "lost_set room states = {p. mhas (mrPlayers room) p \<and> (\<exists>st. mget states p = Some st \<and> Status st = StLose)}"

lemma room_sets:
  "set (room_alive room states) = alive_set room states" "set (room_losers room states) = lost_set room states"
  by (auto simp: room_alive_def room_losers_def alive_set_def lost_set_def wf_map_key_mem mhas_def
      simp del: set_map split: option.splits)

lemma room_winner_eq:
  assumes "mono_wf_room rid room" and "mrState room = PhPlaying"
  shows "room_winner room states =
    (if is_singleton (alive_set room states) \<and> lost_set room states \<noteq> {} then Some (the_elem (alive_set room states)) else None)"
proof -
  have "distinct (map fst (mrPlayers room))" using assms(1) by (simp add: mono_wf_room_def wf_map_def)
  then have d: "distinct (room_alive room states)" by (simp add: room_alive_def)
  have one: "length (room_alive room states) = 1 \<longleftrightarrow> is_singleton (alive_set room states)"
    using distinct_card[OF d] room_sets by (metis is_singleton_altdef)
  have "the_elem (alive_set room states) = hd (room_alive room states)" if l: "length (room_alive room states) = 1"
  proof -
    obtain w where "room_alive room states = [w]" using l by (cases "room_alive room states") auto
    then show ?thesis using room_sets(1)[of room states] by (metis list.sel(1) list.simps(15) empty_set the_elem_eq)
  qed
  moreover have "length (room_losers room states) = 0 \<longleftrightarrow> lost_set room states = {}"
    using room_sets(2)[of room states] by (metis length_0_conv set_empty)
  ultimately show ?thesis using assms one by (simp add: room_winner_def mono_wf_room_def)
qed

text \<open>
  C30: in a state with the server's invariant (every reachable one), a game of a room is decided exactly when one seated player with a state has not lost and
  at least one has. Then the room waits again with that player as its winner, its game leaves
  the three maps, nothing else changes, and in the last states the connections show the winner
  has won and everybody else has lost. Otherwise nothing changes.
\<close>

theorem mono_winner:
  assumes "mono_ok s" and "mget (moRooms s) rid = Some room" and "mget (moGameStates s) rid = Some states"
  shows "resolveRoomOutcomeLocked rid s =
      (if is_singleton (alive_set room states) \<and> lost_set room states \<noteq> {}
       then s\<lparr>moRooms := mput rid (room\<lparr>mrState := PhWaiting, mrWinnerID := the_elem (alive_set room states)\<rparr>) (moRooms s),
              moGameStates := mdel rid (moGameStates s), moRoomTickets := mdel rid (moRoomTickets s),
              moRoomNextAdd := mdel rid (moRoomNextAdd s)\<rparr>
       else s)
    \<and> (\<forall>w p st. alive_set room states = {w} \<and> mget states p = Some st \<longrightarrow>
        Status (final_state w p st) = (if p = w then StWin else StLose) \<and> \<not> PendingShot (final_state w p st))"
proof -
  note ok = assms(1)
  have pl: "mrState room = PhPlaying" using mono_ok_playing[OF ok assms(3)] assms(2) by (metis option.inject)
  note w = room_winner_eq[OF mono_ok_room(1)[OF ok assms(2)] pl, of states]
  have "Status (final_state w p st) = (if p = w then StWin else StLose) \<and> \<not> PendingShot (final_state w p st)"
    if "alive_set room states = {w}" "mget states p = Some st" for w p st
  proof -
    have "w \<in> alive_set room states" using that(1) by simp
    then show ?thesis using that(2) by (auto simp: alive_set_def final_state_def)
  qed
  then show ?thesis
    using assms(2,3) by (simp add: resolveRoomOutcomeLocked_def w forget_game_def)
qed

text \<open>In the hall of two players bob has lost.\<close>

definition bob_lost :: states where
  "bob_lost = [(''ann'', fresh_state), (''bob'', fresh_state\<lparr>Status := StLose\<rparr>)]"

definition hall4 :: "tables mono_server" where
  "hall4 = hall3\<lparr>moGameStates := mput ''7'' bob_lost (moGameStates hall3)\<rparr>"

lemma fresh_state_ok: "player_ok fresh_state" "Status fresh_state = StPlaying"
  using wf_NewInitialState[of 0 1 "\<lambda>r c. 0"]
  by (simp_all add: player_ok_def fresh_state_def Moving_NewInitialState colour_def) (simp add: NewInitialState_def)

lemma hall4_ok: "mono_ok hall4"
  unfolding hall4_def
proof (rule mono_ok_states[OF mono_reachable_ok[OF hall_reachable(3)]])
  show "mget (moGameStates hall3) ''7'' = Some [(''ann'', fresh_state), (''bob'', fresh_state)]" by (simp add: hall3_view)
  show "wf_states bob_lost" using fresh_state_ok
    by (auto simp: states_ok_def wf_map_def bob_lost_def player_ok_def wf_state_def split: if_splits)
qed (simp add: bob_lost_def)

theorem mono_winner_witness:
  "map_option mrWinnerID (mget (moRooms (resolveRoomOutcomeLocked ''7'' hall4)) ''7'') = Some ''ann''"
proof -
  let ?r = "\<lparr>mrID = ''7'', mrName = ''Room'', mrOwnerID = ''ann'', mrState = PhPlaying,
      mrWinnerID = '''', mrMaxPlayers = 2, mrPlayers = [(''ann'', ()), (''bob'', ())]\<rparr>"
  have r: "mget (moRooms hall4) ''7'' = Some ?r" by (simp add: hall4_def hall3_view)
  have g: "mget (moGameStates hall4) ''7'' = Some bob_lost" by (simp add: hall4_def)
  have a: "alive_set ?r bob_lost = {''ann''}"
    using fresh_state_ok by (auto simp: alive_set_def bob_lost_def mhas_def split: if_splits)
  have l: "lost_set ?r bob_lost = {''bob''}"
    using fresh_state_ok by (auto simp: lost_set_def bob_lost_def mhas_def split: if_splits)
  show ?thesis unfolding conjunct1[OF mono_winner[OF hall4_ok r g]] a l by simp
qed

subsection \<open>Layers\<close>

text \<open>The states after the first \<open>k\<close> layers.\<close>

primrec layers :: "(nat \<Rightarrow> string \<Rightarrow> int \<Rightarrow> int) \<Rightarrow> nat \<Rightarrow> states \<Rightarrow> states" where
  "layers draw 0 sts = sts"
| "layers draw (Suc k) sts = mmap_vals (\<lambda>p st. AddTopLayer st (draw k p)) (layers draw k sts)"

lemma add_layers_from:
  "add_layers draw now k (t + 10000 * int k) (layers draw k sts) = (t', sts') \<Longrightarrow>
     \<exists>n\<ge>k. t' = t + 10000 * int n \<and> sts' = layers draw n sts
       \<and> (now < t' \<or> \<not> canAddLayer sts')
       \<and> (\<forall>j. k \<le> j \<and> j < n \<longrightarrow> t + 10000 * int j \<le> now \<and> canAddLayer (layers draw j sts))"
proof (induction "nat (now + 1 - (t + 10000 * int k))" arbitrary: k rule: less_induct)
  case less
  show ?case
  proof (cases "now < t + 10000 * int k \<or> \<not> canAddLayer (layers draw k sts)")
    case True
    then have "(t', sts') = (t + 10000 * int k, layers draw k sts)"
      using less.prems by (subst (asm) add_layers.simps) simp
    then show ?thesis using True by (intro exI[of _ k]) auto
  next
    case False
    have e: "add_layers draw now (Suc k) (t + 10000 * int (Suc k)) (layers draw (Suc k) sts) = (t', sts')"
      using less.prems False by (subst (asm) add_layers.simps) (simp add: algebra_simps)
    obtain n where n: "n \<ge> Suc k" "t' = t + 10000 * int n" "sts' = layers draw n sts" "now < t' \<or> \<not> canAddLayer sts'"
      "\<forall>j. Suc k \<le> j \<and> j < n \<longrightarrow> t + 10000 * int j \<le> now \<and> canAddLayer (layers draw j sts)"
      using less.hyps[OF _ e] False by auto
    have "t + 10000 * int j \<le> now \<and> canAddLayer (layers draw j sts)" if "k \<le> j" "j < n" for j
      using n(5) that False by (cases "j = k") auto
    then show ?thesis using n by (intro exI[of _ n]) auto
  qed
qed

text \<open>A row that has bubbles comes down whole; after 14 layers the first of them is in the last row.\<close>

lemma layer_rows:
  assumes "\<forall>c. colour (draw c)"
  shows "row_bubbles (stBoard (AddTopLayer st draw)) 0 \<noteq> {}"
    and "0 \<le> r \<Longrightarrow> r < gbRows - 1 \<Longrightarrow> row_bubbles (stBoard st) r \<noteq> {} \<Longrightarrow> row_bubbles (stBoard (AddTopLayer st draw)) (r + 1) \<noteq> {}"
    and "row_bubbles (stBoard (AddTopLayer st draw)) (gbRows - 1) \<noteq> {} \<Longrightarrow> Status (AddTopLayer st draw) = StLose"
proof -
  have draw: "\<And>c. colour (draw c)" using assms by blast
  have "occupied (layered (stBoard st) draw) (0, 0)"
    using layered_props(3)[OF draw, where q = "(0, 0)" and b = "stBoard st"] by (simp add: inBoard_def gb_defs)
  then show "row_bubbles (stBoard (AddTopLayer st draw)) 0 \<noteq> {}"
    by (auto simp: AddTopLayer_layered row_bubbles_def)
  show "row_bubbles (stBoard (AddTopLayer st draw)) (r + 1) \<noteq> {}"
    if "0 \<le> r" "r < gbRows - 1" "row_bubbles (stBoard st) r \<noteq> {}"
    using layered_row_count[of draw r "stBoard st", OF draw that(1,2)] that(3)
    by (simp add: AddTopLayer_layered) (metis card_0_eq finite_row_bubbles)
  show "Status (AddTopLayer st draw) = StLose" if "row_bubbles (stBoard (AddTopLayer st draw)) (gbRows - 1) \<noteq> {}"
    using that by (auto simp: AddTopLayer_layered Status_checkState row_bubbles_def)
qed

lemma layers_row:
  assumes "\<forall>k p c. colour (draw k p c)"
  shows "(p, st) \<in> set (layers draw (Suc k) sts) \<Longrightarrow> k < 14 \<Longrightarrow>
    row_bubbles (stBoard st) (int k) \<noteq> {} \<and> (k = 13 \<longrightarrow> Status st = StLose)"
proof (induction k arbitrary: p st)
  case 0
  then show ?case using layer_rows(1)[of "draw 0 p" for p] assms by (auto simp: mmap_vals_def)
next
  case (Suc k)
  have "(p, st) \<in> set (mmap_vals (\<lambda>p st. AddTopLayer st (draw (Suc k) p)) (layers draw (Suc k) sts))"
    using Suc.prems(1) unfolding layers.simps(2)[of draw "Suc k" sts] .
  then obtain st0 where st0: "(p, st0) \<in> set (layers draw (Suc k) sts)" "st = AddTopLayer st0 (draw (Suc k) p)"
    by (auto simp: mmap_vals_def simp del: layers.simps(2))
  have d: "\<forall>c. colour (draw (Suc k) p c)" using assms by blast
  have "row_bubbles (stBoard st0) (int k) \<noteq> {}" using Suc.IH[OF st0(1)] Suc.prems(2) by simp
  then have row: "row_bubbles (stBoard st) (int k + 1) \<noteq> {}"
    using layer_rows(2)[OF d, of "int k" st0] Suc.prems(2) by (simp add: st0(2) gbRows_def)
  moreover have "Status st = StLose" if "Suc k = 13"
    using layer_rows(3)[OF d, of st0] row that by (simp add: st0(2) gbRows_def)
  ultimately show ?case by (simp add: add.commute)
qed

lemma layers_end:
  assumes "\<forall>k p c. colour (draw k p c)"
  shows "\<not> canAddLayer (layers draw 14 sts)"
proof
  assume can: "canAddLayer (layers draw 14 sts)"
  then obtain p st where m: "(p, st) \<in> set (layers draw 14 sts)" by (cases "layers draw 14 sts") (auto simp: canAddLayer_def)
  then have "Status st = StLose" using layers_row[OF assms, of p st 13 sts] by simp
  moreover have "Status st = StPlaying" using can m by (auto simp: canAddLayer_def list_all_iff)
  ultimately show False by simp
qed

text \<open>
  C31: the loop that adds layers to a played room ends, and adds the layers that are due as far as
  the room can take them. It adds n layers, each after its time has come and while nobody is
  shooting and nobody has won or lost, and puts the time of the next layer 10 seconds later for each.
  It stops for one of two reasons only: the next layer is not due, or the room cannot take a layer;
  then the time of the next layer may stay behind the clock. While the room can still take one,
  no due layer is left out: n is the number of 10-second marks that have passed. One call
  adds 14 layers at most, as the first of them has reached the bottom row by then.
\<close>

theorem layers_catch_up:
  assumes "mget (moRooms s) rid = Some room" and "mrState room = PhPlaying"
    and "mget (moGameStates s) rid = Some states" and "canAddLayer states"
    and "mget (moRoomNextAdd s) rid = Some t" and "0 < t" and "\<forall>k p c. colour (draw k p c)"
  shows "\<exists>n \<le> 14. maybeAddTopLayerLocked draw rid now s
        = s\<lparr>moGameStates := mput rid (layers draw n states) (moGameStates s),
            moRoomNextAdd := mput rid (t + 10000 * int n) (moRoomNextAdd s)\<rparr>
    \<and> (\<forall>j<n. t + 10000 * int j \<le> now \<and> canAddLayer (layers draw j states))
    \<and> (now < t + 10000 * int n \<or> \<not> canAddLayer (layers draw n states))
    \<and> (canAddLayer (layers draw n states) \<and> t \<le> now \<longrightarrow> int n = (now - t) div 10000 + 1)"
proof -
  obtain t' sts' where a: "add_layers draw now 0 t states = (t', sts')" by fastforce
  then obtain n where n: "t' = t + 10000 * int n" "sts' = layers draw n states" "now < t' \<or> \<not> canAddLayer sts'"
    "\<forall>j. j < n \<longrightarrow> t + 10000 * int j \<le> now \<and> canAddLayer (layers draw j states)"
    using add_layers_from[of draw now 0 t states t' sts'] by auto
  have ne: "states \<noteq> []" using assms(4) by (auto simp: canAddLayer_def)
  have "maybeAddTopLayerLocked draw rid now s
        = s\<lparr>moGameStates := mput rid (layers draw n states) (moGameStates s),
            moRoomNextAdd := mput rid (t + 10000 * int n) (moRoomNextAdd s)\<rparr>"
    using assms a n(1,2) ne by (simp add: maybeAddTopLayerLocked_def get_or_def Let_def)
  moreover have "int n = (now - t) div 10000 + 1" if "canAddLayer (layers draw n states)" "t \<le> now"
  proof -
    have up: "now < t + 10000 * int n" using n that by simp
    then have "0 < n" using that(2) by (cases n) auto
    then have "t + 10000 * (int n - 1) \<le> now" using n(4)[rule_format, of "n - 1"] by (simp add: of_nat_diff)
    then have lo: "10000 * (int n - 1) \<le> now - t" by simp
    have "(now - t) div 10000 = int n - 1"
      by (rule int_div_pos_eq[where r = "now - t - 10000 * (int n - 1)"]) (use up lo in auto)
    then show ?thesis by simp
  qed
  moreover have "n \<le> 14"
  proof (rule ccontr)
    assume "\<not> n \<le> 14"
    then have "canAddLayer (layers draw 14 states)" using n(4) by simp
    then show False using layers_end[OF assms(7)] by blast
  qed
  ultimately show ?thesis using n by blast
qed

theorem layers_catch_up_witness:
  "\<exists>n\<ge>1. maybeAddTopLayerLocked (\<lambda>k p c. 0) ''7'' 10000 hall3
     = hall3\<lparr>moGameStates := mput ''7'' (layers (\<lambda>k p c. 0) n [(''ann'', fresh_state), (''bob'', fresh_state)]) (moGameStates hall3),
         moRoomNextAdd := mput ''7'' (10000 + 10000 * int n) (moRoomNextAdd hall3)\<rparr>"
proof -
  let ?sts = "[(''ann'', fresh_state), (''bob'', fresh_state)]"
  have can: "canAddLayer ?sts" by (simp add: canAddLayer_def fresh_state_def NewInitialState_def)
  have "mget (moRooms hall3) ''7'' = Some \<lparr>mrID = ''7'', mrName = ''Room'', mrOwnerID = ''ann'', mrState = PhPlaying,
      mrWinnerID = '''', mrMaxPlayers = 2, mrPlayers = [(''ann'', ()), (''bob'', ())]\<rparr>" by (simp add: hall3_view)
  then obtain n where n: "maybeAddTopLayerLocked (\<lambda>k p c. 0) ''7'' 10000 hall3
     = hall3\<lparr>moGameStates := mput ''7'' (layers (\<lambda>k p c. 0) n ?sts) (moGameStates hall3),
         moRoomNextAdd := mput ''7'' (10000 + 10000 * int n) (moRoomNextAdd hall3)\<rparr>"
     "10000 < 10000 + 10000 * int n \<or> \<not> canAddLayer (layers (\<lambda>k p c. 0) n ?sts)"
    using layers_catch_up[OF _ _ _ can, of hall3 "''7''" _ 10000 "\<lambda>k p c. 0" 10000] by (auto simp: hall3_view colour_def)
  then have "n \<noteq> 0" using can by (cases n) auto
  then show ?thesis using n(1) by (intro exI[of _ n]) simp
qed

subsection \<open>Leaving and joining\<close>

lemma mkeys_mdel: "mkeys (mdel k m) = mkeys m - {k}"
  by (induction m) auto

lemma card_rest:
  assumes "wf_map m"
  shows "length (mdel p m) = card (mkeys m - {p})"
  using wf_map_length[OF wf_map_mdel[OF assms]] by (simp add: mkeys_mdel)

definition not_lost :: "'d mono_server \<Rightarrow> string \<Rightarrow> string \<Rightarrow> bool" where
  "not_lost s rid q \<longleftrightarrow> (\<exists>states st. mget (moGameStates s) rid = Some states \<and> mget states q = Some st \<and> Status st \<noteq> StLose)"

lemma last_standing_one:
  "last_standing (get_or [] (moGameStates s) rid) [q] = (if not_lost s rid q then Some q else None)"
  by (auto simp: last_standing_def not_lost_def get_or_def split: option.split)

lemma room_after_owner:
  assumes "mono_wf_room rid room" and "mdel p (mrPlayers room) \<noteq> []"
  shows "mrOwnerID (room_after p sts room) \<in> mkeys (mdel p (mrPlayers room))
    \<and> (mrOwnerID room \<noteq> p \<longrightarrow> mrOwnerID (room_after p sts room) = mrOwnerID room)"
proof (cases "mrOwnerID room = p")
  case True
  then have "mrOwnerID (room_after p sts room) = fst (hd (mdel p (mrPlayers room)))" by (simp add: room_after_def Let_def)
  then show ?thesis using True hd_member[OF assms(2)] by (simp add: mhas_def mkeys_iff)
next
  case False
  moreover have "mrOwnerID room \<in> mkeys (mrPlayers room)" using assms(1) by (auto simp: mono_wf_room_def mhas_def mkeys_iff)
  ultimately show ?thesis by (simp add: room_after_def Let_def mkeys_mdel)
qed

text \<open>
  A player who leaves, or is put out, gives up the seat and nothing else of another room
  changes. The last one closes the room. When two were playing the game ends: the one who
  stays has won, unless the player has lost already, and the room waits. With more players the game goes
  on as it is. A room that lost its owner has one of the players who stay as its owner.
\<close>

theorem mono_leave:
  assumes "mono_ok s" and "mget (moPlayerRoom s) p = Some rid" and "mget (moRooms s) rid = Some room"
  defines "s' \<equiv> removePlayerLocked p rid s" and "rest \<equiv> mkeys (mrPlayers room) - {p}"
  shows "mget (moPlayerRoom s') = (mget (moPlayerRoom s))(p := None)
    \<and> (\<forall>k. k \<noteq> rid \<longrightarrow> mget (moRooms s') k = mget (moRooms s) k \<and> mget (moGameStates s') k = mget (moGameStates s) k)
    \<and> (if rest = {} then mget (moRooms s') rid = None \<and> idle s' rid
       else \<exists>room'. mget (moRooms s') rid = Some room' \<and> mkeys (mrPlayers room') = rest
         \<and> mrOwnerID room' \<in> rest \<and> (mrOwnerID room \<noteq> p \<longrightarrow> mrOwnerID room' = mrOwnerID room)
         \<and> (if mrState room = PhPlaying \<and> card rest = 1
            then mrState room' = PhWaiting \<and> idle s' rid
              \<and> (\<forall>q. rest = {q} \<longrightarrow> mrWinnerID room' = (if not_lost s rid q then q else ''''))
            else mrState room' = mrState room \<and> mrWinnerID room' = mrWinnerID room
              \<and> mget (moGameStates s') rid = mget (moGameStates s) rid))"
proof -
  note v = remove_view[OF assms(3), of p]
  have wf: "mono_wf_room rid room" by (rule mono_ok_room(1)[OF assms(1,3)])
  then have wfm: "wf_map (mrPlayers room)" by (simp add: mono_wf_room_def)
  have rest: "mkeys (mdel p (mrPlayers room)) = rest" by (simp add: rest_def mkeys_mdel)
  have nil: "mdel p (mrPlayers room) = [] \<longleftrightarrow> rest = {}" using rest by (metis image_is_empty set_empty)
  have len: "length (mdel p (mrPlayers room)) = card rest" using card_rest[OF wfm] by (simp add: rest_def)
  have fin: "finite rest" unfolding rest_def by simp
  have le1: "rest \<noteq> {} \<Longrightarrow> card rest \<le> 1 \<longleftrightarrow> card rest = 1" using fin by (metis card_0_eq le_less less_one)
  show ?thesis
  proof (cases "rest = {}")
    case True
    then have "game_ends p room" using nil by (simp add: game_ends_def)
    then show ?thesis using True v nil by (auto simp: s'_def idle_def fun_eq_iff)
  next
    case False
    let ?sts = "get_or [] (moGameStates s) rid"
    let ?r = "room_after p ?sts room"
    have r: "mget (moRooms s') rid = Some ?r" "mkeys (mrPlayers ?r) = rest"
      using v(1) False nil rest by (simp_all add: s'_def)
    have o: "mrOwnerID ?r \<in> rest \<and> (mrOwnerID room \<noteq> p \<longrightarrow> mrOwnerID ?r = mrOwnerID room)"
      using room_after_owner[OF wf, of p ?sts] False nil rest by simp
    have ends: "game_ends p room \<longleftrightarrow> mrState room = PhPlaying \<and> card rest = 1"
      using False nil len le1 by (simp add: game_ends_def)
    have win: "mrWinnerID ?r = (if not_lost s rid q then q else '''')" if pq: "mrState room = PhPlaying" "rest = {q}" for q
    proof -
      obtain u where "mdel p (mrPlayers room) = [(q, u)]"
        using pq(2) len rest by (cases "mdel p (mrPlayers room)") (auto simp: length_Suc_conv)
      then show ?thesis using pq(1) last_standing_one[of s rid q] by (simp add: room_after_def Let_def)
    qed
    have "if mrState room = PhPlaying \<and> card rest = 1
            then mrState ?r = PhWaiting \<and> idle s' rid
              \<and> (\<forall>q. rest = {q} \<longrightarrow> mrWinnerID ?r = (if not_lost s rid q then q else ''''))
            else mrState ?r = mrState room \<and> mrWinnerID ?r = mrWinnerID room
              \<and> mget (moGameStates s') rid = mget (moGameStates s) rid"
      using v ends win len le1[OF False] by (auto simp: s'_def idle_def room_after_def Let_def)
    moreover have "mget (moPlayerRoom s') = (mget (moPlayerRoom s))(p := None)" by (auto simp: s'_def fun_eq_iff)
    ultimately show ?thesis using False r o v by (auto simp: s'_def)
  qed
qed

theorem mono_leave_witness:
  "map_option mrWinnerID (mget (moRooms (removePlayerLocked ''ann'' ''7'' hall3)) ''7'') = Some ''bob''"
proof -
  have m: "mget (moPlayerRoom hall3) ''ann'' = Some ''7''" by (simp add: hall3_view)
  have r: "mget (moRooms hall3) ''7'' = Some \<lparr>mrID = ''7'', mrName = ''Room'', mrOwnerID = ''ann'', mrState = PhPlaying,
      mrWinnerID = '''', mrMaxPlayers = 2, mrPlayers = [(''ann'', ()), (''bob'', ())]\<rparr>" by (simp add: hall3_view)
  have rest: "mkeys [(''ann'', ()), (''bob'', ())] - {''ann''} = {''bob''}" by auto
  have n: "not_lost hall3 ''7'' ''bob''" using fresh_state_ok by (simp add: not_lost_def hall3_view)
  show ?thesis
    using mono_leave[OF mono_reachable_ok[OF hall_reachable(3)] m r] n by (auto simp: rest)
qed

text \<open>
  A player can sit in two rooms. Joining a second room does not give up the first seat,
  as opening a room would: the player is then seated in both, registered only in the second,
  and leaving gives up only that one; the seat in the first room stays taken although no
  registration leads to it any more.
\<close>

theorem join_keeps_old_seat:
  fixes io :: "nat \<Rightarrow> bool"
  assumes "mono_ok s" and "mget (moPlayerRoom s) p = Some r1" and "rqRoomID rq \<noteq> r1" and "rqMethod rq = ''POST''"
    and "authPlayer db (clk 0) (clk 1) rq s = (Inr p, s0)" and "mget (moRooms s) (rqRoomID rq) = Some room"
    and "\<not> mhas (mrPlayers room) p" and "int (length (mrPlayers room)) < mrMaxPlayers room"
  defines "s' \<equiv> snd (handleJoin db io clk rq s)"
  shows "seated s' p r1 \<and> seated s' p (rqRoomID rq) \<and> mget (moPlayerRoom s') p = Some (rqRoomID rq)
    \<and> seated (removePlayerLocked p (rqRoomID rq) s') p r1
    \<and> mget (moPlayerRoom (removePlayerLocked p (rqRoomID rq) s')) p = None"
proof -
  have same: "same_rooms s s0" by (rule authPlayer_rooms[OF assms(5)])
  let ?b = "broadcastLobbyRoomsUpdated io (clk 2) (mrID room) p (sit_down (rqRoomID rq) p room s0)"
  have s': "s' = ?b"
    using assms same by (simp add: s'_def handleJoin_def sit_down_def same_rooms_def Let_def)
  have eq: "moRooms s' = mput (rqRoomID rq) (room\<lparr>mrPlayers := mput p () (mrPlayers room)\<rparr>) (moRooms s)"
    "moPlayerRoom s' = mput p (mrID room) (moPlayerRoom s)"
    using same broadcast_rooms[of "sit_down (rqRoomID rq) p room s0" io "clk 2" "mrID room" p]
    by (simp_all add: s' same_rooms_def sit_down_def)
  have id: "mrID room = rqRoomID rq" by (rule mono_ok_room(2)[OF assms(1,6)])
  have old: "seated s p r1" by (rule mono_ok_seated[OF assms(1,2)])
  have first: "seated s' p r1" using old assms(3) by (simp add: seated_def eq)
  have second: "mget (moRooms s') (rqRoomID rq) = Some (room\<lparr>mrPlayers := mput p () (mrPlayers room)\<rparr>)" by (simp add: eq)
  then have "seated (removePlayerLocked p (rqRoomID rq) s') p r1"
    using first remove_view(1)[OF second, of p r1] assms(3) by (simp add: seated_def)
  then show ?thesis using first second id by (simp add: eq seated_def mhas_def)
qed

text \<open>Ann, alone in room 7 with bob in room 8, joins room 8.\<close>

definition hall_two :: "tables mono_server" where
  "hall_two = snd (handleRooms table_db (\<lambda>_. False) (\<lambda>i. 8) (ask ''POST'' ''b'' '''') hall1)"

theorem join_keeps_old_seat_witness:
  "seated (snd (handleJoin table_db (\<lambda>_. False) (\<lambda>i. 9) (ask ''POST'' ''a'' ''8'') hall_two)) ''ann'' ''7''"
proof -
  have "mget (moRooms hall1) (FormatInt 8) = None" by (simp add: hall1_view)
  then have "mono_reachable table_db hall_two"
    unfolding hall_two_def by (intro mono_reachable.step[OF hall_reachable(1)] mono_step.rooms)
  then have ok: "mono_ok hall_two" by (rule mono_reachable_ok)
  have v: "mget (moPlayerRoom hall_two) ''ann'' = Some ''7''" "cfTokenTTL (moCfg hall_two) = 86400000000000"
    "mget (snd (moDB hall_two)) ''a'' = Some (''ann'', 86400)"
    "mget (moRooms hall_two) ''8'' = Some \<lparr>mrID = ''8'', mrName = ''Room'', mrOwnerID = ''bob'', mrState = PhWaiting,
       mrWinnerID = '''', mrMaxPlayers = 2, mrPlayers = [(''bob'', ())]\<rparr>"
    by (simp_all add: hall_two_def handleRooms_def mono_createRoom_def hall1_view hall_auth clamp_max_def Let_def)
  obtain s0 where a: "authPlayer table_db 9 9 (ask ''POST'' ''a'' ''8'') hall_two = (Inr ''ann'', s0)"
    using v by (simp add: authPlayer_def table_db_def unix_s_def)
  show ?thesis
    using join_keeps_old_seat[OF ok v(1), of "ask ''POST'' ''a'' ''8''" table_db "\<lambda>i. 9" s0 _ "\<lambda>_. False"] a v
    by (simp add: mhas_def)
qed

subsection \<open>Logging in\<close>

text \<open>
  What the statements of the source do in a database when they succeed: reading after writing, and
  the primary key of the table of users. Any of them may fail.
\<close>

definition lawful_db :: "'d db_ops \<Rightarrow> bool" where
  "lawful_db db \<longleftrightarrow>
     (\<forall>d t p e d'. dbPutToken db d t p e = Some d' \<longrightarrow>
        (\<forall>t'. dbToken db d' t' = (if t' = t then Some (p, e) else dbToken db d t'))
        \<and> dbCountUser db d' = dbCountUser db d \<and> dbPassword db d' = dbPassword db d)
     \<and> (\<forall>d e t d'. dbRenewToken db d e t = Some d' \<longrightarrow>
        (\<forall>t'. dbToken db d' t' = (if t' = t then map_option (\<lambda>(p, e0). (p, e)) (dbToken db d t) else dbToken db d t')))
     \<and> (\<forall>d u p c d'. dbInsertUser db d u p c = Some d' \<longrightarrow>
          dbToken db d' = dbToken db d \<and> dbCountUser db d' u = Some 1 \<and> dbPassword db d' u = Some p)"

lemma ensureUser_known:
  assumes "lawful_db db" and "ensureUser db now u p d = Some d'"
  shows "dbToken db d' = dbToken db d \<and> (\<exists>n. dbCountUser db d' u = Some n \<and> n \<noteq> 0) \<and> dbPassword db d' u = Some p"
proof (cases "dbCountUser db d u")
  case None
  then show ?thesis using assms(2) by (simp add: ensureUser_def)
next
  case (Some n)
  show ?thesis
  proof (cases "n = 0")
    case True
    then have "dbInsertUser db d u p (unix_s now) = Some d'" using assms(2) Some by (simp add: ensureUser_def)
    then show ?thesis using assms(1) by (auto simp: lawful_db_def)
  next
    case False
    then show ?thesis using assms(2) Some by (auto simp: ensureUser_def split: option.splits if_splits)
  qed
qed

text \<open>
  C32: a login that is answered with a token makes the token good if the database stored it: until
  its time has run out a request that carries it acts for the user who logged in, and gives the token
  a whole lifetime again if the database stores that, else the token keeps its time; once it has
  run out the request is refused. No other token is touched. The login does not look whether
  the token was stored: if not, it is answered all the same, the database knows of the token what
  it knew before, and a request with it is refused if that is nothing. In both cases the name
  belongs, from then on, to the password it was first used with: any other password is refused
  and changes nothing.
\<close>

theorem login_then_auth:
  fixes t1 t2 :: int
  assumes "lawful_db db" and "handleLogin db clk rnd rq s = (HttpJson j, s')"
    and "request_token rq2 = randHex rnd" and "rnd \<noteq> []"
  defines "tok \<equiv> randHex rnd" and "exp1 \<equiv> unix_s (clk 1 + cfTokenTTL (moCfg s))"
    and "exp2 \<equiv> unix_s (t2 + cfTokenTTL (moCfg s))"
  shows "\<exists>name u p d. rqLogin rq = Some (name, p) \<and> u = TrimSpace name \<and> u \<noteq> '''' \<and>
      ensureUser db (clk 0) u p (moDB s) = Some d \<and>
      (\<forall>t. t \<noteq> tok \<longrightarrow> dbToken db (moDB s') t = dbToken db (moDB s) t) \<and>
      (case dbPutToken db d tok u exp1 of
         Some d' \<Rightarrow> s' = s\<lparr>moDB := d'\<rparr> \<and>
           (if unix_s t1 \<le> exp1
            then fst (authPlayer db t1 t2 rq2 s') = Inr u
              \<and> dbToken db (moDB (snd (authPlayer db t1 t2 rq2 s'))) tok
                  = Some (u, if dbRenewToken db d' exp2 tok = None then exp1 else exp2)
            else authPlayer db t1 t2 rq2 s' = (Inl TokenExpired, s'))
       | None \<Rightarrow> dbToken db (moDB s') tok = dbToken db (moDB s) tok \<and>
           (dbToken db (moDB s) tok = None \<longrightarrow> authPlayer db t1 t2 rq2 s' = (Inl InvalidToken, s')))
      \<and> (\<forall>clk3 rnd3 rq3 name3 p3. rqMethod rq3 = ''POST'' \<and> rqLogin rq3 = Some (name3, p3) \<and> TrimSpace name3 = u
           \<and> p3 \<noteq> p \<and> p3 \<noteq> '''' \<longrightarrow> handleLogin db clk3 rnd3 rq3 s' = (HttpError 401 ''login failed'', s'))"
proof -
  obtain name p where l: "rqLogin rq = Some (name, p)"
    using assms(2) by (auto simp: handleLogin_def split: if_splits option.splits)
  let ?u = "TrimSpace name"
  obtain d where d: "ensureUser db (clk 0) ?u p (moDB s) = Some d" and u: "?u \<noteq> ''''"
    and s': "s' = s\<lparr>moDB := exec_ignored d (dbPutToken db d tok ?u exp1)\<rparr>"
    using assms(2) l by (auto simp: handleLogin_def Let_def tok_def exp1_def split: if_splits option.splits)
  note k = ensureUser_known[OF assms(1) d]
  have ne: "tok \<noteq> ''''" using assms(4) by (simp add: tok_def randHex_def)
  have cfg: "moCfg s' = moCfg s" by (simp add: s')
  obtain n where n: "dbCountUser db (moDB s') ?u = Some n" "n \<noteq> 0" "dbPassword db (moDB s') ?u = Some p"
    using assms(1) k by (cases "dbPutToken db d tok ?u exp1") (auto simp: s' lawful_db_def)
  have refuse: "handleLogin db clk3 rnd3 rq3 s' = (HttpError 401 ''login failed'', s')"
    if "rqMethod rq3 = ''POST''" "rqLogin rq3 = Some (name3, p3)" "TrimSpace name3 = ?u" "p3 \<noteq> p" "p3 \<noteq> ''''"
    for clk3 rnd3 rq3 name3 p3
  proof -
    have "ensureUser db (clk3 0) ?u p3 (moDB s') = None" using n that(4) by (simp add: ensureUser_def)
    then show ?thesis using that u by (simp add: handleLogin_def Let_def)
  qed
  have other: "t \<noteq> tok \<longrightarrow> dbToken db (moDB s') t = dbToken db (moDB s) t" for t
    using assms(1) k by (cases "dbPutToken db d tok ?u exp1") (auto simp: s' lawful_db_def)
  have outcome: "case dbPutToken db d tok ?u exp1 of
         Some d' \<Rightarrow> s' = s\<lparr>moDB := d'\<rparr> \<and>
           (if unix_s t1 \<le> exp1
            then fst (authPlayer db t1 t2 rq2 s') = Inr ?u
              \<and> dbToken db (moDB (snd (authPlayer db t1 t2 rq2 s'))) tok
                  = Some (?u, if dbRenewToken db d' exp2 tok = None then exp1 else exp2)
            else authPlayer db t1 t2 rq2 s' = (Inl TokenExpired, s'))
       | None \<Rightarrow> dbToken db (moDB s') tok = dbToken db (moDB s) tok \<and>
           (dbToken db (moDB s) tok = None \<longrightarrow> authPlayer db t1 t2 rq2 s' = (Inl InvalidToken, s'))"
  proof (cases "dbPutToken db d tok ?u exp1")
    case None
    then show ?thesis using k assms(3) ne by (simp add: s' authPlayer_def tok_def)
  next
    case (Some d')
    have db': "moDB s' = d'" by (simp add: s' Some)
    have t: "dbToken db d' tok = Some (?u, exp1)" using assms(1) Some by (auto simp: lawful_db_def)
    have auth: "authPlayer db t1 t2 rq2 s' = (if unix_s t1 \<le> exp1
        then (Inr ?u, s'\<lparr>moDB := exec_ignored d' (dbRenewToken db d' exp2 tok)\<rparr>) else (Inl TokenExpired, s'))"
      using assms(3) ne t by (simp add: authPlayer_def db' cfg tok_def exp2_def)
    have "dbToken db (exec_ignored d' (dbRenewToken db d' exp2 tok)) tok
        = Some (?u, if dbRenewToken db d' exp2 tok = None then exp1 else exp2)"
      using assms(1) t by (cases "dbRenewToken db d' exp2 tok") (auto simp: lawful_db_def)
    then show ?thesis by (simp add: Some auth) (simp add: s' Some)
  qed
  show ?thesis using l u d other outcome refuse by (intro exI[of _ name] exI[of _ ?u] exI[of _ p] exI[of _ d]) auto
qed

lemma table_db_lawful: "lawful_db table_db"
  by (auto simp: lawful_db_def table_db_def mhas_def split: if_splits option.splits)

theorem login_then_auth_witness:
  "fst (authPlayer table_db 5000000000 0 (ask ''GET'' ''0a'' '''')
     (snd (handleLogin table_db (\<lambda>i. 0) [10] ((ask ''POST'' '''' '''')\<lparr>rqLogin := Some (''eve'', ''pw'')\<rparr>) hall0))) = Inr ''eve''"
proof -
  let ?rq = "(ask ''POST'' '''' '''')\<lparr>rqLogin := Some (''eve'', ''pw'')\<rparr>"
  have t: "TrimSpace ''0a'' = ''0a''" "has_bearer ''0a'' = False" "TrimSpace ''eve'' = ''eve''" "randHex [10] = ''0a''"
    by code_simp+
  then have tok: "request_token (ask ''GET'' ''0a'' '''') = randHex [10]" by (simp add: request_token_def ask_def)
  have rq: "rqMethod ?rq = ''POST''" "rqLogin ?rq = Some (''eve'', ''pw'')" by (simp_all add: ask_def)
  have "ensureUser table_db 0 ''eve'' ''pw'' (moDB hall0) \<noteq> None"
    by (simp add: ensureUser_def table_db_def hall0_def mono_New_def mhas_def)
  then obtain j s' where l: "handleLogin table_db (\<lambda>i. 0) [10] ?rq hall0 = (HttpJson j, s')"
    using t rq by (auto simp: handleLogin_def Let_def)
  have ttl: "cfTokenTTL (moCfg hall0) = 86400000000000" by (simp add: hall0_def mono_New_def mono_defaults_def)
  have put: "dbPutToken table_db d tk u e = Some (fst d, mput tk (u, e) (snd d))" for d tk u e
    by (simp add: table_db_def)
  show ?thesis
    using login_then_auth[OF table_db_lawful l tok, of 5000000000 0] l t(3) rq(2) by (auto simp: ttl unix_s_def put)
qed

end
