(* ===== verification/UserSystem.thy ===== *)
theory UserSystem
  imports GoText GoJson
begin

text \<open>
  The user service, \<open>internal/usersystem/server.go\<close>, and the client the gateway verifies tokens
  with, \<open>internal/userclient/grpc_verifier.go\<close>. Redis is a state of type \<open>'r\<close> with the three
  commands the service uses as operations on it at a time; time is in nanoseconds.
\<close>

datatype redis_get = RgError | RgNil | RgVal string

text \<open>
  \<open>rdSet r now key value ttl\<close> and \<open>rdExpire r now key ttl\<close>: the booleans are whether there was
  an error, and whether the key was there (\<open>None\<close> for an error).
\<close>

record 'r redis_ops =
  rdSet :: "'r \<Rightarrow> int \<Rightarrow> string \<Rightarrow> string \<Rightarrow> int \<Rightarrow> bool \<times> 'r"
  rdGet :: "'r \<Rightarrow> int \<Rightarrow> string \<Rightarrow> redis_get"
  rdExpire :: "'r \<Rightarrow> int \<Rightarrow> string \<Rightarrow> int \<Rightarrow> bool option \<times> 'r"

record us_config =
  ucTokenTTL :: int
  ucRedisAddr :: string
  ucRedisKeyPrefix :: string

definition tokenKey :: "us_config \<Rightarrow> string \<Rightarrow> string" where
  "tokenKey cfg token =
     (let prefix = (if ucRedisKeyPrefix cfg = '''' then ''game:token:'' else ucRedisKeyPrefix cfg)
      in prefix @ token)"

text \<open>The random bytes: \<open>None\<close> when the source of randomness fails.\<close>

definition generateToken :: "8 word list option \<Rightarrow> string option" where
  "generateToken rnd = map_option hex_encode rnd"

subsection \<open>HTTP\<close>

text \<open>\<open>login\<close> is what the decoder made of the body: \<open>None\<close> for malformed JSON.\<close>

definition us_handleLogin ::
  "'r redis_ops \<Rightarrow> us_config \<Rightarrow> int \<Rightarrow> 8 word list option \<Rightarrow> string \<Rightarrow> (string \<times> string) option \<Rightarrow> 'r \<Rightarrow> http_reply \<times> 'r" where
  "us_handleLogin ops cfg now rnd http_method login r =
     (if http_method \<noteq> ''POST'' then (HttpError 405 ''method not allowed'', r)
      else (case login of
          None \<Rightarrow> (HttpError 400 ''bad json'', r)
        | Some (username, password) \<Rightarrow>
          if username = '''' \<or> password = '''' then (HttpError 400 ''missing username or password'', r)
          else (case generateToken rnd of
              None \<Rightarrow> (HttpError 500 ''generate token failed'', r)
            | Some token \<Rightarrow>
              (case rdSet ops r now (tokenKey cfg token) username (ucTokenTTL cfg) of
                 (err, r') \<Rightarrow>
                   if err then (HttpError 500 ''store token failed'', r')
                   else (HttpJson (JObj [(''token'', JStr token), (''player_id'', JStr username),
                                         (''expires_in'', jint (int_Seconds (ucTokenTTL cfg)))]), r')))))"

subsection \<open>The token table\<close>

definition us_validateToken :: "'r redis_ops \<Rightarrow> us_config \<Rightarrow> int \<Rightarrow> string \<Rightarrow> 'r \<Rightarrow> string \<times> bool \<times> string" where
  "us_validateToken ops cfg now token r =
     (if token = '''' then ('''', False, ''missing_token'')
      else (case rdGet ops r now (tokenKey cfg token) of
          RgNil \<Rightarrow> ('''', False, ''token_not_found'')
        | RgError \<Rightarrow> ('''', False, ''redis_error'')
        | RgVal val \<Rightarrow> (val, True, ''ok'')))"

definition us_refreshToken :: "'r redis_ops \<Rightarrow> us_config \<Rightarrow> int \<Rightarrow> string \<Rightarrow> 'r \<Rightarrow> (bool \<times> string) \<times> 'r" where
  "us_refreshToken ops cfg now token r =
     (if token = '''' then ((False, ''missing_token''), r)
      else (case rdExpire ops r now (tokenKey cfg token) (ucTokenTTL cfg) of
          (None, r') \<Rightarrow> ((False, ''redis_error''), r')
        | (Some ok, r') \<Rightarrow> if \<not> ok then ((False, ''token_not_found''), r') else ((True, ''ok''), r')))"

subsection \<open>The remote procedures\<close>

text \<open>The request is \<open>None\<close> for nil; the answer is \<open>None\<close> for an error.\<close>

definition getString :: "jobj option \<Rightarrow> string \<Rightarrow> string" where
  "getString s key = (case s of None \<Rightarrow> '''' | Some m \<Rightarrow> as_string (jget m key))"

definition us_Login ::
  "'r redis_ops \<Rightarrow> us_config \<Rightarrow> int \<Rightarrow> 8 word list option \<Rightarrow> jobj option \<Rightarrow> 'r \<Rightarrow> jobj option \<times> 'r" where
  "us_Login ops cfg now rnd req r =
     (let username = getString req ''username''; password = getString req ''password''
      in if username = '''' \<or> password = ''''
         then (Some [(''ok'', JBool False), (''reason'', JStr ''missing_username_or_password'')], r)
         else (case generateToken rnd of
             None \<Rightarrow> (None, r)
           | Some token \<Rightarrow>
             (case rdSet ops r now (tokenKey cfg token) username (ucTokenTTL cfg) of
                (err, r') \<Rightarrow>
                  if err then (None, r')
                  else (Some [(''ok'', JBool True), (''token'', JStr token), (''player_id'', JStr username),
                              (''expires_in'', jint (int_Seconds (ucTokenTTL cfg)))], r'))))"

definition us_ValidateToken :: "'r redis_ops \<Rightarrow> us_config \<Rightarrow> int \<Rightarrow> jobj option \<Rightarrow> 'r \<Rightarrow> jobj" where
  "us_ValidateToken ops cfg now req r =
     (case us_validateToken ops cfg now (getString req ''token'') r of
        (playerID, valid, reason) \<Rightarrow>
          [(''valid'', JBool valid), (''user_id'', JStr playerID), (''reason'', JStr reason)])"

definition us_RefreshToken :: "'r redis_ops \<Rightarrow> us_config \<Rightarrow> int \<Rightarrow> jobj option \<Rightarrow> 'r \<Rightarrow> jobj \<times> 'r" where
  "us_RefreshToken ops cfg now req r =
     (case us_refreshToken ops cfg now (getString req ''token'') r of
        ((valid, reason), r') \<Rightarrow> ([(''valid'', JBool valid), (''reason'', JStr reason)], r'))"

subsection \<open>The client of the service\<close>

text \<open>\<open>invoke method request\<close> is the remote call: \<open>None\<close> for an error. The result is \<open>None\<close> for an error.\<close>

definition VerifyToken :: "(string \<Rightarrow> jobj \<Rightarrow> jobj option) \<Rightarrow> string \<Rightarrow> (string \<times> bool \<times> string) option" where
  "VerifyToken invoke token =
     (if token = '''' then Some ('''', False, ''missing_token'')
      else (case invoke ''/auth.AuthService/ValidateToken'' [(''token'', JStr token)] of
          None \<Rightarrow> None
        | Some m \<Rightarrow> Some (as_string (jget m ''user_id''), as_bool (jget m ''valid''), as_string (jget m ''reason''))))"

definition RefreshToken :: "(string \<Rightarrow> jobj \<Rightarrow> jobj option) \<Rightarrow> string \<Rightarrow> (bool \<times> string) option" where
  "RefreshToken invoke token =
     (if token = '''' then Some (False, ''missing_token'')
      else (case invoke ''/auth.AuthService/RefreshToken'' [(''token'', JStr token)] of
          None \<Rightarrow> None
        | Some m \<Rightarrow> Some (as_bool (jget m ''valid''), as_string (jget m ''reason''))))"

end
