(* ===== verification/UserSpec.thy ===== *)
theory UserSpec
  imports UserSystem GatewaySpec
begin

text \<open>
  The user service keeps an abstract table of tokens, each with its user and its deadline
  (\<open>internal/usersystem/server.go\<close>), and a login there opens the gateway
  (\<open>internal/userclient/grpc_verifier.go\<close>, \<open>internal/gateway/tcp_gateway.go\<close>).
\<close>

subsection \<open>The abstract table of tokens\<close>

type_synonym token_table = "string \<Rightarrow> (string \<times> int) option"

definition spec_login :: "int \<Rightarrow> int \<Rightarrow> string \<Rightarrow> string \<Rightarrow> token_table \<Rightarrow> token_table" where
  "spec_login now life token user tab = tab(token \<mapsto> (user, now + life))"

text \<open>
  What a look at a token can find: its user before the deadline, nothing after it; Redis may be
  late by less than a millisecond.
\<close>

fun sees :: "int \<Rightarrow> string \<Rightarrow> token_table \<Rightarrow> string option \<Rightarrow> bool" where
  "sees now token tab (Some user) \<longleftrightarrow> (\<exists>deadline. tab token = Some (user, deadline) \<and> now < deadline + 1000000)"
| "sees now token tab None \<longleftrightarrow> (\<forall>user deadline. tab token = Some (user, deadline) \<longrightarrow> deadline \<le> now)"

definition spec_refresh :: "int \<Rightarrow> int \<Rightarrow> string \<Rightarrow> string option \<Rightarrow> token_table \<Rightarrow> token_table" where
  "spec_refresh now life token found tab =
     (case found of None \<Rightarrow> tab | Some user \<Rightarrow> tab(token \<mapsto> (user, now + life)))"

subsection \<open>What the commands of Redis do\<close>

text \<open>
  The lifetimes the client library (go-redis 9) sends for a duration in nanoseconds: \<open>Set\<close> sends
  seconds if there are only whole ones and else milliseconds, at least one; \<open>Expire\<close> sends whole
  seconds, at least one, and drops the rest.
\<close>

definition set_life :: "int \<Rightarrow> int" where
  "set_life d = max 1000000 (d div 1000000 * 1000000)"

definition expire_life :: "int \<Rightarrow> int" where
  "expire_life d = max 1000000000 (d div 1000000000 * 1000000000)"

text \<open>
  \<open>keys r k\<close> is the value of a key and the time it expires. A command that fails has had its
  effect or none; a read may fail.
\<close>

definition lawful_redis :: "'r redis_ops \<Rightarrow> ('r \<Rightarrow> string \<Rightarrow> (string \<times> int) option) \<Rightarrow> bool" where
  "lawful_redis ops keys \<longleftrightarrow>
     (\<forall>r now k v ttl err r'. 0 < ttl \<and> rdSet ops r now k v ttl = (err, r') \<longrightarrow>
        keys r' = (keys r)(k \<mapsto> (v, now + set_life ttl)) \<or> err \<and> keys r' = keys r)
     \<and> (\<forall>r now k. rdGet ops r now k = RgError \<or>
          (\<exists>found. sees now k (keys r) found
             \<and> rdGet ops r now k = (case found of None \<Rightarrow> RgNil | Some v \<Rightarrow> RgVal v)))
     \<and> (\<forall>r now k ttl res r'. 0 < ttl \<and> rdExpire ops r now k ttl = (res, r') \<longrightarrow>
          (\<exists>found. sees now k (keys r) found \<and>
             (keys r' = spec_refresh now (expire_life ttl) k found (keys r) \<and> res = Some (found \<noteq> None)
              \<or> res = None \<and> (keys r' = spec_refresh now (expire_life ttl) k found (keys r) \<or> keys r' = keys r))))"

lemma lawful_set:
  "lawful_redis ops keys \<Longrightarrow> 0 < ttl \<Longrightarrow> rdSet ops r now k v ttl = (err, r') \<Longrightarrow>
     keys r' = (keys r)(k \<mapsto> (v, now + set_life ttl)) \<or> err \<and> keys r' = keys r"
  unfolding lawful_redis_def by blast

lemma lawful_get:
  "lawful_redis ops keys \<Longrightarrow> rdGet ops r now k = RgError \<or>
     (\<exists>found. sees now k (keys r) found \<and> rdGet ops r now k = (case found of None \<Rightarrow> RgNil | Some v \<Rightarrow> RgVal v))"
  unfolding lawful_redis_def by blast

lemma lawful_expire:
  assumes "lawful_redis ops keys" and "0 < ttl" and "rdExpire ops r now k ttl = (res, r')"
  obtains found where "sees now k (keys r) found"
    and "keys r' = spec_refresh now (expire_life ttl) k found (keys r) \<and> res = Some (found \<noteq> None)
      \<or> res = None \<and> (keys r' = spec_refresh now (expire_life ttl) k found (keys r) \<or> keys r' = keys r)"
  using assms unfolding lawful_redis_def by blast

text \<open>
  A refresh can shorten a token's life: with a lifetime of one and a half seconds a login gives all of it,
  a refresh one second.
\<close>

lemma refresh_shortens: "set_life 1500000000 = 1500000000" "expire_life 1500000000 = 1000000000"
  by (simp_all add: set_life_def expire_life_def)

lemma whole_seconds: "0 < n \<Longrightarrow> set_life (n * 1000000000) = n * 1000000000 \<and> expire_life (n * 1000000000) = n * 1000000000"
  by (simp add: set_life_def expire_life_def max_def)

text \<open>The table the service keeps in Redis.\<close>

definition token_view :: "us_config \<Rightarrow> ('r \<Rightarrow> string \<Rightarrow> (string \<times> int) option) \<Rightarrow> 'r \<Rightarrow> token_table" where
  "token_view cfg keys r token = keys r (tokenKey cfg token)"

lemma tokenKey_inj [simp]: "tokenKey cfg t = tokenKey cfg t' \<longleftrightarrow> t = t'"
  by (simp add: tokenKey_def Let_def)

lemma token_view_update:
  "keys r' = (keys r)(tokenKey cfg t \<mapsto> x) \<Longrightarrow> token_view cfg keys r' = (token_view cfg keys r)(t \<mapsto> x)"
  by (auto simp: token_view_def fun_eq_iff)

lemma sees_view: "sees now (tokenKey cfg t) (keys r) found = sees now t (token_view cfg keys r) found"
  by (cases found) (auto simp: token_view_def)

lemma refresh_view:
  "keys r' = spec_refresh now life (tokenKey cfg t) found (keys r) \<Longrightarrow>
     token_view cfg keys r' = spec_refresh now life t found (token_view cfg keys r)"
  by (auto simp: spec_refresh_def token_view_def fun_eq_iff split: option.splits)

lemma login_effect:
  fixes keys :: "'r \<Rightarrow> string \<Rightarrow> (string \<times> int) option"
  assumes "lawful_redis ops keys" and "0 < ucTokenTTL cfg" and "u \<noteq> ''''" and "p \<noteq> ''''"
    and "us_Login ops cfg now (Some rnd) (Some [(''username'', JStr u), (''password'', JStr p)]) r = (res, r')"
  defines "tab \<equiv> token_view cfg keys"
  shows "case res of
      Some m \<Rightarrow> as_bool (jget m ''ok'') \<and> as_string (jget m ''token'') = hex_encode rnd
        \<and> as_string (jget m ''player_id'') = u \<and> tab r' = spec_login now (set_life (ucTokenTTL cfg)) (hex_encode rnd) u (tab r)
    | None \<Rightarrow> tab r' = spec_login now (set_life (ucTokenTTL cfg)) (hex_encode rnd) u (tab r) \<or> tab r' = tab r"
proof -
  let ?t = "hex_encode rnd"
  obtain err r1 where s: "rdSet ops r now (tokenKey cfg ?t) u (ucTokenTTL cfg) = (err, r1)" by fastforce
  have "tab r1 = spec_login now (set_life (ucTokenTTL cfg)) ?t u (tab r) \<or> err \<and> tab r1 = tab r"
    using lawful_set[OF assms(1,2) s] token_view_update[of keys r1 r cfg ?t]
    by (auto simp: tab_def spec_login_def token_view_def fun_eq_iff)
  then show ?thesis
    using assms(3-5) s by (cases err) (auto simp: us_Login_def getString_def generateToken_def)
qed

text \<open>
  C33: the user service refines the table of tokens. A login that is answered with a token has
  entered it for the user with the configured lifetime in whole milliseconds, and one that fails
  has entered it or changed nothing; a validation answers what the table says at that time or that
  Redis failed; a refresh gives a token that is still good the configured lifetime in whole seconds,
  at least one, and says so, changes nothing for one that is not, and may do either when Redis
  failed. So a lifetime of whole seconds is given in full by both, and another one is cut by a
  refresh. At a deadline Redis may be late by less than a millisecond.
\<close>

theorem user_service_refines_tokens:
  fixes keys :: "'r \<Rightarrow> string \<Rightarrow> (string \<times> int) option"
  assumes "lawful_redis ops keys" and "0 < ucTokenTTL cfg"
  defines "tab \<equiv> token_view cfg keys" and "ttl \<equiv> ucTokenTTL cfg"
  shows "(\<forall>u p rnd. u \<noteq> '''' \<and> p \<noteq> '''' \<longrightarrow>
      (case us_Login ops cfg now (Some rnd) (Some [(''username'', JStr u), (''password'', JStr p)]) r of
         (Some m, r') \<Rightarrow> as_bool (jget m ''ok'') \<and> as_string (jget m ''token'') = hex_encode rnd
           \<and> as_string (jget m ''player_id'') = u \<and> tab r' = spec_login now (set_life ttl) (hex_encode rnd) u (tab r)
       | (None, r') \<Rightarrow> tab r' = spec_login now (set_life ttl) (hex_encode rnd) u (tab r) \<or> tab r' = tab r))
    \<and> (\<forall>t. t \<noteq> '''' \<longrightarrow> us_validateToken ops cfg now t r = ('''', False, ''redis_error'')
         \<or> (\<exists>found. sees now t (tab r) found \<and> us_validateToken ops cfg now t r = (case found of
              None \<Rightarrow> ('''', False, ''token_not_found'') | Some u \<Rightarrow> (u, True, ''ok''))))
    \<and> (\<forall>t. t \<noteq> '''' \<longrightarrow> (case us_refreshToken ops cfg now t r of ((ok, reason), r') \<Rightarrow>
         \<exists>found. sees now t (tab r) found \<and>
          (tab r' = spec_refresh now (expire_life ttl) t found (tab r) \<and> (ok \<longleftrightarrow> found \<noteq> None)
           \<or> \<not> ok \<and> reason = ''redis_error''
             \<and> (tab r' = spec_refresh now (expire_life ttl) t found (tab r) \<or> tab r' = tab r))))
    \<and> (\<forall>n. 0 < n \<and> ttl = n * 1000000000 \<longrightarrow> set_life ttl = ttl \<and> expire_life ttl = ttl)"
proof (intro conjI allI impI)
  fix u p :: string and rnd :: "8 word list"
  assume up: "u \<noteq> '''' \<and> p \<noteq> ''''"
  then show "case us_Login ops cfg now (Some rnd) (Some [(''username'', JStr u), (''password'', JStr p)]) r of
         (Some m, r') \<Rightarrow> as_bool (jget m ''ok'') \<and> as_string (jget m ''token'') = hex_encode rnd
           \<and> as_string (jget m ''player_id'') = u \<and> tab r' = spec_login now (set_life ttl) (hex_encode rnd) u (tab r)
       | (None, r') \<Rightarrow> tab r' = spec_login now (set_life ttl) (hex_encode rnd) u (tab r) \<or> tab r' = tab r"
    using login_effect[OF assms(1,2), of u p now rnd r]
    by (auto simp: tab_def ttl_def split: prod.splits option.splits)
next
  fix t :: string
  assume t: "t \<noteq> ''''"
  have "rdGet ops r now (tokenKey cfg t) = RgError \<or>
      (\<exists>found. sees now t (tab r) found
        \<and> rdGet ops r now (tokenKey cfg t) = (case found of None \<Rightarrow> RgNil | Some v \<Rightarrow> RgVal v))"
    using lawful_get[OF assms(1), of r now "tokenKey cfg t"] by (simp add: sees_view tab_def)
  then show "us_validateToken ops cfg now t r = ('''', False, ''redis_error'')
         \<or> (\<exists>found. sees now t (tab r) found \<and> us_validateToken ops cfg now t r = (case found of
              None \<Rightarrow> ('''', False, ''token_not_found'') | Some u \<Rightarrow> (u, True, ''ok'')))"
  proof
    assume "rdGet ops r now (tokenKey cfg t) = RgError"
    then show ?thesis using t by (simp add: us_validateToken_def)
  next
    assume "\<exists>found. sees now t (tab r) found
        \<and> rdGet ops r now (tokenKey cfg t) = (case found of None \<Rightarrow> RgNil | Some v \<Rightarrow> RgVal v)"
    then obtain found where "sees now t (tab r) found"
      "rdGet ops r now (tokenKey cfg t) = (case found of None \<Rightarrow> RgNil | Some v \<Rightarrow> RgVal v)" by blast
    then show ?thesis using t by (intro disjI2 exI[of _ found]) (auto simp: us_validateToken_def split: option.split)
  qed
next
  fix t :: string
  assume t: "t \<noteq> ''''"
  obtain res r' where e: "rdExpire ops r now (tokenKey cfg t) ttl = (res, r')" by fastforce
  obtain found where found: "sees now (tokenKey cfg t) (keys r) found"
    and eff: "keys r' = spec_refresh now (expire_life ttl) (tokenKey cfg t) found (keys r) \<and> res = Some (found \<noteq> None)
      \<or> res = None \<and> (keys r' = spec_refresh now (expire_life ttl) (tokenKey cfg t) found (keys r) \<or> keys r' = keys r)"
    using lawful_expire[OF assms(1) _ e] assms(2) by (auto simp: ttl_def)
  have "tab r' = spec_refresh now (expire_life ttl) t found (tab r) \<and> res = Some (found \<noteq> None)
      \<or> res = None \<and> (tab r' = spec_refresh now (expire_life ttl) t found (tab r) \<or> tab r' = tab r)"
    using eff refresh_view[of keys r' now "expire_life ttl" cfg t found r]
    unfolding tab_def by (auto simp: token_view_def fun_eq_iff)
  moreover have "sees now t (tab r) found" using found by (simp add: sees_view tab_def)
  ultimately show "case us_refreshToken ops cfg now t r of ((ok, reason), r') \<Rightarrow>
         \<exists>found. sees now t (tab r) found \<and>
          (tab r' = spec_refresh now (expire_life ttl) t found (tab r) \<and> (ok \<longleftrightarrow> found \<noteq> None)
           \<or> \<not> ok \<and> reason = ''redis_error''
             \<and> (tab r' = spec_refresh now (expire_life ttl) t found (tab r) \<or> tab r' = tab r))"
    using t e by (auto simp: us_refreshToken_def ttl_def split: option.split intro!: exI[of _ found])
next
  fix n :: int
  assume "0 < n \<and> ttl = n * 1000000000"
  then show "set_life ttl = ttl" "expire_life ttl = ttl" using whole_seconds[of n] by simp_all
qed

text \<open>A Redis of one table that never fails and is never late.\<close>

definition seen_now :: "int \<Rightarrow> string \<Rightarrow> token_table \<Rightarrow> string option" where
  "seen_now now token tab =
     (case tab token of None \<Rightarrow> None | Some (user, deadline) \<Rightarrow> if now < deadline then Some user else None)"

definition table_redis :: "(string \<rightharpoonup> string \<times> int) redis_ops" where
  "table_redis =
     \<lparr>rdSet = (\<lambda>r now k v ttl. (False, r(k \<mapsto> (v, now + set_life ttl)))),
      rdGet = (\<lambda>r now k. case seen_now now k r of None \<Rightarrow> RgNil | Some v \<Rightarrow> RgVal v),
      rdExpire = (\<lambda>r now k ttl. (Some (seen_now now k r \<noteq> None), spec_refresh now (expire_life ttl) k (seen_now now k r) r))\<rparr>"

definition hour_cfg :: us_config where
  "hour_cfg = \<lparr>ucTokenTTL = 3600000000000, ucRedisAddr = ''redis'', ucRedisKeyPrefix = ''''\<rparr>"

lemma sees_seen_now: "sees now k r (seen_now now k r)"
  by (cases "seen_now now k r") (auto simp: seen_now_def split: option.splits if_splits)

lemma table_redis_lawful: "lawful_redis table_redis (\<lambda>r. r)"
  using sees_seen_now by (auto simp: lawful_redis_def table_redis_def)

theorem user_service_refines_tokens_witness:
  "us_validateToken table_redis hour_cfg 5 ''0a'' (\<lambda>_. None) = ('''', False, ''redis_error'')
   \<or> us_validateToken table_redis hour_cfg 5 ''0a'' (\<lambda>_. None) = ('''', False, ''token_not_found'')"
proof -
  have "0 < ucTokenTTL hour_cfg" by (simp add: hour_cfg_def)
  note c = conjunct1[OF conjunct2[OF user_service_refines_tokens[OF table_redis_lawful this, of 5 "\<lambda>_. None"]]]
  have "\<not> sees 5 ''0a'' (token_view hour_cfg (\<lambda>r. r) (\<lambda>_. None)) (Some u)" for u
    by (simp add: token_view_def)
  then show ?thesis using c[rule_format, of "''0a''"] by (fastforce split: option.splits)
qed

subsection \<open>From a login to the gateway\<close>

text \<open>The token service of the gateway is the user service at a moment, through its client.\<close>

definition with_user_service ::
  "'r redis_ops \<Rightarrow> us_config \<Rightarrow> int \<Rightarrow> 'r \<Rightarrow> gw_services \<Rightarrow> gw_services" where
  "with_user_service ops cfg now r sv =
     sv\<lparr>svVerify := VerifyToken (\<lambda>method req. Some (us_ValidateToken ops cfg now (Some req) r)),
        svRefresh := RefreshToken (\<lambda>method req. Some (fst (us_RefreshToken ops cfg now (Some req) r)))\<rparr>"

lemma verify_through_service:
  assumes "lawful_redis ops keys" and "t \<noteq> ''''" and "rdGet ops r now (tokenKey cfg t) \<noteq> RgError"
  obtains found where "sees now t (token_view cfg keys r) found"
    and "svVerify (with_user_service ops cfg now r sv) t =
      (case found of None \<Rightarrow> Some ('''', False, ''token_not_found'') | Some u \<Rightarrow> Some (u, True, ''ok''))"
proof -
  obtain found where f: "sees now (tokenKey cfg t) (keys r) found"
    "rdGet ops r now (tokenKey cfg t) = (case found of None \<Rightarrow> RgNil | Some v \<Rightarrow> RgVal v)"
    using lawful_get[OF assms(1), of r now "tokenKey cfg t"] assms(3) by blast
  then have "svVerify (with_user_service ops cfg now r sv) t =
      (case found of None \<Rightarrow> Some ('''', False, ''token_not_found'') | Some u \<Rightarrow> Some (u, True, ''ok''))"
    using assms(2) by (auto simp: with_user_service_def VerifyToken_def us_ValidateToken_def us_validateToken_def getString_def
        split: option.split)
  with f(1) show ?thesis using that by (simp add: sees_view)
qed

text \<open>
  C34: the pieces fit together. The user service has answered a login of u with a token, and a
  client of the gateway sends this token, with Redis holding what it was given and answering.
  Before the configured lifetime in whole milliseconds has run out, the client's session is
  authenticated as u, the index leads from u to it, and the client is told so. From one millisecond
  after its end on, the same packet is answered with a refusal, and neither sessions nor index
  change but for the time the session was seen. The gateway may have been through anything
  before, with the token service in any states. The answers are written if the connection takes them.
\<close>

theorem login_opens_gateway:
  fixes keys :: "'r \<Rightarrow> string \<Rightarrow> (string \<times> int) option" and sv :: gw_services and t0 :: int
    and pkt :: packet and u :: string
  assumes "lawful_redis ops keys" and "0 < ucTokenTTL cfg"
    and "us_Login ops cfg t0 rnd (Some [(''username'', JStr u), (''password'', JStr p)]) r = (Some m, r')"
    and "u \<noteq> ''''" and "p \<noteq> ''''" and "as_string (jget m ''token'') = tok" and "tok \<noteq> ''''"
    and "rdGet ops r' now (tokenKey cfg tok) \<noteq> RgError"
  defines "svc \<equiv> with_user_service ops cfg now r' sv" and "life \<equiv> set_life (ucTokenTTL cfg)"
    and "yes \<equiv> reply CmdAuthResp (pktSeq pkt) (marshal sv [(''ok'', JBool True), (''player_id'', JStr u)])"
    and "no \<equiv> reply CmdAuthResp (pktSeq pkt) (marshal sv [(''ok'', JBool False), (''reason'', JStr ''token_not_found'')])"
  assumes "gw_history acc g" and "mget (gwHeap g) i = Some s"
    and "pktCmd pkt = CmdAuthReq" and "svParseToken sv (pktPayload pkt) = Some tok"
    and "handleConn_round svc io ps clock aut idl wall i (GotPacket pkt) g = (goes_on, g')"
  shows "(now < t0 + life \<longrightarrow>
       mget (gwPlayerIndex g') u = Some i
       \<and> (\<exists>s'. mget (gwHeap g') i = Some s' \<and> gwAuthenticated s' \<and> gwPlayerID s' = u)
       \<and> (deliverable io yes g i \<longrightarrow> goes_on \<and> last (gwOut g') = (i, yes)))
    \<and> (t0 + life + 1000000 \<le> now \<longrightarrow>
       same_core (put_gw_session (s\<lparr>gwLastSeen := wall\<rparr>) g) g'
       \<and> (deliverable io no g i \<longrightarrow> goes_on \<and> gwOut g' = gwOut g @ [(i, no)]))"
proof -
  obtain b where b: "rnd = Some b"
    using assms(3,4,5) by (auto simp: us_Login_def getString_def generateToken_def split: option.splits)
  have tok: "tok = hex_encode b" and tab: "token_view cfg keys r' = spec_login t0 life tok u (token_view cfg keys r)"
    using login_effect[OF assms(1,2,4,5) assms(3)[unfolded b]] assms(6) by (simp_all add: life_def)
  obtain found where found: "sees now tok (token_view cfg keys r') found"
    and v: "svVerify svc tok = (case found of None \<Rightarrow> Some ('''', False, ''token_not_found'') | Some u \<Rightarrow> Some (u, True, ''ok''))"
    using verify_through_service[OF assms(1,7,8), of sv] by (auto simp: svc_def)
  have parse: "svParseToken svc (pktPayload pkt) = Some tok" using assms(16) by (simp add: svc_def with_user_service_def)
  have marsh: "marshal svc mm = marshal sv mm" for mm by (simp add: svc_def with_user_service_def marshal_def)
  have id: "gwID s = i" by (rule round_heap_ids[OF assms(13,14)])
  have early: "mget (gwPlayerIndex g') u = Some i
       \<and> (\<exists>s'. mget (gwHeap g') i = Some s' \<and> gwAuthenticated s' \<and> gwPlayerID s' = u)
       \<and> (deliverable io yes g i \<longrightarrow> goes_on \<and> last (gwOut g') = (i, yes))" if "now < t0 + life"
  proof -
    have "found = Some u" using found that by (cases found) (auto simp: tab spec_login_def)
    then have acc: "accepts svc pkt tok u" using v parse assms(4,7,15) by (simp add: accepts_def)
    obtain s' g1 where s': "gwID s' = i" "gwPlayerID s' = u" "gwAuthenticated s'"
      and g1: "gwHeap g1 = mput i s' (mput i (s\<lparr>gwLastSeen := wall\<rparr>) (gwHeap g))" "gwPlayerIndex g1 = gwPlayerIndex g"
        "gwClosedConns g1 = gwClosedConns g"
      and r: "handleConn_round svc io ps clock aut idl wall i (GotPacket pkt) g =
          (case writePacket io i yes (bindUniquePlayerSession io ps s' g1) of (err, g') \<Rightarrow> (\<not> err, g'))"
      using login_eq[OF acc assms(14) id, of wall io ps clock aut idl] unfolding marsh yes_def by blast
    obtain err where w: "writePacket io i yes (bindUniquePlayerSession io ps s' g1) = (err, g')" "goes_on = (\<not> err)"
      using r assms(17) by (auto split: prod.splits)
    have g': "g' = snd (writePacket io i yes (bindUniquePlayerSession io ps s' g1))" using w by simp
    have u: "gwPlayerID s' \<noteq> ''''" using s' assms(4) by simp
    have "deliverable io yes (bindUniquePlayerSession io ps s' g1) i = deliverable io yes g i"
      using bind_view(1)[OF u, of io ps g1] g1(3) s'(1) by (auto simp: deliverable_def split: option.splits if_splits)
    then have "deliverable io yes g i \<longrightarrow> goes_on \<and> last (gwOut g') = (i, yes)"
      using w by (auto simp: writePacket_eq split: if_splits)
    then show ?thesis using bind_core[OF u, of io ps g1] g' g1 s' by simp
  qed
  have late: "same_core (put_gw_session (s\<lparr>gwLastSeen := wall\<rparr>) g) g'
       \<and> (deliverable io no g i \<longrightarrow> goes_on \<and> gwOut g' = gwOut g @ [(i, no)])" if "t0 + life + 1000000 \<le> now"
  proof -
    have "found = None" using found that by (cases found) (auto simp: tab spec_login_def)
    then have "handleConn_round svc io ps clock aut idl wall i (GotPacket pkt) g =
        (case writePacket io i no (put_gw_session (s\<lparr>gwLastSeen := wall\<rparr>) g) of (err, g') \<Rightarrow> (\<not> err, g'))"
      using v parse assms(7,14,15) id
      by (simp add: handleConn_round_def dispatch_packet_def handleAuth_def Let_def split_beta marsh no_def)
    then have w: "writePacket io i no (put_gw_session (s\<lparr>gwLastSeen := wall\<rparr>) g) = (\<not> goes_on, g')"
      using assms(17) by (auto split: prod.splits)
    then have "same_core (put_gw_session (s\<lparr>gwLastSeen := wall\<rparr>) g) g'" by (rule writePacket_coreD)
    moreover have "deliverable io no (put_gw_session (s\<lparr>gwLastSeen := wall\<rparr>) g) i = deliverable io no g i"
      by (simp add: deliverable_def put_gw_session_def)
    ultimately show ?thesis using w by (auto simp: writePacket_eq put_gw_session_def split: if_splits)
  qed
  show ?thesis using early late by blast
qed

text \<open>Ann logs in at time 0 and is at the desk five nanoseconds later.\<close>

theorem login_opens_gateway_witness:
  "mget (gwPlayerIndex (snd (handleConn_round
     (with_user_service table_redis hour_cfg 5 (snd (us_Login table_redis hour_cfg 0 (Some [1])
         (Some [(''username'', JStr ''ann''), (''password'', JStr ''pw'')]) (\<lambda>_. None)))
       (desk\<lparr>svParseToken := (\<lambda>_. Some ''01'')\<rparr>))
     (\<lambda>_. False) 0 ''0'' 10 60 0 1 (GotPacket (reply CmdAuthReq 1 [1])) arrived))) ''ann'' = Some 1"
proof -
  let ?req = "Some [(''username'', JStr ''ann''), (''password'', JStr ''pw'')]"
  let ?sv = "desk\<lparr>svParseToken := (\<lambda>_. Some ''01'')\<rparr>"
  have hx: "hex_encode [1] = ''01''" by code_simp
  have pos: "0 < ucTokenTTL hour_cfg" by (simp add: hour_cfg_def)
  obtain m r' where l: "us_Login table_redis hour_cfg 0 (Some [1]) ?req (\<lambda>_. None) = (Some m, r')"
      and m: "as_string (jget m ''token'') = ''01''"
    by (simp add: us_Login_def getString_def generateToken_def table_redis_def hx Let_def)
  have g: "rdGet table_redis r' 5 (tokenKey hour_cfg ''01'') \<noteq> RgError"
    by (simp add: table_redis_def split: option.split)
  have reach: "gw_history (\<lambda>_ _. False) arrived"
    unfolding arrived_def by (intro gw_history.start gw_history.accept)
  have s: "mget (gwHeap arrived) 1 = Some \<lparr>gwID = 1, gwConnectedAt = 0, gwPlayerID = '''', gwToken = '''',
      gwAuthenticated = False, gwLastSeen = 0\<rparr>"
    by (simp add: arrived_def accept_conn_def NewTCPGateway_def put_gw_session_def Let_def)
  obtain go g' where r: "handleConn_round (with_user_service table_redis hour_cfg 5 r' ?sv)
      (\<lambda>_. False) 0 ''0'' 10 60 0 1 (GotPacket (reply CmdAuthReq 1 [1])) arrived = (go, g')" by fastforce
  show ?thesis
    using login_opens_gateway[OF table_redis_lawful pos l _ _ m _ g reach s _ _ r] l r
    by (simp add: reply_def hour_cfg_def set_life_def)
qed

end
