(* ===== verification/Ui.thy ===== *)
theory Ui
  imports Room MonoProps
begin

text \<open>
  The web lobby: \<open>internal/ui/server.go\<close> and \<open>internal/ui/game_state.go\<close>. It keeps a cache of the
  rooms of the room service, runs the frames of the games of its rooms and tells its
  subscribers. The room service and the game service are functions (\<open>call player msg body\<close> and
  \<open>create room players\<close>, \<open>None\<close> for an error); connections and channels are identifiers, a channel
  with the messages it holds; \<open>io\<close> says which connections fail to write; \<open>clk i\<close> is the i-th
  reading of the clock in nanoseconds. A request holds what the decoder made of its body.
\<close>

datatype ui_phase = UiWaiting | UiPlaying | UiClosed

fun ui_phase_text :: "ui_phase \<Rightarrow> string" where
  "ui_phase_text UiWaiting = ''waiting''"
| "ui_phase_text UiPlaying = ''playing''"
| "ui_phase_text UiClosed = ''closed''"

record room_item =
  riRoomID :: string
  riName :: string
  riOwnerID :: string
  riState :: ui_phase
  riWinnerID :: string
  riPlayerCnt :: int
  riMaxPlayers :: int

record ui_server =
  uiRooms :: "(string, room_item) gomap"
  uiPlayerRoom :: "(string, string) gomap"
  uiRoomMembers :: "(string, (string, unit) gomap) gomap"
  uiSubscribers :: "(string, (nat, jval list) gomap) gomap"
  uiLobbySubs :: "nat list"
  uiGameStates :: "(string, states) gomap"
  uiWSConns :: "(string, (string, nat) gomap) gomap"
  uiRoomNextAdd :: "(string, int) gomap"
  uiRoomGameAddr :: "(string, string) gomap"
  uiRoomTickets :: "(string, (string, string) gomap) gomap"
  uiClosed :: "nat list"
  uiLobbyOut :: "(nat \<times> jval) list"
  uiConnOut :: "(nat \<times> jval) list"
  uiPushed :: "jval list"

definition ui_New :: ui_server where
  "ui_New =
     \<lparr>uiRooms = [], uiPlayerRoom = [], uiRoomMembers = [], uiSubscribers = [], uiLobbySubs = [], uiGameStates = [],
      uiWSConns = [], uiRoomNextAdd = [], uiRoomGameAddr = [], uiRoomTickets = [], uiClosed = [], uiLobbyOut = [],
      uiConnOut = [], uiPushed = []\<rparr>"

record ui_request =
  uqMethod :: string
  uqPlayer :: string
  uqQuery :: "string \<Rightarrow> string"
  uqDecoded :: bool
  uqUsername :: string
  uqPassword :: string
  uqName :: string
  uqMax :: int
  uqRoomID :: string
  uqPlayerID :: string
  uqAngle :: float64

definition item_json :: "room_item \<Rightarrow> jval" where
  "item_json it = JObj
     ([(''room_id'', JStr (riRoomID it)), (''name'', JStr (riName it)), (''owner_id'', JStr (riOwnerID it)),
       (''state'', JStr (ui_phase_text (riState it)))]
      @ (if riWinnerID it = '''' then [] else [(''winner_id'', JStr (riWinnerID it))])
      @ [(''player_cnt'', jint (riPlayerCnt it)), (''max_players'', jint (riMaxPlayers it))])"

subsection \<open>The answers of the room service\<close>

text \<open>
  \<open>strings.ToLower\<close>, as far as a comparison with these words can see: besides the letters A to Z
  only U+0130 and the Kelvin sign have an ASCII letter as their lower case.
\<close>

fun lower_text :: "nat list \<Rightarrow> nat list" where
  "lower_text [] = []"
| "lower_text (c # s) =
     (if c = 0xC4 \<and> take 1 s = [0xB0] then 0x69 # lower_text (drop 1 s)
      else if c = 0xE2 \<and> take 2 s = [0x84, 0xAA] then 0x6B # lower_text (drop 2 s)
      else (if 65 \<le> c \<and> c \<le> 90 then c + 32 else c) # lower_text s)"

definition lower_is :: "string \<Rightarrow> string \<Rightarrow> bool" where
  "lower_is s w \<longleftrightarrow> lower_text (map of_char s) = map of_char w"

definition toUIRoomState :: "string \<Rightarrow> ui_phase" where
  "toUIRoomState remote =
     (if lower_is remote ''playing'' then UiPlaying
      else if lower_is remote ''closed'' \<or> lower_is remote ''settlement'' then UiClosed
      else UiWaiting)"

text \<open>The room map is \<open>None\<close> when the answer has none.\<close>

fun as_map :: "jval \<Rightarrow> jobj option" where
  "as_map (JObj m) = Some m"
| "as_map _ = None"

definition map_field :: "jobj option \<Rightarrow> string \<Rightarrow> jval" where
  "map_field om k = (case om of None \<Rightarrow> JNull | Some m \<Rightarrow> jget m k)"

definition roomItemFromRemote :: "jobj option \<Rightarrow> room_item option" where
  "roomItemFromRemote orm =
     (case orm of
        None \<Rightarrow> None
      | Some rm \<Rightarrow>
        (let roomID = as_string (jget rm ''room_id'');
             maxPlayers = to_int (toFloat64 (jget rm ''max_players''))
         in if roomID = '''' then None
            else Some \<lparr>riRoomID = roomID, riName = as_string (jget rm ''name''), riOwnerID = as_string (jget rm ''owner_id''),
              riState = toUIRoomState (as_string (jget rm ''state'')), riWinnerID = '''',
              riPlayerCnt = int (length (as_arr (jget rm ''players''))),
              riMaxPlayers = (if maxPlayers \<le> 0 then 2 else maxPlayers)\<rparr>))"

definition remote_players :: "jobj option \<Rightarrow> string list" where
  "remote_players rm =
     filter (\<lambda>p. p \<noteq> '''') (map (\<lambda>pv. as_string (map_field (as_map pv) ''player_id'')) (as_arr (map_field rm ''players'')))"

definition cache_member :: "string \<Rightarrow> ui_server \<Rightarrow> string \<Rightarrow> ui_server" where
  "cache_member roomID s pid =
     s\<lparr>uiRoomMembers := mput roomID (mput pid () (get_or [] (uiRoomMembers s) roomID)) (uiRoomMembers s),
       uiPlayerRoom := mput pid roomID (uiPlayerRoom s)\<rparr>"

definition syncRoomCacheFromRemote :: "room_item \<Rightarrow> jobj option \<Rightarrow> ui_server \<Rightarrow> ui_server" where
  "syncRoomCacheFromRemote room rm s =
     foldl (cache_member (riRoomID room))
       (s\<lparr>uiRooms := mput (riRoomID room) room (uiRooms s), uiRoomMembers := mput (riRoomID room) [] (uiRoomMembers s)\<rparr>)
       (remote_players rm)"

subsection \<open>Telling subscribers\<close>

text \<open>A channel holds 16 messages; a message for a full one is dropped.\<close>

definition send_event :: "jval \<Rightarrow> jval list \<Rightarrow> jval list" where
  "send_event evt queue = (if length queue < 16 then queue @ [evt] else queue)"

definition broadcastRoomEvent :: "string \<Rightarrow> jval \<Rightarrow> ui_server \<Rightarrow> ui_server" where
  "broadcastRoomEvent roomID evt s =
     (case mget (uiSubscribers s) roomID of
        None \<Rightarrow> s
      | Some subs \<Rightarrow> s\<lparr>uiSubscribers := mput roomID (mmap_vals (\<lambda>ch. send_event evt) subs) (uiSubscribers s)\<rparr>)"

definition ui_tell_lobby :: "(nat \<Rightarrow> bool) \<Rightarrow> jval \<Rightarrow> ui_server \<Rightarrow> nat \<Rightarrow> ui_server" where
  "ui_tell_lobby io evt s c =
     (if io c \<or> c \<in> set (uiClosed s)
      then s\<lparr>uiLobbySubs := filter (\<lambda>d. d \<noteq> c) (uiLobbySubs s), uiClosed := c # uiClosed s\<rparr>
      else s\<lparr>uiLobbyOut := uiLobbyOut s @ [(c, evt)]\<rparr>)"

definition broadcastLobbyEvent :: "(nat \<Rightarrow> bool) \<Rightarrow> jval \<Rightarrow> ui_server \<Rightarrow> ui_server" where
  "broadcastLobbyEvent io evt s = foldl (ui_tell_lobby io evt) s (uiLobbySubs s)"

text \<open>The gateway is told as well; its answer is ignored.\<close>

definition notifyLobbyRoomsUpdated :: "(nat \<Rightarrow> bool) \<Rightarrow> int \<Rightarrow> string \<Rightarrow> string \<Rightarrow> ui_server \<Rightarrow> ui_server" where
  "notifyLobbyRoomsUpdated io now byPlayerID roomID s =
     (let evt = lobby_event roomID byPlayerID (unix_ms now);
          s1 = broadcastLobbyEvent io evt s
      in s1\<lparr>uiPushed := uiPushed s1 @ [evt]\<rparr>)"

text \<open>The message a connection is sent arrives unless the connection is closed or fails.\<close>

definition ws_send :: "(nat \<Rightarrow> bool) \<Rightarrow> jval \<Rightarrow> nat \<Rightarrow> ui_server \<Rightarrow> ui_server" where
  "ws_send io msg c s =
     (if io c \<or> c \<in> set (uiClosed s) then s else s\<lparr>uiConnOut := uiConnOut s @ [(c, msg)]\<rparr>)"

definition push_ws_players :: "(nat \<Rightarrow> bool) \<Rightarrow> string \<Rightarrow> string list \<Rightarrow> jval \<Rightarrow> ui_server \<Rightarrow> ui_server" where
  "push_ws_players io roomID playerIDs msg s =
     foldl (\<lambda>t c. ws_send io msg c t) s
       (List.map_filter (\<lambda>pid. mget (get_or [] (uiWSConns s) roomID) pid) playerIDs)"

definition pushGameStoppedWS :: "(nat \<Rightarrow> bool) \<Rightarrow> string \<Rightarrow> string list \<Rightarrow> ui_server \<Rightarrow> ui_server" where
  "pushGameStoppedWS io roomID playerIDs s =
     push_ws_players io roomID playerIDs
       (JObj [(''type'', JStr ''game_stopped''), (''room_id'', JStr roomID), (''reason'', JStr ''player_left''),
              (''next'', JStr ''/room'')]) s"

definition pushGameOverWS :: "(nat \<Rightarrow> bool) \<Rightarrow> string \<Rightarrow> string list \<Rightarrow> string \<Rightarrow> ui_server \<Rightarrow> ui_server" where
  "pushGameOverWS io roomID playerIDs winnerID s =
     push_ws_players io roomID playerIDs
       (JObj [(''type'', JStr ''game_over''), (''room_id'', JStr roomID), (''reason'', JStr ''last_player''),
              (''winner_id'', JStr winnerID), (''result'', JStr ''win''), (''next'', JStr ''/room'')]) s"

subsection \<open>The rooms of the lobby\<close>

type_synonym room_call = "string \<Rightarrow> 16 word \<Rightarrow> jobj \<Rightarrow> jobj option"

definition is_code_0 :: "jobj \<Rightarrow> bool" where
  "is_code_0 out \<longleftrightarrow> to_int (toFloat64 (jget out ''code'')) = 0"

text \<open>A field of the answer's body, which may be missing or no map.\<close>

definition body_field :: "jobj \<Rightarrow> string \<Rightarrow> jval" where
  "body_field out k = map_field (as_map (jget out ''body'')) k"

definition room_event :: "string \<Rightarrow> string \<Rightarrow> jobj \<Rightarrow> jval" where
  "room_event kind roomID rest = JObj ([(''type'', JStr kind), (''room_id'', JStr roomID)] @ rest)"

definition ui_listRooms :: "room_call \<Rightarrow> ui_request \<Rightarrow> http_reply" where
  "ui_listRooms call rq =
     (let playerID0 = TrimSpace (uqPlayer rq);
          playerID = (if playerID0 = '''' then ''lobby-viewer'' else playerID0)
      in (case call playerID RoomMsgListRooms [] of
            None \<Rightarrow> HttpError 502 ''room service unavailable''
          | Some out \<Rightarrow>
            HttpJson (JObj [(''code'', jint 0),
              (''rooms'', JArr (map item_json
                 (List.map_filter (\<lambda>rv. roomItemFromRemote (as_map rv)) (as_arr (body_field out ''rooms'')))))])))"

text \<open>What creating and joining do with the answer of the room service.\<close>

definition accept_room ::
  "(nat \<Rightarrow> bool) \<Rightarrow> int \<Rightarrow> string \<Rightarrow> string \<Rightarrow> string \<Rightarrow> jobj option \<Rightarrow> ui_server \<Rightarrow> http_reply \<times> ui_server" where
  "accept_room io now refusal msg playerID answer s =
     (case answer of
        None \<Rightarrow> (HttpError 502 ''room service unavailable'', s)
      | Some out \<Rightarrow>
        if \<not> is_code_0 out then (HttpError 409 refusal, s)
        else
          (let rm = as_map (body_field out ''room'')
           in (case roomItemFromRemote rm of
                 None \<Rightarrow> (HttpError 502 ''invalid room response'', s)
               | Some room \<Rightarrow>
                 (let s1 = notifyLobbyRoomsUpdated io now playerID (riRoomID room) (syncRoomCacheFromRemote room rm s)
                  in (HttpJson (JObj [(''code'', jint 0), (''room'', item_json room), (''joined'', JBool True), (''msg'', JStr msg)]),
                      broadcastRoomEvent (riRoomID room)
                        (room_event ''room_updated'' (riRoomID room) [(''player_id'', JStr playerID)]) s1)))))"

definition ui_createRoom ::
  "room_call \<Rightarrow> (nat \<Rightarrow> bool) \<Rightarrow> int \<Rightarrow> ui_request \<Rightarrow> ui_server \<Rightarrow> http_reply \<times> ui_server" where
  "ui_createRoom call io now rq s =
     (let playerID = TrimSpace (uqPlayer rq)
      in if playerID = '''' then (HttpError 401 ''missing X-Player-Id'', s)
         else if \<not> uqDecoded rq then (HttpError 400 ''bad json'', s)
         else
           (let name = (if uqName rq = '''' then ''Default Room'' else uqName rq);
                capacity = clamp_max (uqMax rq)
            in accept_room io now ''create room failed'' ''created_and_joined'' playerID
                 (call playerID RoomMsgCreateRoom [(''name'', JStr name), (''capacity'', jint capacity)]) s))"

definition ui_handleRooms ::
  "room_call \<Rightarrow> (nat \<Rightarrow> bool) \<Rightarrow> int \<Rightarrow> ui_request \<Rightarrow> ui_server \<Rightarrow> http_reply \<times> ui_server" where
  "ui_handleRooms call io now rq s =
     (if uqMethod rq = ''GET'' then (ui_listRooms call rq, s)
      else if uqMethod rq = ''POST'' then ui_createRoom call io now rq s
      else (HttpError 405 ''method not allowed'', s))"

definition ui_handleJoinRoom ::
  "room_call \<Rightarrow> (nat \<Rightarrow> bool) \<Rightarrow> int \<Rightarrow> ui_request \<Rightarrow> ui_server \<Rightarrow> http_reply \<times> ui_server" where
  "ui_handleJoinRoom call io now rq s =
     (let playerID = TrimSpace (uqPlayer rq)
      in if uqMethod rq \<noteq> ''POST'' then (HttpError 405 ''method not allowed'', s)
         else if playerID = '''' then (HttpError 401 ''missing X-Player-Id'', s)
         else if \<not> uqDecoded rq then (HttpError 400 ''bad json'', s)
         else if uqRoomID rq = '''' then (HttpError 400 ''missing room_id'', s)
         else accept_room io now ''join room failed'' ''joined'' playerID
                (call playerID RoomMsgJoinRoom [(''room_id'', JStr (uqRoomID rq))]) s)"

text \<open>
  The first room of the answer with the given identifier. The loop compares the identifiers of
  entries that are no maps too, so the identifier, which is not empty, is looked for among maps.
\<close>

definition find_remote_room :: "jobj \<Rightarrow> string \<Rightarrow> jobj option" where
  "find_remote_room out roomID =
     Option.bind (List.find (\<lambda>rv. as_string (map_field (as_map rv) ''room_id'') = roomID) (as_arr (body_field out ''rooms'')))
       as_map"

definition ui_ticket :: "string \<Rightarrow> string \<Rightarrow> ui_server \<Rightarrow> string" where
  "ui_ticket roomID playerID s = get_or '''' (get_or [] (uiRoomTickets s) roomID) playerID"

definition ui_handleRoomDetail :: "room_call \<Rightarrow> ui_request \<Rightarrow> ui_server \<Rightarrow> http_reply \<times> ui_server" where
  "ui_handleRoomDetail call rq s =
     (let roomID = TrimSpace (uqQuery rq ''room_id''); playerID = TrimSpace (uqPlayer rq)
      in if uqMethod rq \<noteq> ''GET'' then (HttpError 405 ''method not allowed'', s)
         else if roomID = '''' then (HttpError 400 ''missing room_id'', s)
         else
           (case call playerID RoomMsgListRooms [] of
              None \<Rightarrow> (HttpError 502 ''room service unavailable'', s)
            | Some out \<Rightarrow>
              (let rm = find_remote_room out roomID
               in if rm = None then (HttpError 404 ''room not found'', s)
                  else (case roomItemFromRemote rm of
                      None \<Rightarrow> (HttpError 502 ''invalid room response'', s)
                    | Some room \<Rightarrow>
                      (let members = remote_players rm
                       in if playerID \<noteq> '''' \<and> playerID \<notin> set members then (HttpError 403 ''player not in room'', s)
                          else
                            (let s1 = syncRoomCacheFromRemote room rm s
                             in (HttpJson (JObj [(''code'', jint 0), (''room'', item_json room),
                                   (''members'', JArr (map JStr members)),
                                   (''is_owner'', JBool (playerID \<noteq> '''' \<and> playerID = riOwnerID room)),
                                   (''game_addr'', JStr (get_or '''' (uiRoomGameAddr s1) roomID)),
                                   (''game_ticket'', JStr (ui_ticket roomID playerID s1))]), s1)))))))"

subsection \<open>Starting a game\<close>

text \<open>
  \<open>handleStartGame\<close> holds the lock twice, with the calls of the game service and the room service
  in between. \<open>ui_start_begin\<close> is the part up to the second lock, with an early answer (\<open>Inl\<close>) or
  the player, the room and the session the game service made (\<open>Inr\<close>); \<open>ui_start_commit\<close> is the
  rest, on the state found then.
\<close>

definition already_started :: "room_item \<Rightarrow> http_reply" where
  "already_started room = HttpJson (JObj [(''code'', jint 0), (''room'', item_json room), (''msg'', JStr ''already_started'')])"

definition ui_start_begin ::
  "room_call \<Rightarrow> (string \<Rightarrow> string list \<Rightarrow> jobj option) \<Rightarrow> ui_request \<Rightarrow> ui_server \<Rightarrow> http_reply + string \<times> string \<times> jobj" where
  "ui_start_begin call create rq s =
     (let playerID = TrimSpace (uqPlayer rq); roomID = uqRoomID rq
      in if uqMethod rq \<noteq> ''POST'' then Inl (HttpError 405 ''method not allowed'')
         else if playerID = '''' then Inl (HttpError 401 ''missing X-Player-Id'')
         else if \<not> uqDecoded rq then Inl (HttpError 400 ''bad json'')
         else if roomID = '''' then Inl (HttpError 400 ''missing room_id'')
         else
           (case mget (uiRooms s) roomID of
              None \<Rightarrow> Inl (HttpError 404 ''room not found'')
            | Some room \<Rightarrow>
              if riOwnerID room \<noteq> playerID then Inl (HttpError 403 ''only owner can start'')
              else if riState room = UiPlaying then Inl (already_started room)
              else if length (get_or [] (uiRoomMembers s) roomID) < 2 then Inl (HttpError 409 ''need at least 2 players'')
              else
                (case create roomID (map fst (get_or [] (uiRoomMembers s) roomID)) of
                   None \<Rightarrow> Inl (HttpError 502 ''game service unavailable'')
                 | Some sessionOut \<Rightarrow>
                   (case call playerID RoomMsgStartGame [(''room_id'', JStr roomID)] of
                      None \<Rightarrow> Inl (HttpError 502 ''room service unavailable'')
                    | Some startOut \<Rightarrow>
                      if \<not> is_code_0 startOut then Inl (HttpError 409 ''start room failed'')
                      else Inr (playerID, roomID, sessionOut)))))"

text \<open>The tickets of the answer, those that are strings.\<close>

definition session_tickets :: "jobj \<Rightarrow> (string, string) gomap option" where
  "session_tickets out =
     (case jget out ''tickets'' of
        JObj tm \<Rightarrow> Some (List.map_filter (\<lambda>(k, v). case v of JStr t \<Rightarrow> Some (k, t) | _ \<Rightarrow> None) tm)
      | _ \<Rightarrow> None)"

definition drop_game :: "string \<Rightarrow> ui_server \<Rightarrow> ui_server" where
  "drop_game roomID s =
     s\<lparr>uiGameStates := mdel roomID (uiGameStates s), uiRoomNextAdd := mdel roomID (uiRoomNextAdd s),
       uiRoomGameAddr := mdel roomID (uiRoomGameAddr s), uiRoomTickets := mdel roomID (uiRoomTickets s)\<rparr>"

definition ui_set_state :: "string \<Rightarrow> room_item \<Rightarrow> ui_phase \<Rightarrow> string \<Rightarrow> ui_server \<Rightarrow> ui_server" where
  "ui_set_state roomID room phase w s =
     s\<lparr>uiRooms := mput roomID (room\<lparr>riState := phase, riWinnerID := w\<rparr>) (uiRooms s)\<rparr>"

definition tickets_ready :: "(string, unit) gomap \<Rightarrow> (string, string) gomap option \<Rightarrow> bool" where
  "tickets_ready members tks =
     (case tks of None \<Rightarrow> False | Some ts \<Rightarrow> list_all (\<lambda>(p, u). TrimSpace (get_or '''' ts p) \<noteq> '''') members)"

definition ui_start_commit ::
  "(nat \<Rightarrow> int) \<Rightarrow> (string \<Rightarrow> seat_draws) \<Rightarrow> string \<times> string \<times> jobj \<Rightarrow> ui_server \<Rightarrow> http_reply \<times> ui_server" where
  "ui_start_commit clk draws started s =
     (case started of (playerID, roomID, out) \<Rightarrow>
       (case mget (uiRooms s) roomID of
          None \<Rightarrow> (HttpError 404 ''room not found'', s)
        | Some room \<Rightarrow>
          if riState room = UiPlaying then (already_started room, s)
          else
            (let members = get_or [] (uiRoomMembers s) roomID
             in if length members < 2 then (HttpError 409 ''room members changed'', s)
                else
                  (let s1 = ui_set_state roomID room UiPlaying '''' s;
                       s2 = s1\<lparr>uiGameStates := mput roomID (new_states (clk 0) draws members) (uiGameStates s1),
                               uiRoomNextAdd := mput roomID (unix_ms (clk 1) + 10000) (uiRoomNextAdd s1)\<rparr>;
                       gameAddr = as_string (jget out ''game_addr'');
                       s3 = (if gameAddr \<noteq> '''' then s2\<lparr>uiRoomGameAddr := mput roomID gameAddr (uiRoomGameAddr s2)\<rparr> else s2);
                       tks = session_tickets out;
                       s4 = (case tks of None \<Rightarrow> s3 | Some ts \<Rightarrow> s3\<lparr>uiRoomTickets := mput roomID ts (uiRoomTickets s3)\<rparr>);
                       playerTicket = (case tks of None \<Rightarrow> '''' | Some ts \<Rightarrow> get_or '''' ts playerID)
                   in if gameAddr = '''' \<or> playerTicket = '''' \<or> \<not> tickets_ready members tks
                      then (HttpError 502 ''invalid game session response'', drop_game roomID (ui_set_state roomID room UiWaiting '''' s4))
                      else
                        (HttpJson (JObj [(''code'', jint 0),
                            (''room'', item_json (room\<lparr>riState := UiPlaying, riWinnerID := ''''\<rparr>)), (''msg'', JStr ''started''),
                            (''game_addr'', JStr gameAddr), (''game_ticket'', JStr playerTicket)]),
                         broadcastRoomEvent roomID
                           (room_event ''game_started'' roomID [(''by'', JStr playerID), (''ts'', jint (unix_ms (clk 2)))]) s4)))))"

subsection \<open>Leaving a room\<close>

definition removePlayerFromRoomLocked :: "string \<Rightarrow> string \<Rightarrow> ui_server \<Rightarrow> ui_server" where
  "removePlayerFromRoomLocked playerID roomID s =
     (case mget (uiRooms s) roomID of
        None \<Rightarrow> s\<lparr>uiPlayerRoom := mdel playerID (uiPlayerRoom s)\<rparr>
      | Some room \<Rightarrow>
        (let s1 =
           (case mget (uiRoomMembers s) roomID of
              None \<Rightarrow> s
            | Some members \<Rightarrow>
              (let members' = mdel playerID members;
                   room1 = (if mhas members playerID \<and> riPlayerCnt room > 0
                            then room\<lparr>riPlayerCnt := riPlayerCnt room - 1\<rparr> else room)
               in if length members' = 0
                  then (drop_game roomID s)\<lparr>uiRoomMembers := mdel roomID (uiRoomMembers s), uiRooms := mdel roomID (uiRooms s)\<rparr>
                  else s\<lparr>uiRoomMembers := mput roomID members' (uiRoomMembers s),
                         uiRooms := mput roomID (if riOwnerID room1 = playerID then room1\<lparr>riOwnerID := fst (hd members')\<rparr> else room1)
                                      (uiRooms s)\<rparr>));
             s2 = s1\<lparr>uiPlayerRoom := mdel playerID (uiPlayerRoom s1)\<rparr>
         in (case mget (uiGameStates s2) roomID of
               None \<Rightarrow> s2
             | Some gs \<Rightarrow>
               (let gs' = mdel playerID gs
                in if length gs' = 0 then s2\<lparr>uiGameStates := mdel roomID (uiGameStates s2)\<rparr>
                   else s2\<lparr>uiGameStates := mput roomID gs' (uiGameStates s2)\<rparr>))))"

text \<open>What the handler remembers for the messages it sends when it has let the lock go.\<close>

record leave_result =
  lvRemaining :: "string list"
  lvStop :: bool
  lvAnnounce :: bool
  lvWinner :: string
  lvDeleted :: bool
  lvRemoved :: bool

definition lv_nothing :: leave_result where
  "lv_nothing = \<lparr>lvRemaining = [], lvStop = False, lvAnnounce = False, lvWinner = '''', lvDeleted = False, lvRemoved = False\<rparr>"

text \<open>
  The part under the lock for a player that is in the room: a game that is left with one member is
  over, and won by that member if it has a state and has not lost.
\<close>

definition ui_leave_locked :: "string \<Rightarrow> string \<Rightarrow> ui_server \<Rightarrow> leave_result \<times> ui_server" where
  "ui_leave_locked playerID roomID s =
     (let was_played = (case mget (uiRooms s) roomID of None \<Rightarrow> False | Some r \<Rightarrow> riState r = UiPlaying);
          s1 = removePlayerFromRoomLocked playerID roomID s;
          left = lv_nothing\<lparr>lvRemoved := True\<rparr>
      in (case mget (uiRooms s1) roomID of
            None \<Rightarrow>
              (left\<lparr>lvDeleted := True\<rparr>,
               s1\<lparr>uiRoomNextAdd := mdel roomID (uiRoomNextAdd s1), uiRoomGameAddr := mdel roomID (uiRoomGameAddr s1),
                  uiRoomTickets := mdel roomID (uiRoomTickets s1)\<rparr>)
          | Some rm \<Rightarrow>
            (case map fst (get_or [] (uiRoomMembers s1) roomID) of
               [w] \<Rightarrow>
                 if was_played
                 then
                   (let announce = (case mget (get_or [] (uiGameStates s1) roomID) w of
                                      None \<Rightarrow> False | Some st \<Rightarrow> Status st \<noteq> StLose)
                    in (left\<lparr>lvStop := True, lvRemaining := [w], lvWinner := w, lvAnnounce := announce\<rparr>,
                        drop_game roomID (ui_set_state roomID rm UiWaiting (if announce then w else '''') s1)))
                 else (left, s1)
             | _ \<Rightarrow> (left, s1))))"

definition ui_close :: "nat option \<Rightarrow> ui_server \<Rightarrow> ui_server" where
  "ui_close oc s = (case oc of None \<Rightarrow> s | Some c \<Rightarrow> s\<lparr>uiClosed := c # uiClosed s\<rparr>)"

text \<open>The messages: \<open>clk\<close> is read for each of them.\<close>

definition ui_announce ::
  "(nat \<Rightarrow> bool) \<Rightarrow> (nat \<Rightarrow> int) \<Rightarrow> string \<Rightarrow> string \<Rightarrow> leave_result \<Rightarrow> ui_server \<Rightarrow> ui_server" where
  "ui_announce io clk playerID roomID lv s =
     (let s1 = (if lvRemoved lv
                then broadcastRoomEvent roomID (room_event ''room_updated'' roomID [(''ts'', jint (unix_ms (clk 0)))]) s else s);
          s2 = (if \<not> lvStop lv then s1
                else if lvAnnounce lv
                then pushGameOverWS io roomID (lvRemaining lv) (lvWinner lv)
                       (broadcastRoomEvent roomID (room_event ''game_over'' roomID
                          [(''reason'', JStr ''last_player''), (''winner_id'', JStr (lvWinner lv)), (''ts'', jint (unix_ms (clk 1)))]) s1)
                else pushGameStoppedWS io roomID (lvRemaining lv)
                       (broadcastRoomEvent roomID (room_event ''game_stopped'' roomID
                          [(''reason'', JStr ''player_left''), (''ts'', jint (unix_ms (clk 1)))]) s1));
          s3 = (if lvDeleted lv \<and> roomID \<noteq> ''''
                then broadcastRoomEvent roomID (room_event ''room_deleted'' roomID [(''ts'', jint (unix_ms (clk 2)))]) s2 else s2)
      in if (lvRemoved lv \<or> lvDeleted lv) \<and> roomID \<noteq> '''' then notifyLobbyRoomsUpdated io (clk 3) playerID roomID s3 else s3)"

text \<open>The answer of the room service to the leave message is ignored, so it is no argument.\<close>

definition ui_handleLeaveRoom ::
  "(nat \<Rightarrow> bool) \<Rightarrow> (nat \<Rightarrow> int) \<Rightarrow> ui_request \<Rightarrow> ui_server \<Rightarrow> http_reply \<times> ui_server" where
  "ui_handleLeaveRoom io clk rq s =
     (let playerID0 = TrimSpace (uqPlayer rq);
          playerID = (if playerID0 = '''' then TrimSpace (uqPlayerID rq) else playerID0);
          asked = TrimSpace (uqRoomID rq);
          answer = (\<lambda>lv. HttpJson (JObj [(''code'', jint 0), (''next_page'', JStr ''/lobby''), (''room_deleted'', JBool (lvDeleted lv)),
                                 (''game_stopped'', JBool (lvStop lv)), (''winner_id'', JStr (lvWinner lv))]))
      in if uqMethod rq \<noteq> ''POST'' then (HttpError 405 ''method not allowed'', s)
         else if playerID = '''' then (HttpError 400 ''missing player_id'', s)
         else
           (case mget (uiPlayerRoom s) playerID of
              None \<Rightarrow> (answer lv_nothing, s)
            | Some current \<Rightarrow>
              (let roomID = (if asked = '''' then current else asked)
               in if current \<noteq> roomID then (HttpError 403 ''player not in room'', s)
                  else (case ui_leave_locked playerID roomID s of
                      (lv, s1) \<Rightarrow>
                        (let s2 = ui_close (mget (get_or [] (uiWSConns s1) roomID) playerID) s1
                         in (answer lv, ui_announce io clk playerID roomID lv s2))))))"

subsection \<open>Subscribers\<close>

text \<open>
  \<open>handleRoomEvents\<close> up to its loop: \<open>ch\<close> is the new channel, \<open>flusher\<close> says if the connection
  can stream. Without an answer (\<open>None\<close>) it streams until the request ends.
\<close>

definition ui_handleRoomEvents_done :: "string \<Rightarrow> nat \<Rightarrow> ui_server \<Rightarrow> ui_server" where
  "ui_handleRoomEvents_done roomID ch s =
     (case mget (uiSubscribers s) roomID of
        None \<Rightarrow> s
      | Some subs \<Rightarrow>
        (let subs' = mdel ch subs
         in if length subs' = 0 then s\<lparr>uiSubscribers := mdel roomID (uiSubscribers s)\<rparr>
            else s\<lparr>uiSubscribers := mput roomID subs' (uiSubscribers s)\<rparr>))"

definition ui_handleRoomEvents :: "bool \<Rightarrow> nat \<Rightarrow> ui_request \<Rightarrow> ui_server \<Rightarrow> http_reply option \<times> ui_server" where
  "ui_handleRoomEvents flusher ch rq s =
     (let roomID = TrimSpace (uqQuery rq ''room_id''); playerID = TrimSpace (uqQuery rq ''player_id'')
      in if uqMethod rq \<noteq> ''GET'' then (Some (HttpError 405 ''method not allowed''), s)
         else if roomID = '''' \<or> playerID = '''' then (Some (HttpError 400 ''missing room_id or player_id''), s)
         else if mget (uiPlayerRoom s) playerID \<noteq> Some roomID then (Some (HttpError 403 ''player not in room''), s)
         else
           (let s1 = s\<lparr>uiSubscribers := mput roomID (mput ch [] (get_or [] (uiSubscribers s) roomID)) (uiSubscribers s)\<rparr>
            in if \<not> flusher then (Some (HttpError 500 ''streaming unsupported''), ui_handleRoomEvents_done roomID ch s1)
               else (None, s1)))"

text \<open>The loop takes the first message of its channel and sends it on.\<close>

definition ui_next_event :: "string \<Rightarrow> nat \<Rightarrow> ui_server \<Rightarrow> (jval \<times> ui_server) option" where
  "ui_next_event roomID ch s =
     (case get_or [] (get_or [] (uiSubscribers s) roomID) ch of
        [] \<Rightarrow> None
      | evt # rest \<Rightarrow>
        Some (evt, s\<lparr>uiSubscribers := mput roomID (mput ch rest (get_or [] (uiSubscribers s) roomID)) (uiSubscribers s)\<rparr>))"

definition ui_handleLobbyWS :: "nat option \<Rightarrow> ui_server \<Rightarrow> ui_server" where
  "ui_handleLobbyWS upgraded s =
     (case upgraded of
        None \<Rightarrow> s
      | Some conn \<Rightarrow> s\<lparr>uiLobbySubs := conn # filter (\<lambda>d. d \<noteq> conn) (uiLobbySubs s)\<rparr>)"

definition ui_handleLobbyWS_done :: "nat \<Rightarrow> ui_server \<Rightarrow> ui_server" where
  "ui_handleLobbyWS_done conn s =
     s\<lparr>uiLobbySubs := filter (\<lambda>d. d \<noteq> conn) (uiLobbySubs s), uiClosed := conn # uiClosed s\<rparr>"

subsection \<open>The games of the rooms\<close>

definition new_state :: "int \<Rightarrow> seat_draws \<Rightarrow> player_state" where
  "new_state now d = NewInitialState (unix_ms now) (sdCurrent d) (sdNext d) (sdCoin d) (sdPick d)"

definition ensurePlayerGameStateLocked :: "int \<Rightarrow> seat_draws \<Rightarrow> string \<Rightarrow> string \<Rightarrow> ui_server \<Rightarrow> ui_server" where
  "ensurePlayerGameStateLocked now d roomID playerID s =
     (let gs = get_or [] (uiGameStates s) roomID
      in s\<lparr>uiGameStates := mput roomID (if mhas gs playerID then gs else mput playerID (new_state now d) gs) (uiGameStates s)\<rparr>)"

definition ui_state_of :: "string \<Rightarrow> string \<Rightarrow> ui_server \<Rightarrow> player_state option" where
  "ui_state_of roomID playerID s = mget (get_or [] (uiGameStates s) roomID) playerID"

definition ui_put_state :: "string \<Rightarrow> string \<Rightarrow> player_state \<Rightarrow> ui_server \<Rightarrow> ui_server" where
  "ui_put_state roomID playerID st s =
     s\<lparr>uiGameStates := mput roomID (mput playerID st (get_or [] (uiGameStates s) roomID)) (uiGameStates s)\<rparr>"

datatype ui_error = UiRoomNotFound | UiRoomNotPlaying | UiPlayerNotInRoom | UiEngine engine_error

fun ui_error_text :: "ui_error \<Rightarrow> string" where
  "ui_error_text UiRoomNotFound = ''room not found''"
| "ui_error_text UiRoomNotPlaying = ''room not playing''"
| "ui_error_text UiPlayerNotInRoom = ''player not in room''"
| "ui_error_text (UiEngine err) = engine_error_text err"

text \<open>The checks the three actions of a player share: \<open>None\<close> when all hold.\<close>

definition ui_action_error :: "string \<Rightarrow> string \<Rightarrow> ui_server \<Rightarrow> ui_error option" where
  "ui_action_error roomID playerID s =
     (case mget (uiRooms s) roomID of
        None \<Rightarrow> Some UiRoomNotFound
      | Some room \<Rightarrow>
        if riState room \<noteq> UiPlaying then Some UiRoomNotPlaying
        else if mget (uiPlayerRoom s) playerID \<noteq> Some roomID then Some UiPlayerNotInRoom
        else None)"

definition ui_act ::
  "(player_state option \<Rightarrow> engine_error + player_state) \<Rightarrow> int \<Rightarrow> seat_draws \<Rightarrow> string \<Rightarrow> string \<Rightarrow> ui_server
     \<Rightarrow> ui_error option \<times> ui_server" where
  "ui_act action now d roomID playerID s =
     (case ui_action_error roomID playerID s of
        Some err \<Rightarrow> (Some err, s)
      | None \<Rightarrow>
        (let s1 = ensurePlayerGameStateLocked now d roomID playerID s
         in (case action (ui_state_of roomID playerID s1) of
               Inl err \<Rightarrow> (Some (UiEngine err), s1)
             | Inr st \<Rightarrow> (None, ui_put_state roomID playerID st s1))))"

definition fireLocked ::
  "(float64 \<Rightarrow> float64) \<Rightarrow> (float64 \<Rightarrow> float64) \<Rightarrow> int \<Rightarrow> seat_draws \<Rightarrow> string \<Rightarrow> string \<Rightarrow> float64 \<Rightarrow> ui_server
     \<Rightarrow> ui_error option \<times> ui_server" where
  "fireLocked math_Cos math_Sin now d roomID playerID angle s =
     ui_act (\<lambda>st. Fire math_Cos math_Sin st angle) now d roomID playerID s"

definition beginClientShotLocked ::
  "int \<Rightarrow> seat_draws \<Rightarrow> int \<Rightarrow> string \<Rightarrow> string \<Rightarrow> float64 \<Rightarrow> ui_server \<Rightarrow> ui_error option \<times> ui_server" where
  "beginClientShotLocked now d shotAt roomID playerID angle s =
     ui_act (\<lambda>st. BeginClientShot st angle (unix_ms shotAt)) now d roomID playerID s"

definition commitLandingLocked ::
  "int \<Rightarrow> seat_draws \<Rightarrow> int \<Rightarrow> string \<Rightarrow> string \<Rightarrow> float64 \<Rightarrow> float64 \<Rightarrow> float64 \<Rightarrow> ui_server \<Rightarrow> ui_error option \<times> ui_server" where
  "commitLandingLocked now d draw roomID playerID angle x y s =
     ui_act (\<lambda>st. CommitLanding st angle x y draw) now d roomID playerID s"

definition ui_alive :: "(string, unit) gomap \<Rightarrow> states \<Rightarrow> string list" where
  "ui_alive members states =
     filter (\<lambda>p. case mget states p of None \<Rightarrow> False | Some st \<Rightarrow> Status st \<noteq> StLose) (map fst members)"

definition ui_losers :: "(string, unit) gomap \<Rightarrow> states \<Rightarrow> string list" where
  "ui_losers members states =
     filter (\<lambda>p. case mget states p of None \<Rightarrow> False | Some st \<Rightarrow> Status st = StLose) (map fst members)"

definition ui_resolveRoomOutcomeLocked :: "string \<Rightarrow> ui_server \<Rightarrow> ui_server" where
  "ui_resolveRoomOutcomeLocked roomID s =
     (case mget (uiRooms s) roomID of
        None \<Rightarrow> s
      | Some room \<Rightarrow>
        if riState room \<noteq> UiPlaying then s
        else
          (let members = get_or [] (uiRoomMembers s) roomID
           in if length members < 2 then s
              else (case mget (uiGameStates s) roomID of
                  None \<Rightarrow> s
                | Some states \<Rightarrow>
                  (case ui_alive members states of
                     [w] \<Rightarrow>
                       if length (ui_losers members states) = 0 then s
                       else (ui_set_state roomID room UiWaiting w s)
                              \<lparr>uiGameStates := mput roomID (mmap_vals (final_state w) states) (uiGameStates s)\<rparr>
                   | _ \<Rightarrow> s))))"

definition tickRoomStatesLocked :: "int \<Rightarrow> (string \<Rightarrow> int) \<Rightarrow> string \<Rightarrow> ui_server \<Rightarrow> ui_server" where
  "tickRoomStatesLocked now draw roomID s =
     ui_resolveRoomOutcomeLocked roomID
       (case mget (uiGameStates s) roomID of
          None \<Rightarrow> s
        | Some players \<Rightarrow> s\<lparr>uiGameStates := mput roomID (tick_all (unix_ms now) draw players) (uiGameStates s)\<rparr>)"

definition canAddLayerLocked :: "string \<Rightarrow> ui_server \<Rightarrow> bool" where
  "canAddLayerLocked roomID s = canAddLayer (get_or [] (uiGameStates s) roomID)"

text \<open>One room of the loop of \<open>stepRoomsLocked\<close>: the frame, then the layers that are due.\<close>

definition ui_put_next :: "string \<Rightarrow> int \<Rightarrow> ui_server \<Rightarrow> ui_server" where
  "ui_put_next roomID n s = s\<lparr>uiRoomNextAdd := mput roomID n (uiRoomNextAdd s)\<rparr>"

definition ui_add_layers ::
  "(nat \<Rightarrow> string \<Rightarrow> int \<Rightarrow> int) \<Rightarrow> int \<Rightarrow> string \<Rightarrow> int \<Rightarrow> ui_server \<Rightarrow> ui_server" where
  "ui_add_layers layer now roomID nextAt s =
     (case mget (uiGameStates s) roomID of
        None \<Rightarrow> ui_put_next roomID nextAt s
      | Some states \<Rightarrow>
        (case add_layers layer now 0 nextAt states of
           (nextAt', states') \<Rightarrow>
             ui_put_next roomID nextAt' (s\<lparr>uiGameStates := mput roomID states' (uiGameStates s)\<rparr>)))"

record frame_draws =
  fdClock :: "string \<Rightarrow> int"
  fdDraw :: "string \<Rightarrow> string \<Rightarrow> int"
  fdLayer :: "string \<Rightarrow> nat \<Rightarrow> string \<Rightarrow> int \<Rightarrow> int"

definition step_room :: "int \<Rightarrow> frame_draws \<Rightarrow> ui_server \<Rightarrow> string \<Rightarrow> ui_server" where
  "step_room now d s roomID =
     (case mget (uiRooms s) roomID of
        None \<Rightarrow> s
      | Some room \<Rightarrow>
        if riState room \<noteq> UiPlaying then s\<lparr>uiRoomNextAdd := mdel roomID (uiRoomNextAdd s)\<rparr>
        else
          (let s1 = tickRoomStatesLocked (fdClock d roomID) (fdDraw d roomID) roomID s;
               nextAt = get_or 0 (uiRoomNextAdd s1) roomID
           in if nextAt \<le> 0 then ui_put_next roomID (now + 10000) s1
              else if now \<ge> nextAt \<and> \<not> canAddLayerLocked roomID s1 then ui_put_next roomID nextAt s1
              else ui_add_layers (fdLayer d roomID) now roomID nextAt s1))"

definition stepRoomsLocked :: "int \<Rightarrow> frame_draws \<Rightarrow> ui_server \<Rightarrow> ui_server" where
  "stepRoomsLocked now d s = foldl (step_room (unix_ms now) d) s (map fst (uiRooms s))"

subsection \<open>Requests about a game\<close>

definition game_view :: "jobj \<Rightarrow> string \<Rightarrow> room_item \<Rightarrow> string \<Rightarrow> ui_server \<Rightarrow> jval" where
  "game_view tag roomID room playerID s =
     (let states = get_or [] (uiGameStates s) roomID
      in JObj (tag @ [(''room'', item_json room), (''self'', the (CloneState (mget states playerID))),
                      (''others'', others_view playerID states)]))"

definition ui_handleGameState :: "int \<Rightarrow> seat_draws \<Rightarrow> ui_request \<Rightarrow> ui_server \<Rightarrow> http_reply \<times> ui_server" where
  "ui_handleGameState now d rq s =
     (let playerID = TrimSpace (uqPlayer rq); roomID = TrimSpace (uqQuery rq ''room_id'')
      in if uqMethod rq \<noteq> ''GET'' then (HttpError 405 ''method not allowed'', s)
         else if playerID = '''' \<or> roomID = '''' then (HttpError 400 ''missing player_id or room_id'', s)
         else if mget (uiPlayerRoom s) playerID \<noteq> Some roomID then (HttpError 403 ''player not in room'', s)
         else
           (case mget (uiRooms s) roomID of
              None \<Rightarrow> (HttpError 404 ''room not found'', s)
            | Some room \<Rightarrow>
              (let s1 = ensurePlayerGameStateLocked now d roomID playerID s
               in (HttpJson (game_view [(''code'', jint 0)] roomID room playerID s1), s1))))"

definition ui_handleGameFire ::
  "(float64 \<Rightarrow> float64) \<Rightarrow> (float64 \<Rightarrow> float64) \<Rightarrow> int \<Rightarrow> seat_draws \<Rightarrow> ui_request \<Rightarrow> ui_server \<Rightarrow> http_reply \<times> ui_server" where
  "ui_handleGameFire math_Cos math_Sin now d rq s =
     (let playerID = TrimSpace (uqPlayer rq)
      in if uqMethod rq \<noteq> ''POST'' then (HttpError 405 ''method not allowed'', s)
         else if playerID = '''' then (HttpError 401 ''missing X-Player-Id'', s)
         else if \<not> uqDecoded rq then (HttpError 400 ''bad json'', s)
         else if uqRoomID rq = '''' then (HttpError 400 ''missing room_id'', s)
         else
           (case fireLocked math_Cos math_Sin now d (uqRoomID rq) playerID (uqAngle rq) s of
              (Some err, s1) \<Rightarrow> (HttpError 409 (ui_error_text err), s1)
            | (None, s1) \<Rightarrow> (HttpJson (JObj [(''code'', jint 0)]), s1)))"

subsection \<open>The game connection\<close>

definition ui_error_msg :: "string \<Rightarrow> jval" where
  "ui_error_msg msg = JObj [(''type'', JStr ''error''), (''msg'', JStr msg)]"

definition ui_seat_conn :: "string \<Rightarrow> string \<Rightarrow> nat \<Rightarrow> ui_server \<Rightarrow> ui_server" where
  "ui_seat_conn roomID playerID conn s =
     (let conns = get_or [] (uiWSConns s) roomID; s1 = ui_close (mget conns playerID) s
      in s1\<lparr>uiWSConns := mput roomID (mput playerID conn conns) (uiWSConns s1)\<rparr>)"

text \<open>An answer, or \<open>None\<close>; the flag says that the connection is registered and the loops run.\<close>

definition ui_handleGameWS ::
  "(nat \<Rightarrow> bool) \<Rightarrow> nat option \<Rightarrow> ui_request \<Rightarrow> ui_server \<Rightarrow> http_reply option \<times> bool \<times> ui_server" where
  "ui_handleGameWS io upgraded rq s =
     (let playerID = TrimSpace (uqQuery rq ''player_id''); roomID = TrimSpace (uqQuery rq ''room_id'')
      in if playerID = '''' \<or> roomID = '''' then (Some (HttpError 400 ''missing player_id or room_id''), False, s)
         else
           (case upgraded of
              None \<Rightarrow> (None, False, s)
            | Some conn \<Rightarrow>
              if mget (uiPlayerRoom s) playerID \<noteq> Some roomID
              then (None, False, ui_close (Some conn) (ws_send io (ui_error_msg ''player not in room'') conn s))
              else (None, True, ui_seat_conn roomID playerID conn s)))"

definition ui_handleGameWS_done :: "string \<Rightarrow> string \<Rightarrow> nat \<Rightarrow> ui_server \<Rightarrow> ui_server" where
  "ui_handleGameWS_done roomID playerID conn s =
     (let s1 =
        (case mget (uiWSConns s) roomID of
           None \<Rightarrow> s
         | Some m \<Rightarrow>
           (let m' = (if mget m playerID = Some conn then mdel playerID m else m)
            in if length m' = 0 then s\<lparr>uiWSConns := mdel roomID (uiWSConns s)\<rparr>
               else s\<lparr>uiWSConns := mput roomID m' (uiWSConns s)\<rparr>))
      in ui_close (Some conn) s1)"

definition ui_buildWSState ::
  "int \<Rightarrow> seat_draws \<Rightarrow> string \<Rightarrow> string \<Rightarrow> ui_server \<Rightarrow> jval option \<times> ui_server" where
  "ui_buildWSState now d roomID playerID s =
     (if mget (uiPlayerRoom s) playerID \<noteq> Some roomID then (None, s)
      else
        (case mget (uiRooms s) roomID of
           None \<Rightarrow> (None, s)
         | Some room \<Rightarrow>
           (let s1 = ensurePlayerGameStateLocked now d roomID playerID s
            in (Some (game_view [(''type'', JStr ''state'')] roomID room playerID s1), s1))))"

text \<open>A tick of the loop of \<open>handleGameWS\<close>; the flag says whether the loop goes on.\<close>

definition ui_ws_tick ::
  "(nat \<Rightarrow> bool) \<Rightarrow> int \<Rightarrow> seat_draws \<Rightarrow> string \<Rightarrow> string \<Rightarrow> nat \<Rightarrow> ui_server \<Rightarrow> bool \<times> ui_server" where
  "ui_ws_tick io now d roomID playerID conn s =
     (case ui_buildWSState now d roomID playerID s of
        (None, s1) \<Rightarrow> (False, ui_handleGameWS_done roomID playerID conn (ws_send io (ui_error_msg ''room closed'') conn s1))
      | (Some payload, s1) \<Rightarrow>
        if io conn \<or> conn \<in> set (uiClosed s1) then (False, ui_handleGameWS_done roomID playerID conn s1)
        else (True, ws_send io payload conn s1))"

definition tell_error :: "(nat \<Rightarrow> bool) \<Rightarrow> nat \<Rightarrow> ui_error option \<times> ui_server \<Rightarrow> ui_server" where
  "tell_error io conn res =
     (case res of (None, s) \<Rightarrow> s | (Some err, s) \<Rightarrow> ws_send io (ui_error_msg (ui_error_text err)) conn s)"

text \<open>What the environment gives the reading of one message: clock, draws and a colour.\<close>

record msg_env =
  meNow :: int
  meSeat :: seat_draws
  meShotAt :: int
  meDraw :: int

definition ui_readGameWS ::
  "(float64 \<Rightarrow> float64) \<Rightarrow> (float64 \<Rightarrow> float64) \<Rightarrow> (nat \<Rightarrow> bool) \<Rightarrow> msg_env \<Rightarrow> string \<Rightarrow> string \<Rightarrow> nat \<Rightarrow> jobj
     \<Rightarrow> ui_server \<Rightarrow> ui_server" where
  "ui_readGameWS math_Cos math_Sin io e roomID playerID conn req s =
     (let kind = as_string (jget req ''type''); angle = toFloat64 (jget req ''angle'') in
      if kind = ''shot'' then
        tell_error io conn (beginClientShotLocked (meNow e) (meSeat e) (meShotAt e) roomID playerID angle s)
      else if kind = ''fire'' then
        tell_error io conn (fireLocked math_Cos math_Sin (meNow e) (meSeat e) roomID playerID angle s)
      else if kind = ''land'' then
        tell_error io conn
          (commitLandingLocked (meNow e) (meSeat e) (meDraw e) roomID playerID angle
             (toFloat64 (jget req ''x'')) (toFloat64 (jget req ''y'')) s)
      else if kind = ''aim'' then
        (if mget (uiPlayerRoom s) playerID = Some roomID
         then (let s1 = ensurePlayerGameStateLocked (meNow e) (meSeat e) roomID playerID s
               in (case ui_state_of roomID playerID s1 of
                     None \<Rightarrow> s1
                   | Some st \<Rightarrow> ui_put_state roomID playerID (st\<lparr>AimAngle := ClampAim angle\<rparr>) s1))
         else s)
      else s)"

subsection \<open>Logging in, pages and configuration\<close>

text \<open>\<open>login\<close> is the token service: the answer to a user name and a password, or an error.\<close>

definition ui_handleLogin :: "(string \<Rightarrow> string \<Rightarrow> jobj option) \<Rightarrow> ui_request \<Rightarrow> http_reply" where
  "ui_handleLogin login rq =
     (if uqMethod rq \<noteq> ''POST'' then HttpError 405 ''method not allowed''
      else if \<not> uqDecoded rq then HttpError 400 ''bad json''
      else (case login (uqUsername rq) (uqPassword rq) of
          None \<Rightarrow> HttpError 502 ''auth service unavailable''
        | Some out \<Rightarrow>
          if \<not> as_bool (jget out ''ok'') then HttpError 401 ''login failed''
          else HttpJson (JObj [(''token'', jget out ''token''), (''player_id'', jget out ''player_id''),
                               (''expires_in'', jget out ''expires_in'')])))"

datatype page_reply = PageNotFound | PageFileMissing | Page string "nat list"

definition serveFile :: "(string \<Rightarrow> nat list option) \<Rightarrow> string \<Rightarrow> string \<Rightarrow> page_reply" where
  "serveFile read_file rel contentType =
     (case read_file rel of None \<Rightarrow> PageFileMissing | Some data \<Rightarrow> Page contentType data)"

definition html_type :: string where "html_type = ''text/html; charset=utf-8''"
definition js_type :: string where "js_type = ''application/javascript; charset=utf-8''"

text \<open>The pages by path; a path without a handler of its own goes to \<open>handleIndex\<close>.\<close>

definition ui_page :: "(string \<Rightarrow> nat list option) \<Rightarrow> string \<Rightarrow> page_reply" where
  "ui_page read_file path =
     (if path = ''/lobby'' then serveFile read_file ''web/lobby.html'' html_type
      else if path = ''/room'' then serveFile read_file ''web/room.html'' html_type
      else if path = ''/game'' then serveFile read_file ''web/game.html'' html_type
      else if path = ''/assets/app.css'' then serveFile read_file ''web/assets/app.css'' ''text/css; charset=utf-8''
      else if path = ''/assets/login.js'' then serveFile read_file ''web/assets/login.js'' js_type
      else if path = ''/assets/lobby.js'' then serveFile read_file ''web/assets/lobby.js'' js_type
      else if path = ''/assets/room.js'' then serveFile read_file ''web/assets/room.js'' js_type
      else if path = ''/assets/game.js'' then serveFile read_file ''web/assets/game.js'' js_type
      else if path \<noteq> ''/'' then PageNotFound
      else serveFile read_file ''web/login.html'' html_type)"

record ui_config =
  ucListenAddr :: string
  ucAuthGRPCAddr :: string
  ucGameControlAddr :: string
  ucRoomGRPCAddr :: string
  ucGatewayPushGRPCAddr :: string

definition ValidateConfig :: "ui_config \<Rightarrow> string option" where
  "ValidateConfig cfg =
     (if ucListenAddr cfg = '''' then Some ''empty listen addr''
      else if ucAuthGRPCAddr cfg = '''' then Some ''empty auth grpc addr''
      else if ucGameControlAddr cfg = '''' then Some ''empty game control grpc addr''
      else if ucRoomGRPCAddr cfg = '''' then Some ''empty room grpc addr''
      else if ucGatewayPushGRPCAddr cfg = '''' then Some ''empty gateway push grpc addr''
      else None)"

end
