(* ===== verification/UiProps.thy ===== *)
theory UiProps
  imports Ui
begin

text \<open>
  The invariant of the web lobby (\<open>internal/ui/server.go\<close>, \<open>internal/ui/game_state.go\<close>): every
  cached room is stored under its identifier with its members, what belongs to a game belongs to a
  cached room, every state is one the rules of the game allow, and no event channel holds more
  than 16 events. Every operation keeps it.
\<close>

definition ui_room_ok :: "ui_server \<Rightarrow> string \<Rightarrow> bool" where
  "ui_room_ok s rid \<longleftrightarrow>
     (case mget (uiRooms s) rid of
        None \<Rightarrow> mget (uiRoomMembers s) rid = None \<and> mget (uiRoomNextAdd s) rid = None
          \<and> mget (uiRoomGameAddr s) rid = None \<and> mget (uiRoomTickets s) rid = None
      | Some r \<Rightarrow> riRoomID r = rid \<and> rid \<noteq> '''' \<and> 0 \<le> riPlayerCnt r \<and> 1 \<le> riMaxPlayers r
          \<and> (riState r = UiPlaying \<longrightarrow> riWinnerID r = '''')
          \<and> (\<exists>members. mget (uiRoomMembers s) rid = Some members \<and> wf_map members))"

definition live_state :: "player_state \<Rightarrow> bool" where
  "live_state st \<longleftrightarrow> wf_state st \<and> moving_ok st"

abbreviation live_states :: "states \<Rightarrow> bool" where
  "live_states \<equiv> states_ok live_state"

definition ui_games_ok :: "ui_server \<Rightarrow> bool" where
  "ui_games_ok s \<longleftrightarrow> (\<forall>rid states. mget (uiGameStates s) rid = Some states \<longrightarrow> live_states states)"

definition ui_core_ok :: "ui_server \<Rightarrow> bool" where
  "ui_core_ok s \<longleftrightarrow> (\<forall>rid. ui_room_ok s rid) \<and> ui_games_ok s"

definition queues_ok :: "(nat, jval list) gomap \<Rightarrow> bool" where
  "queues_ok subs \<longleftrightarrow> subs \<noteq> [] \<and> (\<forall>ch q. mget subs ch = Some q \<longrightarrow> length q \<le> 16)"

definition ui_out_ok :: "ui_server \<Rightarrow> bool" where
  "ui_out_ok s \<longleftrightarrow> (\<forall>rid subs. mget (uiSubscribers s) rid = Some subs \<longrightarrow> queues_ok subs)
     \<and> (\<forall>rid conns. mget (uiWSConns s) rid = Some conns \<longrightarrow> conns \<noteq> [])"

definition ui_ok :: "ui_server \<Rightarrow> bool" where
  "ui_ok s \<longleftrightarrow> ui_core_ok s \<and> ui_out_ok s"

text \<open>What messages leave as it is.\<close>

definition same_core_ui :: "ui_server \<Rightarrow> ui_server \<Rightarrow> bool" where
  "same_core_ui s s' \<longleftrightarrow> uiRooms s' = uiRooms s \<and> uiRoomMembers s' = uiRoomMembers s \<and> uiGameStates s' = uiGameStates s
     \<and> uiRoomNextAdd s' = uiRoomNextAdd s \<and> uiRoomGameAddr s' = uiRoomGameAddr s \<and> uiRoomTickets s' = uiRoomTickets s
     \<and> uiPlayerRoom s' = uiPlayerRoom s"

definition same_out :: "ui_server \<Rightarrow> ui_server \<Rightarrow> bool" where
  "same_out s s' \<longleftrightarrow> uiSubscribers s' = uiSubscribers s \<and> uiWSConns s' = uiWSConns s"

lemma same_ui_refl [simp]: "same_core_ui s s" "same_out s s"
  by (simp_all add: same_core_ui_def same_out_def)

lemma same_ui_trans:
  "same_core_ui a b \<Longrightarrow> same_core_ui b c \<Longrightarrow> same_core_ui a c"
  "same_out a b \<Longrightarrow> same_out b c \<Longrightarrow> same_out a c"
  by (simp_all add: same_core_ui_def same_out_def)

definition same_at :: "string \<Rightarrow> ui_server \<Rightarrow> ui_server \<Rightarrow> bool" where
  "same_at k s s' \<longleftrightarrow> mget (uiRooms s') k = mget (uiRooms s) k \<and> mget (uiRoomMembers s') k = mget (uiRoomMembers s) k
     \<and> mget (uiRoomNextAdd s') k = mget (uiRoomNextAdd s) k \<and> mget (uiRoomGameAddr s') k = mget (uiRoomGameAddr s) k
     \<and> mget (uiRoomTickets s') k = mget (uiRoomTickets s) k"

lemma ui_room_ok_cong: "same_at k s s' \<Longrightarrow> ui_room_ok s' k = ui_room_ok s k"
  by (auto simp: same_at_def ui_room_ok_def split: option.split)

lemma ui_core_same:
  assumes "same_core_ui s s'" and "ui_core_ok s"
  shows "ui_core_ok s'"
proof -
  have "ui_room_ok s' k = ui_room_ok s k" for k
    using assms(1) by (intro ui_room_ok_cong) (simp add: same_core_ui_def same_at_def)
  then show ?thesis using assms by (simp add: ui_core_ok_def ui_games_ok_def same_core_ui_def)
qed

text \<open>A change of one room.\<close>

lemma ui_core_replace:
  assumes "ui_core_ok s" and "\<And>k. k \<noteq> rid \<Longrightarrow> same_at k s s'" and "ui_room_ok s' rid" and "ui_games_ok s'"
  shows "ui_core_ok s'"
proof -
  have "ui_room_ok s' k" for k
  proof (cases "k = rid")
    case False
    then show ?thesis using ui_room_ok_cong[OF assms(2)[OF False]] assms(1) by (simp add: ui_core_ok_def)
  qed (use assms(3) in simp)
  then show ?thesis using assms(4) by (simp add: ui_core_ok_def)
qed

lemma ui_out_same: "same_out s s' \<Longrightarrow> ui_out_ok s \<Longrightarrow> ui_out_ok s'"
  by (simp add: same_out_def ui_out_ok_def)

lemma ui_ok_same: "same_core_ui s s' \<Longrightarrow> same_out s s' \<Longrightarrow> ui_ok s \<Longrightarrow> ui_ok s'"
  using ui_core_same ui_out_same by (simp add: ui_ok_def)

subsection \<open>Messages\<close>

lemma ws_send_same [simp]: "same_core_ui s (ws_send io msg c s)" "same_out s (ws_send io msg c s)"
  by (simp_all add: ws_send_def same_core_ui_def same_out_def)

lemma ui_close_same [simp]: "same_core_ui s (ui_close c s)" "same_out s (ui_close c s)"
  by (auto simp: ui_close_def same_core_ui_def same_out_def split: option.split)

lemma push_ws_same: "same_core_ui s (push_ws_players io rid ps msg s) \<and> same_out s (push_ws_players io rid ps msg s)"
  unfolding push_ws_players_def
  by (rule foldl_invariant) (auto intro: same_ui_trans)

lemma ui_tell_same: "same_core_ui s (ui_tell_lobby io evt s c) \<and> same_out s (ui_tell_lobby io evt s c)"
  by (simp add: ui_tell_lobby_def same_core_ui_def same_out_def)

lemma notify_same: "same_core_ui s (notifyLobbyRoomsUpdated io now p rid s) \<and> same_out s (notifyLobbyRoomsUpdated io now p rid s)"
proof -
  have "same_core_ui s (broadcastLobbyEvent io evt s) \<and> same_out s (broadcastLobbyEvent io evt s)" for evt
    unfolding broadcastLobbyEvent_def
    by (rule foldl_invariant[where P = "\<lambda>t. same_core_ui s t \<and> same_out s t"]) (simp, meson ui_tell_same same_ui_trans)
  moreover have "same_core_ui t (t\<lparr>uiPushed := x\<rparr>) \<and> same_out t (t\<lparr>uiPushed := x\<rparr>)" for t x
    by (simp add: same_core_ui_def same_out_def)
  ultimately show ?thesis unfolding notifyLobbyRoomsUpdated_def Let_def by (meson same_ui_trans)
qed

lemma broadcast_core [simp]: "same_core_ui s (broadcastRoomEvent rid evt s)"
  by (auto simp: broadcastRoomEvent_def same_core_ui_def split: option.split)

lemma mmap_vals_Nil_iff [simp]: "mmap_vals f m = [] \<longleftrightarrow> m = []"
  by (simp add: mmap_vals_def)

lemma length_send_event: "length q \<le> 16 \<Longrightarrow> length (send_event evt q) \<le> 16"
  by (simp add: send_event_def)

lemma broadcast_out: "ui_out_ok s \<Longrightarrow> ui_out_ok (broadcastRoomEvent rid evt s)"
  by (auto simp: broadcastRoomEvent_def ui_out_ok_def queues_ok_def split: option.split intro: length_send_event)

lemma ui_ok_broadcast: "ui_ok s \<Longrightarrow> ui_ok (broadcastRoomEvent rid evt s)"
  using ui_core_same[OF broadcast_core] broadcast_out by (simp add: ui_ok_def)

lemma ui_ok_notify: "ui_ok s \<Longrightarrow> ui_ok (notifyLobbyRoomsUpdated io now p rid s)"
  using ui_ok_same notify_same by blast

lemma ui_ok_push: "ui_ok s \<Longrightarrow> ui_ok (push_ws_players io rid ps msg s)"
  using ui_ok_same push_ws_same by blast

lemma ui_ok_close: "ui_ok s \<Longrightarrow> ui_ok (ui_close c s)"
  by (rule ui_ok_same[OF ui_close_same])

lemma ui_ok_send: "ui_ok s \<Longrightarrow> ui_ok (ws_send io msg c s)"
  by (rule ui_ok_same[OF ws_send_same])

lemmas ui_messages = ui_ok_broadcast ui_ok_notify ui_ok_push ui_ok_close ui_ok_send

subsection \<open>Synchronising with the room service\<close>

lemma roomItem_ok:
  assumes "roomItemFromRemote rm = Some room"
  shows "riRoomID room \<noteq> ''''" and "0 \<le> riPlayerCnt room" and "1 \<le> riMaxPlayers room" and "riWinnerID room = ''''"
  using assms by (auto simp: roomItemFromRemote_def Let_def split: option.splits if_splits)

text \<open>The loop over the players: the members of the room are those of the answer.\<close>

lemma cache_members:
  assumes "mget (uiRoomMembers s) rid = Some ms"
  shows "uiRooms (foldl (cache_member rid) s ps) = uiRooms s"
    and "mget (uiRoomMembers (foldl (cache_member rid) s ps)) rid = Some (foldl (\<lambda>m p. mput p () m) ms ps)"
    and "k \<noteq> rid \<Longrightarrow> mget (uiRoomMembers (foldl (cache_member rid) s ps)) k = mget (uiRoomMembers s) k"
    and "mget (uiPlayerRoom (foldl (cache_member rid) s ps)) q = (if q \<in> set ps then Some rid else mget (uiPlayerRoom s) q)"
    and "uiGameStates (foldl (cache_member rid) s ps) = uiGameStates s"
    and "uiRoomNextAdd (foldl (cache_member rid) s ps) = uiRoomNextAdd s"
    and "uiRoomGameAddr (foldl (cache_member rid) s ps) = uiRoomGameAddr s"
    and "uiRoomTickets (foldl (cache_member rid) s ps) = uiRoomTickets s"
    and "same_out s (foldl (cache_member rid) s ps)"
  using assms
  by (induction ps arbitrary: s ms) (auto simp: cache_member_def get_or_def same_out_def)

lemma wf_members_fold: "wf_map m \<Longrightarrow> wf_map (foldl (\<lambda>m p. mput p () m) m ps)"
  by (rule foldl_invariant) auto

lemma mhas_members_fold: "mhas (foldl (\<lambda>m p. mput p () m) m ps) q \<longleftrightarrow> q \<in> set ps \<or> mhas m q"
  by (induction ps arbitrary: m) (auto simp: mhas_def)

lemma ui_sync_ok:
  assumes ok: "ui_ok s" and item: "roomItemFromRemote rm' = Some room"
  shows "ui_ok (syncRoomCacheFromRemote room rm s)"
proof -
  define rid where "rid = riRoomID room"
  define s0 where "s0 = s\<lparr>uiRooms := mput rid room (uiRooms s), uiRoomMembers := mput rid [] (uiRoomMembers s)\<rparr>"
  have eq: "syncRoomCacheFromRemote room rm s = foldl (cache_member rid) s0 (remote_players rm)"
    by (simp add: syncRoomCacheFromRemote_def s0_def rid_def)
  have m0: "mget (uiRoomMembers s0) rid = Some []" by (simp add: s0_def)
  note f = cache_members[OF m0, where ps = "remote_players rm"]
  let ?s = "syncRoomCacheFromRemote room rm s"
  have "ui_core_ok ?s"
  proof (rule ui_core_replace)
    show "ui_core_ok s" using ok by (simp add: ui_ok_def)
    show "same_at k s ?s" if "k \<noteq> rid" for k
      using that f(3)[OF that] f(1,6,7,8) by (simp add: same_at_def eq) (simp add: s0_def)
    show "ui_room_ok ?s rid"
      using f(1,2) roomItem_ok[OF item] wf_members_fold[of "[]" "remote_players rm"]
      by (simp add: ui_room_ok_def eq) (simp add: s0_def rid_def)
    show "ui_games_ok ?s" using ok f(5) by (simp add: ui_ok_def ui_core_ok_def ui_games_ok_def eq) (simp add: s0_def)
  qed
  moreover have "ui_out_ok ?s"
  proof (rule ui_out_same)
    have "same_out s s0" by (simp add: s0_def same_out_def)
    then show "same_out s ?s" using f(9) same_ui_trans(2) by (simp add: eq)
    show "ui_out_ok s" using ok by (simp add: ui_ok_def)
  qed
  ultimately show ?thesis by (simp add: ui_ok_def)
qed

lemma ui_accept_ok: "ui_ok s \<Longrightarrow> ui_ok (snd (accept_room io now refusal msg p answer s))"
  by (auto simp: accept_room_def Let_def split: option.split intro!: ui_messages ui_sync_ok)

lemma ui_rooms_ok:
  "ui_ok s \<Longrightarrow> ui_ok (snd (ui_handleRooms call io now rq s))"
  "ui_ok s \<Longrightarrow> ui_ok (snd (ui_handleJoinRoom call io now rq s))"
  by (simp_all add: ui_handleRooms_def ui_createRoom_def ui_handleJoinRoom_def Let_def ui_accept_ok)

lemma ui_detail_ok: "ui_ok s \<Longrightarrow> ui_ok (snd (ui_handleRoomDetail call rq s))"
  by (auto simp: ui_handleRoomDetail_def Let_def split: option.split intro: ui_sync_ok)

subsection \<open>States of the game\<close>

lemma live_play:
  "live_state st \<Longrightarrow> fair_event e \<Longrightarrow> trig_ok cs sn \<Longrightarrow> live_state (play cs sn st e)"
  using play_invariant by (simp add: live_state_def)

text \<open>The trigonometric functions matter to shots only.\<close>

lemma trig_zero: "trig_ok (\<lambda>a. Flt 0) (\<lambda>a. Flt 0)"
  by (simp add: trig_ok_def pow2_def)

lemma live_fire: "live_state st \<Longrightarrow> trig_ok cs sn \<Longrightarrow> \<not> is_nan a \<Longrightarrow> Fire cs sn (Some st) a = Inr st' \<Longrightarrow> live_state st'"
  using live_play[of st "EvFire a" cs sn] by (simp add: keep_on_error_def)

interpretation live: game_rules live_state
proof
  note play = live_play[OF _ _ trig_zero]
  show "live_state st'" if "BeginClientShot (Some st) a t = Inr st'" "live_state st" for st a t st'
    using play[of st "EvShot a t"] that by (simp add: keep_on_error_def)
  show "live_state st'" if "CommitLanding (Some st) a x y draw = Inr st'" "live_state st" "colour draw" for st a x y draw st'
    using play[of st "EvLand a x y draw"] that by (simp add: keep_on_error_def)
  show "live_state (the (TickState (Some st) now draw))" if "live_state st" "colour draw" for st draw now
    using play[of st "EvTick now draw"] that by simp
  show "live_state (AddTopLayer st draw)" if "live_state st" "\<forall>c. colour (draw c)" for st draw
    using play[of st "EvLayer draw"] that by simp
  show "live_state (NewInitialState now cur nxt coin pick)"
    if "colour cur" "colour nxt" "\<forall>r c. colour (pick r c)" for now cur nxt coin pick
    using still.new[OF that] by (simp add: player_ok_def live_state_def moving_ok_def)
qed (simp_all add: live_state_def wf_state_def moving_ok_def)

text \<open>Replacing the states of a room.\<close>

lemma ui_core_games:
  assumes "ui_core_ok s" and "\<And>k sts. mget gs k = Some sts \<Longrightarrow> live_states sts"
  shows "ui_core_ok (s\<lparr>uiGameStates := gs\<rparr>)"
proof -
  have "ui_room_ok (s\<lparr>uiGameStates := gs\<rparr>) k = ui_room_ok s k" for k by (rule ui_room_ok_cong) (simp add: same_at_def)
  then show ?thesis using assms by (simp add: ui_core_ok_def ui_games_ok_def)
qed

lemma ui_games_get: "ui_core_ok s \<Longrightarrow> live_states (get_or [] (uiGameStates s) rid)"
  by (simp add: ui_core_ok_def ui_games_ok_def get_or_def split: option.split)

lemma ui_core_put_games: "ui_core_ok s \<Longrightarrow> live_states sts \<Longrightarrow> ui_core_ok (s\<lparr>uiGameStates := mput rid sts (uiGameStates s)\<rparr>)"
  by (rule ui_core_games) (auto simp: ui_core_ok_def ui_games_ok_def split: if_splits)

lemma out_games [simp]: "ui_out_ok (s\<lparr>uiGameStates := gs\<rparr>) = ui_out_ok s"
  by (simp add: ui_out_ok_def)

lemma ui_ok_put_games: "ui_ok s \<Longrightarrow> live_states sts \<Longrightarrow> ui_ok (s\<lparr>uiGameStates := mput rid sts (uiGameStates s)\<rparr>)"
  by (simp add: ui_ok_def ui_core_put_games)

lemma ui_ok_ensure: "ui_ok s \<Longrightarrow> seat_fair d \<Longrightarrow> ui_ok (ensurePlayerGameStateLocked now d rid p s)"
  unfolding ensurePlayerGameStateLocked_def Let_def
  by (intro ui_ok_put_games) (auto simp: ui_ok_def ui_games_get new_state_def intro: states_ok_put live.seat_new)

lemma ui_ok_put_state: "ui_ok s \<Longrightarrow> live_state st \<Longrightarrow> ui_ok (ui_put_state rid p st s)"
  unfolding ui_put_state_def by (intro ui_ok_put_games states_ok_put) (auto simp: ui_ok_def ui_games_get)

lemma ui_ok_state_of: "ui_ok s \<Longrightarrow> ui_state_of rid p s = Some st \<Longrightarrow> live_state st"
  using ui_games_get[of s rid] by (simp add: ui_ok_def states_ok_def ui_state_of_def)

lemma ensured: "\<exists>st. ui_state_of rid p (ensurePlayerGameStateLocked now d rid p s) = Some st"
  by (auto simp: ensurePlayerGameStateLocked_def ui_state_of_def get_or_def mhas_def Let_def)

lemma ui_ok_act:
  assumes ok: "ui_ok s" and d: "seat_fair d"
    and act: "\<And>st st'. live_state st \<Longrightarrow> action (Some st) = Inr st' \<Longrightarrow> live_state st'"
  shows "ui_ok (snd (ui_act action now d rid p s))"
proof (cases "ui_action_error rid p s")
  case None
  let ?s = "ensurePlayerGameStateLocked now d rid p s"
  have ok1: "ui_ok ?s" by (rule ui_ok_ensure[OF ok d])
  obtain st where st: "ui_state_of rid p ?s = Some st" using ensured by blast
  have "live_state st" by (rule ui_ok_state_of[OF ok1 st])
  then show ?thesis
    using None st ok1 act by (auto simp: ui_act_def Let_def intro: ui_ok_put_state split: sum.split)
qed (use ok in \<open>simp add: ui_act_def\<close>)

lemma ui_ok_actions:
  assumes "ui_ok s" and "seat_fair d"
  shows "trig_ok cs sn \<Longrightarrow> \<not> is_nan a \<Longrightarrow> ui_ok (snd (fireLocked cs sn now d rid p a s))"
    and "ui_ok (snd (beginClientShotLocked now d t rid p a s))"
    and "colour draw \<Longrightarrow> ui_ok (snd (commitLandingLocked now d draw rid p a x y s))"
  unfolding fireLocked_def beginClientShotLocked_def commitLandingLocked_def
  by (rule ui_ok_act[OF assms], erule live_fire live.shot[rotated] live.landing[rotated]; simp)+

lemma ui_ok_fire_request:
  "ui_ok s \<Longrightarrow> seat_fair d \<Longrightarrow> trig_ok cs sn \<Longrightarrow> \<not> is_nan (uqAngle rq) \<Longrightarrow> ui_ok (snd (ui_handleGameFire cs sn now d rq s))"
  using ui_ok_actions(1)[where s = s and d = d and cs = cs and sn = sn and now = now]
  by (auto simp: ui_handleGameFire_def Let_def split: prod.split option.split) (metis snd_conv)+

lemma ui_ok_state_request: "ui_ok s \<Longrightarrow> seat_fair d \<Longrightarrow> ui_ok (snd (ui_handleGameState now d rq s))"
  by (auto simp: ui_handleGameState_def Let_def intro: ui_ok_ensure split: option.split)

subsection \<open>Starting and leaving\<close>

lemma ui_ok_core_out: "ui_ok s \<Longrightarrow> ui_core_ok s" "ui_ok s \<Longrightarrow> ui_out_ok s"
  by (simp_all add: ui_ok_def)

lemma ui_room_okD:
  assumes "ui_core_ok s" and "mget (uiRooms s) rid = Some r"
  shows "riRoomID r = rid" "rid \<noteq> ''''" "0 \<le> riPlayerCnt r" "1 \<le> riMaxPlayers r"
    "riState r = UiPlaying \<longrightarrow> riWinnerID r = ''''" "\<exists>members. mget (uiRoomMembers s) rid = Some members \<and> wf_map members"
proof -
  have "ui_room_ok s rid" using assms(1) by (simp add: ui_core_ok_def)
  then show "riRoomID r = rid" "rid \<noteq> ''''" "0 \<le> riPlayerCnt r" "1 \<le> riMaxPlayers r"
    "riState r = UiPlaying \<longrightarrow> riWinnerID r = ''''" "\<exists>members. mget (uiRoomMembers s) rid = Some members \<and> wf_map members"
    using assms(2) by (auto simp: ui_room_ok_def)
qed

lemma ui_room_ok_None:
  "ui_core_ok s \<Longrightarrow> mget (uiRooms s) rid = None \<Longrightarrow> mget (uiRoomMembers s) rid = None \<and> mget (uiRoomNextAdd s) rid = None
     \<and> mget (uiRoomGameAddr s) rid = None \<and> mget (uiRoomTickets s) rid = None"
  by (auto simp: ui_core_ok_def ui_room_ok_def dest!: spec[of _ rid])

text \<open>A cached room changes with what belongs to it: its phase, its game and its members.\<close>

lemma ui_core_room:
  assumes ok: "ui_core_ok s" and room: "mget (uiRooms s) rid = Some r"
    and new: "mget (uiRooms s') rid = Some r'" "riRoomID r' = riRoomID r" "0 \<le> riPlayerCnt r'" "riMaxPlayers r' = riMaxPlayers r"
      "riState r' = UiPlaying \<longrightarrow> riWinnerID r' = ''''"
    and members: "\<And>m. mget (uiRoomMembers s) rid = Some m \<Longrightarrow> wf_map m \<Longrightarrow> \<exists>m'. mget (uiRoomMembers s') rid = Some m' \<and> wf_map m'"
    and other: "\<And>k. k \<noteq> rid \<Longrightarrow> same_at k s s'" and games: "ui_games_ok s'"
  shows "ui_core_ok s'"
proof (rule ui_core_replace[OF ok other _ games])
  obtain m where "mget (uiRoomMembers s) rid = Some m" "wf_map m" using ui_room_okD(6)[OF ok room] by blast
  then obtain m' where "mget (uiRoomMembers s') rid = Some m'" "wf_map m'" using members by blast
  then show "ui_room_ok s' rid" using new ui_room_okD[OF ok room] by (simp add: ui_room_ok_def)
qed

lemma games_okI: "(\<And>k sts. mget (uiGameStates s) k = Some sts \<Longrightarrow> live_states sts) \<Longrightarrow> ui_games_ok s"
  by (simp add: ui_games_ok_def)

lemma games_okD: "ui_core_ok s \<Longrightarrow> mget (uiGameStates s) k = Some sts \<Longrightarrow> live_states sts"
  by (simp add: ui_core_ok_def ui_games_ok_def)

lemma ui_start_ok:
  assumes ok: "ui_ok s" and fair: "\<forall>p. seat_fair (draws p)"
  shows "ui_ok (snd (ui_start_commit clk draws started s))"
proof -
  obtain p rid out where st: "started = (p, rid, out)" by (rule prod_cases3)
  note core = ui_ok_core_out(1)[OF ok]
  show ?thesis
  proof (cases "\<exists>r. mget (uiRooms s) rid = Some r \<and> riState r \<noteq> UiPlaying \<and> 2 \<le> length (get_or [] (uiRoomMembers s) rid)")
    case False
    then show ?thesis using ok st by (auto simp: ui_start_commit_def Let_def split: option.split)
  next
    case True
    then obtain r where r: "mget (uiRooms s) rid = Some r" "riState r \<noteq> UiPlaying" "2 \<le> length (get_or [] (uiRoomMembers s) rid)" by blast
    let ?sts = "new_states (clk 0) draws (get_or [] (uiRoomMembers s) rid)"
    have "wf_map (get_or [] (uiRoomMembers s) rid)" using ui_room_okD(6)[OF core r(1)] by (auto simp: get_or_def)
    then have live: "live_states ?sts" using live.tables_new fair by blast
    have started_ok: "ui_core_ok (s\<lparr>uiRooms := mput rid (r\<lparr>riState := ph, riWinnerID := ''''\<rparr>) rs, uiGameStates := gs, uiRoomNextAdd := n,
        uiRoomGameAddr := a, uiRoomTickets := t\<rparr>)"
      if "\<And>k. k \<noteq> rid \<Longrightarrow> mget n k = mget (uiRoomNextAdd s) k \<and> mget a k = mget (uiRoomGameAddr s) k \<and> mget t k = mget (uiRoomTickets s) k
          \<and> mget gs k = mget (uiGameStates s) k \<and> mget rs k = mget (uiRooms s) k"
        and "\<And>sts. mget gs rid = Some sts \<Longrightarrow> live_states sts" for ph gs n a t rs
    proof (rule ui_core_room[OF core r(1), where r' = "r\<lparr>riState := ph, riWinnerID := ''''\<rparr>"])
      show "ui_games_ok (s\<lparr>uiRooms := mput rid (r\<lparr>riState := ph, riWinnerID := ''''\<rparr>) rs, uiGameStates := gs, uiRoomNextAdd := n,
        uiRoomGameAddr := a, uiRoomTickets := t\<rparr>)"
        by (rule games_okI, simp) (metis that games_okD[OF core])
    qed (use that ui_room_okD[OF core r(1)] in \<open>auto simp: same_at_def\<close>)
    have out: "ui_out_ok (s\<lparr>uiRooms := rs, uiGameStates := gs, uiRoomNextAdd := n, uiRoomGameAddr := a, uiRoomTickets := t\<rparr>)" for rs gs n a t
      using ui_ok_core_out(2)[OF ok] by (simp add: ui_out_ok_def)
    show ?thesis
      using r st live
      by (auto simp: ui_start_commit_def Let_def ui_set_state_def drop_game_def ui_ok_def split: option.split
          intro!: out started_ok ui_ok_broadcast[unfolded ui_ok_def, simplified])
  qed
qed

text \<open>Taking a player out of a room, field by field.\<close>

lemma remove_fields:
  "uiSubscribers (removePlayerFromRoomLocked p rid s) = uiSubscribers s"
  "uiWSConns (removePlayerFromRoomLocked p rid s) = uiWSConns s"
  "uiPlayerRoom (removePlayerFromRoomLocked p rid s) = mdel p (uiPlayerRoom s)"
  by (simp_all add: removePlayerFromRoomLocked_def drop_game_def Let_def split: option.split)

lemma remove_other:
  "k \<noteq> rid \<Longrightarrow> same_at k s (removePlayerFromRoomLocked p rid s)
     \<and> mget (uiGameStates (removePlayerFromRoomLocked p rid s)) k = mget (uiGameStates s) k"
  by (simp add: removePlayerFromRoomLocked_def same_at_def drop_game_def Let_def split: option.split)

lemma remove_games:
  assumes "ui_core_ok s"
  shows "ui_games_ok (removePlayerFromRoomLocked p rid s)"
proof (rule games_okI)
  fix k sts assume a: "mget (uiGameStates (removePlayerFromRoomLocked p rid s)) k = Some sts"
  show "live_states sts"
  proof (cases "k = rid")
    case False
    then show ?thesis using a remove_other[OF False, of s p] games_okD[OF assms] by auto
  next
    case True
    then obtain gs where "mget (uiGameStates s) rid = Some gs" "sts = gs \<or> sts = mdel p gs"
      using a by (auto simp: removePlayerFromRoomLocked_def drop_game_def Let_def split: option.splits if_splits)
    then show ?thesis using games_okD[OF assms] states_ok_del by blast
  qed
qed

text \<open>The members that stay, and the room as it is then.\<close>

definition ui_room_left :: "string \<Rightarrow> (string, unit) gomap \<Rightarrow> room_item \<Rightarrow> room_item" where
  "ui_room_left p members r =
     (let r1 = (if mhas members p \<and> riPlayerCnt r > 0 then r\<lparr>riPlayerCnt := riPlayerCnt r - 1\<rparr> else r)
      in if riOwnerID r1 = p then r1\<lparr>riOwnerID := fst (hd (mdel p members))\<rparr> else r1)"

text \<open>The states that stay; a map that would be empty is taken out.\<close>

definition states_left :: "string \<Rightarrow> string \<Rightarrow> (string, states) gomap \<Rightarrow> (string, states) gomap" where
  "states_left p rid games =
     (case mget games rid of
        None \<Rightarrow> games
      | Some gs \<Rightarrow> if mdel p gs = [] then mdel rid games else mput rid (mdel p gs) games)"

lemma states_left_get:
  "mget (get_or [] (states_left p rid games) rid) q = (if q = p then None else mget (get_or [] games rid) q)"
proof (cases "mget games rid")
  case None
  then show ?thesis by (simp add: states_left_def get_or_def)
next
  case (Some gs)
  have "q \<noteq> p \<Longrightarrow> mget gs q = None" if "mdel p gs = []" using that mget_mdel[of p gs q] by simp
  then show ?thesis using Some by (simp add: states_left_def get_or_def)
qed

lemma remove_here:
  assumes "mget (uiRooms s) rid = Some r" and "mget (uiRoomMembers s) rid = Some members"
  shows "mdel p members = [] \<Longrightarrow>
      removePlayerFromRoomLocked p rid s =
        (drop_game rid s)\<lparr>uiRoomMembers := mdel rid (uiRoomMembers s), uiRooms := mdel rid (uiRooms s),
          uiPlayerRoom := mdel p (uiPlayerRoom s)\<rparr>"
    and "mdel p members \<noteq> [] \<Longrightarrow>
      removePlayerFromRoomLocked p rid s =
        s\<lparr>uiRoomMembers := mput rid (mdel p members) (uiRoomMembers s),
          uiRooms := mput rid (ui_room_left p members r) (uiRooms s), uiPlayerRoom := mdel p (uiPlayerRoom s),
          uiGameStates := states_left p rid (uiGameStates s)\<rparr>"
  unfolding removePlayerFromRoomLocked_def drop_game_def ui_room_left_def states_left_def Let_def
  by (simp_all add: assms split: option.split)

lemma remove_gone_ui:
  "mget (uiRooms s) rid = None \<Longrightarrow> removePlayerFromRoomLocked p rid s = s\<lparr>uiPlayerRoom := mdel p (uiPlayerRoom s)\<rparr>"
  by (simp add: removePlayerFromRoomLocked_def)

lemma ui_remove_ok:
  assumes ok: "ui_core_ok s"
  shows "ui_core_ok (removePlayerFromRoomLocked p rid s)"
proof (cases "mget (uiRooms s) rid")
  case None
  have "ui_room_ok (s\<lparr>uiPlayerRoom := m\<rparr>) k = ui_room_ok s k" for m k by (rule ui_room_ok_cong) (simp add: same_at_def)
  then show ?thesis using ok None by (simp add: remove_gone_ui ui_core_ok_def ui_games_ok_def)
next
  case (Some r)
  let ?s = "removePlayerFromRoomLocked p rid s"
  obtain members where m: "mget (uiRoomMembers s) rid = Some members" "wf_map members" using ui_room_okD(6)[OF ok Some] by blast
  note here = remove_here[OF Some m(1), of p]
  have other: "same_at k s ?s" if "k \<noteq> rid" for k using remove_other[OF that] by blast
  show ?thesis
  proof (cases "mdel p members = []")
    case True
    then have "ui_room_ok ?s rid" by (simp add: here(1) ui_room_ok_def drop_game_def)
    then show ?thesis by (intro ui_core_replace[OF ok other] remove_games[OF ok])
  next
    case False
    note h = here(2)[OF False]
    have f: "mget (uiRooms ?s) rid = Some (ui_room_left p members r)" "mget (uiRoomMembers ?s) rid = Some (mdel p members)"
      by (simp_all add: h)
    show ?thesis
      by (rule ui_core_room[OF ok Some f(1) _ _ _ _ _ other remove_games[OF ok]])
        (use f(2) m ui_room_okD[OF ok Some] in \<open>simp_all add: ui_room_left_def Let_def\<close>)
  qed
qed

lemma ui_drop_ok:
  assumes ok: "ui_core_ok s" and room: "mget (uiRooms s) rid = Some r"
  shows "ui_core_ok (drop_game rid (ui_set_state rid r UiWaiting w s))"
  by (rule ui_core_room[OF ok room, where r' = "r\<lparr>riState := UiWaiting, riWinnerID := w\<rparr>"])
    (use ui_room_okD[OF ok room] games_okD[OF ok] in
      \<open>auto simp: drop_game_def ui_set_state_def same_at_def intro!: games_okI split: if_splits\<close>)

lemma ui_leave_locked_ok:
  assumes ok: "ui_ok s"
  shows "ui_ok (snd (ui_leave_locked p rid s))"
proof -
  let ?s = "removePlayerFromRoomLocked p rid s"
  have core: "ui_core_ok ?s" by (rule ui_remove_ok[OF ui_ok_core_out(1)[OF ok]])
  have out: "ui_out_ok ?s" using ui_ok_core_out(2)[OF ok] by (simp add: ui_out_ok_def remove_fields)
  have gone: "ui_core_ok (?s\<lparr>uiRoomNextAdd := mdel rid (uiRoomNextAdd ?s), uiRoomGameAddr := mdel rid (uiRoomGameAddr ?s),
      uiRoomTickets := mdel rid (uiRoomTickets ?s)\<rparr>)" if "mget (uiRooms ?s) rid = None"
  proof (rule ui_core_replace[OF core, where rid = rid])
    show "ui_games_ok (?s\<lparr>uiRoomNextAdd := mdel rid (uiRoomNextAdd ?s), uiRoomGameAddr := mdel rid (uiRoomGameAddr ?s),
      uiRoomTickets := mdel rid (uiRoomTickets ?s)\<rparr>)" using core by (simp add: ui_core_ok_def ui_games_ok_def)
  qed (use that ui_room_ok_None[OF core that] in \<open>auto simp: ui_room_ok_def same_at_def split: option.split\<close>)
  have keep: "ui_out_ok (s'\<lparr>uiRoomNextAdd := a, uiRoomGameAddr := b, uiRoomTickets := c\<rparr>) = ui_out_ok s'"
    "ui_out_ok (drop_game rid (ui_set_state rid r ph w s')) = ui_out_ok s'" for s' a b c r ph w
    by (simp_all add: ui_out_ok_def drop_game_def ui_set_state_def)
  show ?thesis
    using core out gone ui_drop_ok[OF core]
    by (auto simp: ui_leave_locked_def Let_def ui_ok_def keep split: option.split list.split)
qed

lemma ui_announce_ok: "ui_ok s \<Longrightarrow> ui_ok (ui_announce io clk p rid lv s)"
  by (simp add: ui_announce_def Let_def pushGameOverWS_def pushGameStoppedWS_def ui_messages)

lemma ui_leave_lockedD: "ui_ok s \<Longrightarrow> ui_leave_locked p rid s = (lv, s') \<Longrightarrow> ui_ok s'"
  using ui_leave_locked_ok[of s p rid] by simp

lemma ui_leave_ok:
  assumes "ui_ok s"
  shows "ui_ok (snd (ui_handleLeaveRoom io clk rq s))"
  using assms
  by (auto simp: ui_handleLeaveRoom_def Let_def split: option.split prod.split intro!: ui_announce_ok ui_ok_close
      dest: ui_leave_lockedD[OF assms])

subsection \<open>Subscribers and connections\<close>

lemma ui_out_change:
  assumes "ui_ok s" and "same_core_ui s s'" and "ui_out_ok s'"
  shows "ui_ok s'"
  using assms ui_core_same by (simp add: ui_ok_def)

lemma out_okD:
  "ui_ok s \<Longrightarrow> mget (uiSubscribers s) rid = Some subs \<Longrightarrow> subs \<noteq> [] \<and> (\<forall>ch q. mget subs ch = Some q \<longrightarrow> length q \<le> 16)"
  "ui_ok s \<Longrightarrow> mget (uiWSConns s) rid = Some conns \<Longrightarrow> conns \<noteq> []"
  by (auto simp: ui_ok_def ui_out_ok_def queues_ok_def)

lemma mput_not_Nil [simp]: "mput k v m \<noteq> []"
  by (cases m) auto

lemma ui_events_done_ok:
  assumes ok: "ui_ok s"
  shows "ui_ok (ui_handleRoomEvents_done rid ch s)"
  by (rule ui_out_change[OF ok])
    (use ok in \<open>auto simp: ui_handleRoomEvents_done_def same_core_ui_def Let_def ui_ok_def ui_out_ok_def queues_ok_def
       split: option.split if_splits\<close>)

lemma ui_subscribe_ok:
  assumes ok: "ui_ok s"
  shows "ui_ok (s\<lparr>uiSubscribers := mput rid (mput ch [] (get_or [] (uiSubscribers s) rid)) (uiSubscribers s)\<rparr>)"
  by (rule ui_out_change[OF ok])
    (use ok in \<open>auto simp: same_core_ui_def ui_ok_def ui_out_ok_def queues_ok_def get_or_def split: option.split if_splits\<close>)

lemma ui_events_ok: "ui_ok s \<Longrightarrow> ui_ok (snd (ui_handleRoomEvents flusher ch rq s))"
  by (simp add: ui_handleRoomEvents_def Let_def ui_subscribe_ok ui_events_done_ok)

lemma ui_next_event_ok:
  assumes ok: "ui_ok s" and ev: "ui_next_event rid ch s = Some (evt, s')"
  shows "ui_ok s'"
proof (rule ui_out_change[OF ok])
  obtain rest where q: "get_or [] (get_or [] (uiSubscribers s) rid) ch = evt # rest"
    and s': "s' = s\<lparr>uiSubscribers := mput rid (mput ch rest (get_or [] (uiSubscribers s) rid)) (uiSubscribers s)\<rparr>"
    using ev by (auto simp: ui_next_event_def split: list.splits)
  show "same_core_ui s s'" using s' by (simp add: same_core_ui_def)
  show "ui_out_ok s'"
    using q s' ok by (auto simp: ui_ok_def ui_out_ok_def queues_ok_def get_or_def split: option.splits if_splits) (metis Suc_leD length_Cons)
qed

lemma ui_lobby_ok: "ui_ok s \<Longrightarrow> ui_ok (ui_handleLobbyWS up s)" "ui_ok s \<Longrightarrow> ui_ok (ui_handleLobbyWS_done c s)"
  by (auto intro!: ui_ok_same[of s] simp: ui_handleLobbyWS_def ui_handleLobbyWS_done_def same_core_ui_def same_out_def split: option.split)

lemma ui_seat_conn_ok:
  assumes ok: "ui_ok s"
  shows "ui_ok (ui_seat_conn rid p c s)"
  by (rule ui_out_change[OF ok])
    (use ok in \<open>auto simp: ui_seat_conn_def ui_close_def same_core_ui_def Let_def ui_ok_def ui_out_ok_def split: option.split if_splits\<close>)

lemma ui_game_ws_ok: "ui_ok s \<Longrightarrow> ui_ok (snd (snd (ui_handleGameWS io up rq s)))"
  by (auto simp: ui_handleGameWS_def Let_def split: option.split intro!: ui_messages ui_seat_conn_ok)

lemma ui_game_ws_done_ok:
  assumes ok: "ui_ok s"
  shows "ui_ok (ui_handleGameWS_done rid p c s)"
  unfolding ui_handleGameWS_done_def Let_def
  by (rule ui_ok_close, rule ui_out_change[OF ok])
    (use ok in \<open>auto simp: same_core_ui_def ui_ok_def ui_out_ok_def split: option.split if_splits\<close>)

lemma ui_build_ok: "ui_ok s \<Longrightarrow> seat_fair d \<Longrightarrow> ui_buildWSState now d rid p s = (res, s') \<Longrightarrow> ui_ok s'"
  by (auto simp: ui_buildWSState_def Let_def intro: ui_ok_ensure split: if_splits option.splits)

lemma ui_ws_tick_ok: "ui_ok s \<Longrightarrow> seat_fair d \<Longrightarrow> ui_ok (snd (ui_ws_tick io now d rid p c s))"
  by (auto simp: ui_ws_tick_def split: prod.split option.split dest: ui_build_ok intro: ui_game_ws_done_ok ui_ok_send)

lemma tell_error_ok: "ui_ok (snd res) \<Longrightarrow> ui_ok (tell_error io c res)"
  by (auto simp: tell_error_def intro: ui_ok_send split: prod.split option.split)

definition fair_env :: "msg_env \<Rightarrow> bool" where
  "fair_env e \<longleftrightarrow> seat_fair (meSeat e) \<and> colour (meDraw e)"

lemma ui_read_ok:
  assumes ok: "ui_ok s" and e: "fair_env e" and cs: "trig_ok cs sn" "\<not> is_nan (toFloat64 (jget req ''angle''))"
  shows "ui_ok (ui_readGameWS cs sn io e rid p c req s)"
proof -
  have d: "seat_fair (meSeat e)" and draw: "colour (meDraw e)" using e by (simp_all add: fair_env_def)
  note act = ui_ok_actions[OF ok d] and ens = ui_ok_ensure[OF ok d]
  have aim: "ui_ok (case ui_state_of rid p (ensurePlayerGameStateLocked n (meSeat e) rid p s) of
       None \<Rightarrow> ensurePlayerGameStateLocked n (meSeat e) rid p s
     | Some st \<Rightarrow> ui_put_state rid p (st\<lparr>AimAngle := ClampAim a\<rparr>) (ensurePlayerGameStateLocked n (meSeat e) rid p s))" for n a
    using ens ui_ok_put_state[OF ens live.aim[OF ui_ok_state_of[OF ens]]] by (simp split: option.split)
  show ?thesis
    using ok act draw cs aim by (simp add: ui_readGameWS_def Let_def tell_error_ok)
qed

subsection \<open>Frames\<close>

lemma ui_resolve_cases:
  obtains "ui_resolveRoomOutcomeLocked rid s = s"
  | r states w where "mget (uiRooms s) rid = Some r" and "riState r = UiPlaying" and "mget (uiGameStates s) rid = Some states"
      and "ui_alive (get_or [] (uiRoomMembers s) rid) states = [w]" and "ui_losers (get_or [] (uiRoomMembers s) rid) states \<noteq> []"
      and "ui_resolveRoomOutcomeLocked rid s =
        (ui_set_state rid r UiWaiting w s)\<lparr>uiGameStates := mput rid (mmap_vals (final_state w) states) (uiGameStates s)\<rparr>"
  by (cases "ui_resolveRoomOutcomeLocked rid s = s")
    (auto simp: ui_resolveRoomOutcomeLocked_def Let_def split: option.splits if_splits list.splits)

lemma ui_set_waiting_ok:
  assumes ok: "ui_core_ok s" and room: "mget (uiRooms s) rid = Some r"
  shows "ui_core_ok (ui_set_state rid r UiWaiting w s)"
  by (rule ui_core_room[OF ok room, where r' = "r\<lparr>riState := UiWaiting, riWinnerID := w\<rparr>"])
    (use ui_room_okD[OF ok room] games_okD[OF ok] in \<open>auto simp: ui_set_state_def same_at_def intro!: games_okI\<close>)

lemma ui_resolve_ok:
  assumes ok: "ui_ok s"
  shows "ui_ok (ui_resolveRoomOutcomeLocked rid s)"
proof (cases rule: ui_resolve_cases[of rid s])
  case 1
  then show ?thesis using ok by simp
next
  case (2 r states w)
  let ?s = "ui_set_state rid r UiWaiting w s"
  have "ui_out_ok ?s" using ok by (simp add: ui_ok_def ui_out_ok_def ui_set_state_def)
  then have s1: "ui_ok ?s" using ui_set_waiting_ok[OF ui_ok_core_out(1)[OF ok] 2(1)] by (simp add: ui_ok_def)
  have "live_states (mmap_vals (final_state w) states)"
    by (rule live.tables_final[OF games_okD[OF ui_ok_core_out(1)[OF ok] 2(3)]])
  from ui_ok_put_games[OF s1 this, of rid] show ?thesis unfolding 2(6) by (simp add: ui_set_state_def)
qed

lemma ui_tick_ok:
  assumes ok: "ui_ok s" and fair: "\<forall>p. colour (draw p)"
  shows "ui_ok (tickRoomStatesLocked now draw rid s)"
proof -
  have "live_states (tick_all t draw sts)" if "live_states sts" for t sts
    using that fair by (rule live.tables_tick)
  then show ?thesis
    using ok games_okD[OF ui_ok_core_out(1)[OF ok]]
    by (auto simp: tickRoomStatesLocked_def intro!: ui_resolve_ok ui_ok_put_games split: option.split)
qed

lemma ui_put_next_ok:
  assumes ok: "ui_ok s" and room: "mget (uiRooms s) rid \<noteq> None"
  shows "ui_ok (ui_put_next rid n s)"
proof -
  obtain r where r: "mget (uiRooms s) rid = Some r" using room by blast
  have "ui_core_ok (ui_put_next rid n s)"
    by (rule ui_core_room[OF ui_ok_core_out(1)[OF ok] r, where r' = r])
      (use r ui_room_okD[OF ui_ok_core_out(1)[OF ok] r] games_okD[OF ui_ok_core_out(1)[OF ok]] in
        \<open>auto simp: ui_put_next_def same_at_def intro!: games_okI\<close>)
  then show ?thesis using ok by (simp add: ui_ok_def ui_out_ok_def ui_put_next_def)
qed

lemma tick_rooms: "mget (uiRooms (tickRoomStatesLocked now draw rid s)) k = None \<longleftrightarrow> mget (uiRooms s) k = None"
  by (auto simp: tickRoomStatesLocked_def ui_resolveRoomOutcomeLocked_def ui_set_state_def Let_def split: option.split list.split)

definition fair_frame :: "frame_draws \<Rightarrow> bool" where
  "fair_frame d \<longleftrightarrow> (\<forall>r p. colour (fdDraw d r p)) \<and> (\<forall>r k p c. colour (fdLayer d r k p c))"

lemma ui_add_layers_ok:
  assumes ok: "ui_ok s" and room: "mget (uiRooms s) rid \<noteq> None" and fair: "\<forall>k p c. colour (layer k p c)"
  shows "ui_ok (ui_add_layers layer now rid n s)"
proof (cases "mget (uiGameStates s) rid")
  case None
  then show ?thesis using ui_put_next_ok[OF ok room] by (simp add: ui_add_layers_def)
next
  case (Some states)
  obtain n' states' where run: "add_layers layer now 0 n states = (n', states')" by fastforce
  have live: "live_states states" using games_okD[OF ui_ok_core_out(1)[OF ok] Some] .
  have "live_states states'" using live.tables_layers[OF fair live run] by simp
  then have "ui_ok (s\<lparr>uiGameStates := mput rid states' (uiGameStates s)\<rparr>)" by (rule ui_ok_put_games[OF ok])
  then show ?thesis using Some run room by (simp add: ui_add_layers_def ui_put_next_ok)
qed

lemma ui_no_next_ok:
  assumes ok: "ui_ok s" and room: "mget (uiRooms s) rid = Some r"
  shows "ui_ok (s\<lparr>uiRoomNextAdd := mdel rid (uiRoomNextAdd s)\<rparr>)"
proof -
  have "ui_core_ok (s\<lparr>uiRoomNextAdd := mdel rid (uiRoomNextAdd s)\<rparr>)"
    by (rule ui_core_room[OF ui_ok_core_out(1)[OF ok] room, where r' = r])
      (use room ui_room_okD[OF ui_ok_core_out(1)[OF ok] room] games_okD[OF ui_ok_core_out(1)[OF ok]] in
        \<open>auto simp: same_at_def intro!: games_okI\<close>)
  then show ?thesis using ok by (simp add: ui_ok_def ui_out_ok_def)
qed

lemma step_room_ok:
  assumes ok: "ui_ok s" and fair: "fair_frame d"
  shows "ui_ok (step_room now d s rid)"
proof (cases "mget (uiRooms s) rid")
  case None
  then show ?thesis using ok by (simp add: step_room_def)
next
  case (Some r)
  let ?s = "tickRoomStatesLocked (fdClock d rid) (fdDraw d rid) rid s"
  have t: "ui_ok ?s" using ui_tick_ok[OF ok] fair by (simp add: fair_frame_def)
  have r: "mget (uiRooms ?s) rid \<noteq> None" using Some tick_rooms by (metis option.simps(3))
  show ?thesis
    using Some ui_no_next_ok[OF ok Some] ui_put_next_ok[OF t r] ui_add_layers_ok[OF t r, of "fdLayer d rid"] fair
    by (simp add: step_room_def Let_def fair_frame_def)
qed

lemma ui_frame_ok: "ui_ok s \<Longrightarrow> fair_frame d \<Longrightarrow> ui_ok (stepRoomsLocked now d s)"
  unfolding stepRoomsLocked_def by (rule foldl_invariant) (auto intro: step_room_ok)

end
