(* ===== verification/Clients.thy ===== *)
theory Clients
  imports Ui
begin

text \<open>
  The gRPC clients of the web lobby: \<open>internal/roomclient\<close>, \<open>internal/gameclient\<close>,
  \<open>internal/authclient\<close> and \<open>internal/gatewaypushclient\<close>. Each wraps its arguments in a request and
  calls one method; \<open>invoke method request\<close> is that call, the answer of the service or \<open>None\<close> for an error.
\<close>

type_synonym invoke = "string \<Rightarrow> jobj \<Rightarrow> jobj option"

definition room_request :: "string \<Rightarrow> 16 word \<Rightarrow> jobj \<Rightarrow> jobj" where
  "room_request playerID msgID body =
     [(''player_id'', JStr playerID), (''msg_id'', jint (uint msgID)), (''body'', JObj body)]"

definition roomclient_Call :: "invoke \<Rightarrow> string \<Rightarrow> 16 word \<Rightarrow> jobj \<Rightarrow> jobj option" where
  "roomclient_Call invoke playerID msgID body =
     invoke ''/room.RoomService/HandleGatewayMessage'' (room_request playerID msgID body)"

definition session_request :: "string \<Rightarrow> string list \<Rightarrow> jobj" where
  "session_request roomID players = [(''room_id'', JStr roomID), (''players'', JArr (map JStr players))]"

definition gameclient_CreateSession :: "invoke \<Rightarrow> string \<Rightarrow> string list \<Rightarrow> jobj option" where
  "gameclient_CreateSession invoke roomID players =
     invoke ''/game.GameControlService/CreateSession'' (session_request roomID players)"

definition authclient_Login :: "invoke \<Rightarrow> string \<Rightarrow> string \<Rightarrow> jobj option" where
  "authclient_Login invoke username password =
     invoke ''/auth.AuthService/Login'' [(''username'', JStr username), (''password'', JStr password)]"

definition pushclient_PushToAll :: "invoke \<Rightarrow> 16 word \<Rightarrow> jobj \<Rightarrow> jobj option" where
  "pushclient_PushToAll invoke cmd payload =
     invoke ''/gateway.GatewayPushService/PushToAll'' [(''cmd'', jint (uint cmd)), (''payload'', JObj payload)]"

text \<open>Integers of up to 53 bits survive the way through \<open>float64\<close>.\<close>

lemma int_received: "\<bar>n\<bar> \<le> 2 ^ 53 \<Longrightarrow> to_int (from_int n) = n"
proof -
  assume n: "\<bar>n\<bar> \<le> 2 ^ 53"
  then have "to_int (Flt (of_int n)) = n" by (intro to_int_of_int) auto
  then show ?thesis using from_int_exact[OF n] by (simp only:)
qed

lemma msg_id_received: "toUint16 (jint (uint (w :: 16 word))) = w"
proof -
  have "unat w < 2 ^ 16" using unsigned_less[of w] by simp
  moreover have "int (unat w) = uint w" and "(of_nat (unat w) :: 16 word) = w" by simp_all
  ultimately show ?thesis using toUint16_nat[of "unat w"] by metis
qed

end
