(* ===== verification/UiSpec.thy ===== *)
theory UiSpec
  imports UiProps Clients GameProps RoomProps
begin

text \<open>
  The properties of the web lobby (\<open>internal/ui/server.go\<close>, \<open>internal/ui/game_state.go\<close>): the states it
  reaches, its cache of the rooms of the room service, the start of a game with the game service,
  and what a player does in a game.
\<close>

subsection \<open>Reachable states\<close>

text \<open>
  One step: a request, a message or a tick of a connection, a frame, or an opened or ended
  connection. The second half of \<open>handleStartGame\<close> is a step of its own, with any session the game
  service may have answered. Creating, joining and leaving take the lock several times: they are steps
  as a whole, and each of their parts is a step too (\<open>sync\<close>, \<open>room_event\<close>, \<open>lobby_notice\<close>, \<open>leave_part\<close>,
  \<open>close_conn\<close>, \<open>push\<close>), so that other steps may come between the parts. Go may visit the rooms
  and the members of a room in another order.
\<close>

inductive ui_step :: "(float64 \<Rightarrow> float64) \<Rightarrow> (float64 \<Rightarrow> float64) \<Rightarrow> ui_server \<Rightarrow> ui_server \<Rightarrow> bool" for cs sn where
  rooms: "ui_step cs sn s (snd (ui_handleRooms call io now rq s))"
| join: "ui_step cs sn s (snd (ui_handleJoinRoom call io now rq s))"
| detail: "ui_step cs sn s (snd (ui_handleRoomDetail call rq s))"
| start: "\<forall>p. seat_fair (draws p) \<Longrightarrow> ui_step cs sn s (snd (ui_start_commit clk draws started s))"
| leave: "ui_step cs sn s (snd (ui_handleLeaveRoom io clk rq s))"
| sync: "roomItemFromRemote rm = Some room \<Longrightarrow> ui_step cs sn s (syncRoomCacheFromRemote room rm s)"
| room_event: "ui_step cs sn s (broadcastRoomEvent rid evt s)"
| lobby_notice: "ui_step cs sn s (notifyLobbyRoomsUpdated io now p rid s)"
| leave_part: "mget (uiPlayerRoom s) p = Some rid \<Longrightarrow> ui_leave_locked p rid s = (lv, s') \<Longrightarrow> ui_step cs sn s s'"
| close_conn: "ui_step cs sn s (ui_close oc s)"
| push: "ui_step cs sn s (push_ws_players io rid ps msg s)"
| events: "ui_step cs sn s (snd (ui_handleRoomEvents flusher ch rq s))"
| next_event: "ui_next_event rid ch s = Some (evt, s') \<Longrightarrow> ui_step cs sn s s'"
| events_done: "ui_step cs sn s (ui_handleRoomEvents_done rid ch s)"
| lobby: "ui_step cs sn s (ui_handleLobbyWS up s)"
| lobby_done: "ui_step cs sn s (ui_handleLobbyWS_done c s)"
| game_state: "seat_fair d \<Longrightarrow> ui_step cs sn s (snd (ui_handleGameState now d rq s))"
| fire: "seat_fair d \<Longrightarrow> \<not> is_nan (uqAngle rq) \<Longrightarrow> ui_step cs sn s (snd (ui_handleGameFire cs sn now d rq s))"
| game_ws: "ui_step cs sn s (snd (snd (ui_handleGameWS io up rq s)))"
| ws_tick: "seat_fair d \<Longrightarrow> ui_step cs sn s (snd (ui_ws_tick io now d rid p c s))"
| message: "fair_env e \<Longrightarrow> \<not> is_nan (toFloat64 (jget req ''angle'')) \<Longrightarrow> ui_step cs sn s (ui_readGameWS cs sn io e rid p c req s)"
| game_ws_done: "ui_step cs sn s (ui_handleGameWS_done rid p c s)"
| frame: "fair_frame d \<Longrightarrow> ui_step cs sn s (stepRoomsLocked now d s)"
| other_order: "mget rooms = mget (uiRooms s) \<Longrightarrow> ui_step cs sn s (s\<lparr>uiRooms := rooms\<rparr>)"
| other_members: "mget (uiRoomMembers s) rid = Some ms \<Longrightarrow> mset ms' = mset ms \<Longrightarrow>
     ui_step cs sn s (s\<lparr>uiRoomMembers := mput rid ms' (uiRoomMembers s)\<rparr>)"

inductive ui_reachable :: "(float64 \<Rightarrow> float64) \<Rightarrow> (float64 \<Rightarrow> float64) \<Rightarrow> ui_server \<Rightarrow> bool" for cs sn where
  new: "ui_reachable cs sn ui_New"
| step: "ui_reachable cs sn s \<Longrightarrow> ui_step cs sn s s' \<Longrightarrow> ui_reachable cs sn s'"

lemma ui_ok_new: "ui_ok ui_New"
  by (simp add: ui_ok_def ui_core_ok_def ui_out_ok_def ui_room_ok_def ui_games_ok_def ui_New_def)

lemma ui_ok_order:
  assumes ok: "ui_ok s" and same: "mget rooms = mget (uiRooms s)"
  shows "ui_ok (s\<lparr>uiRooms := rooms\<rparr>)"
proof -
  have "ui_room_ok (s\<lparr>uiRooms := rooms\<rparr>) k = ui_room_ok s k" for k by (rule ui_room_ok_cong) (simp add: same_at_def same)
  then show ?thesis using ok by (simp add: ui_ok_def ui_core_ok_def ui_out_ok_def ui_games_ok_def)
qed

lemma ui_ok_members:
  assumes ok: "ui_ok s" and ms: "mget (uiRoomMembers s) rid = Some ms" and same: "mset ms' = mset ms"
  shows "ui_ok (s\<lparr>uiRoomMembers := mput rid ms' (uiRoomMembers s)\<rparr>)"
proof -
  note core = ui_ok_core_out(1)[OF ok]
  obtain r where r: "mget (uiRooms s) rid = Some r" using ui_room_ok_None[OF core] ms by (cases "mget (uiRooms s) rid") auto
  have "wf_map ms" using ui_room_okD(6)[OF core r] ms by auto
  then have "wf_map ms'" using mset_wf_map[OF same] by simp
  then have "ui_core_ok (s\<lparr>uiRoomMembers := mput rid ms' (uiRoomMembers s)\<rparr>)"
    by (intro ui_core_room[OF core r, where r' = r])
      (use r ui_room_okD[OF core r] games_okD[OF core] in \<open>auto simp: same_at_def intro!: games_okI\<close>)
  then show ?thesis using ok by (simp add: ui_ok_def ui_out_ok_def)
qed

lemma ui_step_ok: "ui_step cs sn s s' \<Longrightarrow> trig_ok cs sn \<Longrightarrow> ui_ok s \<Longrightarrow> ui_ok s'"
  by (induction rule: ui_step.induct)
    (auto intro: ui_rooms_ok ui_detail_ok ui_start_ok ui_leave_ok ui_events_ok ui_next_event_ok ui_events_done_ok ui_lobby_ok
      ui_ok_state_request ui_ok_fire_request ui_game_ws_ok ui_ws_tick_ok ui_read_ok ui_game_ws_done_ok ui_frame_ok
      ui_ok_order ui_ok_members ui_messages ui_sync_ok
      dest: ui_leave_lockedD)

text \<open>
  C35: In every state the lobby reaches from an empty one, whatever requests, messages, frames and
  answers of the other services come, the invariant holds: each cached room has its members and its
  identifier as its key, only cached rooms have tickets, addresses and a next layer, every state of
  every game is one the rules allow (cells and colours in range, a moving bubble on the board with
  finite coordinates and speeds), and no event channel is over its 16 places. What is asked of cosine and
  sine is what C5 asks, on the angles the shooter can aim at only; the angles in requests are
  numbers, as JSON has no NaN.
\<close>

theorem lobby_reachable_ok:
  assumes "ui_reachable cs sn s" and "trig_ok cs sn"
  shows "ui_ok s"
  using assms by (induction rule: ui_reachable.induct) (auto intro: ui_ok_new ui_step_ok)

subsection \<open>The cache of the rooms\<close>

text \<open>What the lobby shows of a room of the room service.\<close>

fun lobby_phase :: "room_state \<Rightarrow> ui_phase" where
  "lobby_phase StatePlaying = UiPlaying"
| "lobby_phase StateSettlement = UiClosed"
| "lobby_phase StateClosed = UiClosed"
| "lobby_phase _ = UiWaiting"

definition item_of :: "room \<Rightarrow> room_item" where
  "item_of r = \<lparr>riRoomID = rID r, riName = rName r, riOwnerID = rOwnerID r, riState = lobby_phase (rState r), riWinnerID = '''',
     riPlayerCnt = int (length (rPlayers r)), riMaxPlayers = rMaxPlayers r\<rparr>"

definition mirrors :: "ui_server \<Rightarrow> room \<Rightarrow> bool" where
  "mirrors s r \<longleftrightarrow>
     mget (uiRooms s) (rID r) = Some (item_of r)
     \<and> (\<exists>ms. mget (uiRoomMembers s) (rID r) = Some ms \<and> (\<forall>p. mhas ms p \<longleftrightarrow> p \<noteq> '''' \<and> p \<in> room_members r))
     \<and> (\<forall>p \<in> room_members r. p \<noteq> '''' \<longrightarrow> mget (uiPlayerRoom s) p = Some (rID r))"

text \<open>The room service as the client of the lobby sees it, and the manager after the call.\<close>

definition room_service :: "int \<Rightarrow> int \<Rightarrow> int \<Rightarrow> manager \<Rightarrow> invoke" where
  "room_service now ms sec m method req =
     (if method = ''/room.RoomService/HandleGatewayMessage''
      then map_option (\<lambda>(v, m'). toMap v) (HandleGatewayMessage now ms sec (Some req) m) else None)"

definition room_service_after :: "int \<Rightarrow> int \<Rightarrow> int \<Rightarrow> manager \<Rightarrow> jobj \<Rightarrow> manager" where
  "room_service_after now ms sec m req = (case HandleGatewayMessage now ms sec (Some req) m of None \<Rightarrow> m | Some (v, m') \<Rightarrow> m')"

lemma toUIRoomState_text: "toUIRoomState (room_state_text st) = lobby_phase st"
  by (cases st) (simp_all add: toUIRoomState_def lower_is_def)

lemma roomItem_roomToMap:
  assumes "rID r \<noteq> ''''" and "1 \<le> rMaxPlayers r" and "rMaxPlayers r < 2 ^ 53"
  shows "roomItemFromRemote (Some (roomToMap r)) = Some (item_of r)"
proof -
  have "to_int (from_int (rMaxPlayers r)) = rMaxPlayers r" using assms(2,3) by (intro int_received) auto
  then show ?thesis
    using assms by (simp add: roomItemFromRemote_def roomToMap_def Let_def toUIRoomState_text item_of_def del: to_int.simps)
qed

lemma remote_players_roomToMap:
  assumes "\<forall>p v. mget (rPlayers r) p = Some v \<longrightarrow> rpPlayerID v = p" and "wf_map (rPlayers r)"
  shows "set (remote_players (Some (roomToMap r))) = {p \<in> room_members r. p \<noteq> ''''}"
proof -
  have "rpPlayerID v = p" if "(p, v) \<in> set (rPlayers r)" for p v using that assms by (simp add: wf_map_mem)
  then have "(\<lambda>(k, v). rpPlayerID v) ` set (rPlayers r) = mkeys (rPlayers r)" by (force simp: image_iff)
  then show ?thesis
    by (auto simp: remote_players_def map_field_def roomToMap_def room_members_def comp_def split_beta image_iff)
qed

lemma sync_mirrors:
  assumes core: "wf_core (rID r) r" and id: "rID r \<noteq> ''''"
  shows "mirrors (syncRoomCacheFromRemote (item_of r) (Some (roomToMap r)) s) r"
proof -
  define s0 where "s0 = s\<lparr>uiRooms := mput (rID r) (item_of r) (uiRooms s), uiRoomMembers := mput (rID r) [] (uiRoomMembers s)\<rparr>"
  have m0: "mget (uiRoomMembers s0) (rID r) = Some []" by (simp add: s0_def)
  note f = cache_members[OF m0, where ps = "remote_players (Some (roomToMap r))"]
  have eq: "syncRoomCacheFromRemote (item_of r) (Some (roomToMap r)) s = foldl (cache_member (rID r)) s0 (remote_players (Some (roomToMap r)))"
    by (simp add: syncRoomCacheFromRemote_def s0_def item_of_def)
  have ps: "set (remote_players (Some (roomToMap r))) = {p \<in> room_members r. p \<noteq> ''''}"
    using core by (intro remote_players_roomToMap) (auto simp: wf_core_def)
  have "mget (uiRooms s0) (rID r) = Some (item_of r)" by (simp add: s0_def)
  then show ?thesis unfolding mirrors_def eq
    using f(1,2,4) ps by (auto simp: mhas_members_fold) (auto simp: mhas_def)
qed

lemma mirrors_same: "same_core_ui s s' \<Longrightarrow> mirrors s r \<Longrightarrow> mirrors s' r"
  by (simp add: same_core_ui_def mirrors_def)

text \<open>An accepted answer is one of a room; the room is then in the cache.\<close>

lemma accept_mirrors:
  assumes "wf_core (rID r) r" and "rID r \<noteq> ''''" and "rMaxPlayers r < 2 ^ 53"
  shows "\<exists>v s'. accept_room io t refusal msg p (Some (toMap (mapResp 0 ''ok'' [(''room'', JObj (roomToMap r))]))) s = (HttpJson v, s')
     \<and> mirrors s' r"
proof -
  have "1 \<le> rMaxPlayers r" using assms(1) by (simp add: wf_core_def)
  then have item: "roomItemFromRemote (Some (roomToMap r)) = Some (item_of r)" using assms by (intro roomItem_roomToMap) auto
  have code: "to_int (from_int 0) = 0" by (rule int_received) simp
  let ?s = "syncRoomCacheFromRemote (item_of r) (Some (roomToMap r)) s"
  have told: "mirrors (broadcastRoomEvent k evt (notifyLobbyRoomsUpdated io t p k ?s)) r" for k evt
    by (rule mirrors_same[OF broadcast_core mirrors_same[OF notify_same[THEN conjunct1] sync_mirrors[OF assms(1,2)]]])
  show ?thesis
    using item code told
    by (simp add: accept_room_def mapResp_def is_code_0_def body_field_def map_field_def Let_def del: to_int.simps)
qed

lemma refused_no_answer:
  "accept_room io t refusal msg p (Some (toMap (mapResp 300 err []))) s = (HttpError 409 refusal, s)"
proof -
  have "to_int (from_int 300) = 300" by (rule int_received) simp
  then show ?thesis by (simp add: accept_room_def mapResp_def is_code_0_def del: to_int.simps)
qed

lemma JoinRoom_done:
  assumes "JoinRoom now p k m = (Inr r, m')"
  shows "mget (mgRooms m') k = Some r" and "p \<in> room_members r"
    and "\<exists>r0. mget (mgRooms m) k = Some r0 \<and> rMaxPlayers r = rMaxPlayers r0"
  using assms
  by (auto simp: JoinRoom_def Let_def cloneRoom_same store_room_def room_members_iff split: if_splits option.splits)

lemma CreateRoom_done:
  assumes "CreateRoom now p name c m = (Inr r, m')"
  shows "mget (mgRooms m') (FormatInt now) = Some r" and "p \<in> room_members r" and "rMaxPlayers r = (if c \<le> 1 then 2 else c)"
  using assms
  by (auto simp: CreateRoom_def Let_def cloneRoom_same room_members_iff split: if_splits)

lemma service_join:
  "p \<noteq> '''' \<Longrightarrow> HandleGatewayMessage now ms sec (Some (room_request p RoomMsgJoinRoom [(''room_id'', JStr k)])) m
     = Some (room_answer (JoinRoom now p k m))"
  unfolding HandleGatewayMessage_def room_request_def Let_def
  by (simp add: msg_id_received del: toFloat64.simps) (simp add: room_msgs)

lemma service_create:
  assumes "p \<noteq> ''''" and "name \<noteq> ''''" and "\<bar>c\<bar> \<le> 2 ^ 53"
  shows "HandleGatewayMessage now ms sec (Some (room_request p RoomMsgCreateRoom [(''name'', JStr name), (''capacity'', jint c)])) m
     = Some (room_answer (CreateRoom now p name c m))"
  using assms int_received[OF assms(3)]
  unfolding HandleGatewayMessage_def room_request_def Let_def
  by (simp add: msg_id_received del: to_int.simps)

text \<open>Whatever the answer, the lobby ends up with the room of an accepted one.\<close>

lemma accept_answer:
  assumes res: "accept_room io t refusal msg p (Some (toMap (fst (room_answer (res, m'))))) s = (HttpJson v, s')"
    and wf: "wf_manager m'" and new: "\<And>r. res = Inr r \<Longrightarrow> mget (mgRooms m') k = Some r \<and> p \<in> room_members r \<and> rMaxPlayers r < 2 ^ 53"
    and k: "k \<noteq> ''''"
  shows "\<exists>r. mget (mgRooms m') k = Some r \<and> p \<in> room_members r \<and> mirrors s' r"
proof (cases res)
  case (Inl err)
  then show ?thesis using res by (simp add: room_answer_def refused_no_answer)
next
  case (Inr r)
  have core: "wf_core k r" using wf_manager_room[OF wf] new[OF Inr] wf_room_core by blast
  then have "rID r = k" by (simp add: wf_core_def)
  then have "\<exists>v s'. accept_room io t refusal msg p (Some (toMap (mapResp 0 ''ok'' [(''room'', JObj (roomToMap r))]))) s = (HttpJson v, s')
      \<and> mirrors s' r"
    using core new[OF Inr] k by (intro accept_mirrors) auto
  then show ?thesis using res new[OF Inr] Inr by (auto simp: room_answer_def)
qed

text \<open>
  C36: The cache of the lobby is the room service's view of a room. Whenever the lobby answers a
  request to join or to create a room with success, the room service, called through its client,
  has a room that seats the player, and the lobby's cache holds this room: identifier, name, owner,
  size, the phase that belongs to its state, exactly its members, and each of them registered in it.
\<close>

theorem lobby_mirrors_rooms:
  fixes rq :: ui_request and m :: manager and now ms sec :: int
  defines "p \<equiv> TrimSpace (uqPlayer rq)"
    and "service \<equiv> roomclient_Call (room_service now ms sec m)"
    and "after \<equiv> room_service_after now ms sec m"
  assumes wf: "wf_manager m" and fresh: "mget (mgRooms m) (FormatInt now) = None"
    and sizes: "\<forall>k r. mget (mgRooms m) k = Some r \<longrightarrow> rMaxPlayers r < 2 ^ 53"
  shows "(ui_handleJoinRoom service io t rq s = (HttpJson v, s') \<longrightarrow>
       (\<exists>r. mget (mgRooms (after (room_request p RoomMsgJoinRoom [(''room_id'', JStr (uqRoomID rq))]))) (uqRoomID rq) = Some r
          \<and> p \<in> room_members r \<and> mirrors s' r))
     \<and> (ui_createRoom service io t rq s = (HttpJson v, s') \<longrightarrow>
       (\<exists>r. mget (mgRooms (after (room_request p RoomMsgCreateRoom
            [(''name'', JStr (if uqName rq = '''' then ''Default Room'' else uqName rq)), (''capacity'', jint (clamp_max (uqMax rq)))])))
            (FormatInt now) = Some r
          \<and> p \<in> room_members r \<and> mirrors s' r))"
proof (intro conjI impI)
  assume join: "ui_handleJoinRoom service io t rq s = (HttpJson v, s')"
  then have p: "p \<noteq> ''''" "uqRoomID rq \<noteq> ''''" by (auto simp: ui_handleJoinRoom_def p_def Let_def split: if_splits)
  obtain res m' where j: "JoinRoom now p (uqRoomID rq) m = (res, m')" by fastforce
  have after: "after (room_request p RoomMsgJoinRoom [(''room_id'', JStr (uqRoomID rq))]) = m'"
    using p by (simp add: after_def room_service_after_def service_join j room_answer_def split: sum.split)
  have "accept_room io t ''join room failed'' ''joined'' p (Some (toMap (fst (room_answer (res, m'))))) s = (HttpJson v, s')"
    using join p by (simp add: ui_handleJoinRoom_def service_def roomclient_Call_def room_service_def service_join j
        split_beta Let_def flip: p_def split: if_splits)
  moreover have "wf_manager m'" using wf_JoinRoom[OF wf, of now p "uqRoomID rq"] j by simp
  moreover have "mget (mgRooms m') (uqRoomID rq) = Some r \<and> p \<in> room_members r \<and> rMaxPlayers r < 2 ^ 53" if "res = Inr r" for r
    using JoinRoom_done[of now p "uqRoomID rq" m r m'] j that sizes by auto
  ultimately show "\<exists>r. mget (mgRooms (after (room_request p RoomMsgJoinRoom [(''room_id'', JStr (uqRoomID rq))]))) (uqRoomID rq) = Some r
      \<and> p \<in> room_members r \<and> mirrors s' r"
    unfolding after by (rule accept_answer) (use p(2) in auto)
next
  let ?name = "if uqName rq = '''' then ''Default Room'' else uqName rq" and ?c = "clamp_max (uqMax rq)"
  assume create: "ui_createRoom service io t rq s = (HttpJson v, s')"
  then have p: "p \<noteq> ''''" by (auto simp: ui_createRoom_def p_def Let_def split: if_splits)
  have c: "2 \<le> ?c" "?c \<le> 8" using clamp_max_range by blast+
  obtain res m' where j: "CreateRoom now p ?name ?c m = (res, m')" by fastforce
  have h: "HandleGatewayMessage now ms sec (Some (room_request p RoomMsgCreateRoom [(''name'', JStr ?name), (''capacity'', jint ?c)])) m
      = Some (room_answer (res, m'))" using service_create[OF p, of ?name ?c now ms sec m] c j by auto
  have after: "after (room_request p RoomMsgCreateRoom [(''name'', JStr ?name), (''capacity'', jint ?c)]) = m'"
    by (simp only: after_def room_service_after_def h) (simp add: room_answer_def split: sum.split)
  have "accept_room io t ''create room failed'' ''created_and_joined'' p (Some (toMap (fst (room_answer (res, m'))))) s = (HttpJson v, s')"
    using create p h by (simp add: ui_createRoom_def service_def roomclient_Call_def room_service_def
        split_beta Let_def flip: p_def split: if_splits)
  moreover have "wf_manager m'" using wf_CreateRoom[OF wf fresh, of p ?name ?c] j by simp
  moreover have "mget (mgRooms m') (FormatInt now) = Some r \<and> p \<in> room_members r \<and> rMaxPlayers r < 2 ^ 53" if "res = Inr r" for r
    using CreateRoom_done[of now p ?name ?c m r m'] j that c by auto
  ultimately show "\<exists>r. mget (mgRooms (after (room_request p RoomMsgCreateRoom [(''name'', JStr ?name), (''capacity'', jint ?c)])))
      (FormatInt now) = Some r \<and> p \<in> room_members r \<and> mirrors s' r"
    unfolding after by (rule accept_answer) auto
qed

subsection \<open>Starting a game\<close>

text \<open>
  A room with its game: it is playing without a winner, every member has a fresh state and a ticket,
  nobody else has a state, the address is set and the next layer is due in ten seconds. A room
  without one has none of these.
\<close>

definition game_on :: "string \<Rightarrow> int \<Rightarrow> (string, unit) gomap \<Rightarrow> ui_server \<Rightarrow> bool" where
  "game_on rid now members s \<longleftrightarrow>
     (\<exists>room states addr. mget (uiRooms s) rid = Some room \<and> riState room = UiPlaying \<and> riWinnerID room = ''''
        \<and> mget (uiGameStates s) rid = Some states \<and> (\<forall>q. mhas states q \<longleftrightarrow> mhas members q)
        \<and> (\<forall>q st. mget states q = Some st \<longrightarrow> Status st = StPlaying \<and> Moving st = None \<and> \<not> PendingShot st \<and> Score st = 0)
        \<and> (\<forall>q. mhas members q \<longrightarrow> TrimSpace (ui_ticket rid q s) \<noteq> '''')
        \<and> mget (uiRoomGameAddr s) rid = Some addr \<and> addr \<noteq> ''''
        \<and> mget (uiRoomNextAdd s) rid = Some (unix_ms now + 10000))"

definition game_off :: "string \<Rightarrow> ui_server \<Rightarrow> bool" where
  "game_off rid s \<longleftrightarrow>
     (\<exists>room. mget (uiRooms s) rid = Some room \<and> riState room = UiWaiting)
     \<and> mget (uiGameStates s) rid = None \<and> mget (uiRoomNextAdd s) rid = None \<and> mget (uiRoomGameAddr s) rid = None
     \<and> mget (uiRoomTickets s) rid = None"

definition others_same :: "string \<Rightarrow> ui_server \<Rightarrow> ui_server \<Rightarrow> bool" where
  "others_same rid s s' \<longleftrightarrow> uiPlayerRoom s' = uiPlayerRoom s
     \<and> (\<forall>k. k \<noteq> rid \<longrightarrow> same_at k s s' \<and> mget (uiGameStates s') k = mget (uiGameStates s) k)"

lemma new_states_fresh:
  "mhas (new_states now draws ms) q \<longleftrightarrow> mhas ms q"
  "mget (new_states now draws ms) q = Some st \<Longrightarrow> Status st = StPlaying \<and> Moving st = None \<and> \<not> PendingShot st \<and> Score st = 0"
  by (auto simp: new_states_def mget_seats mhas_def NewInitialState_def split: if_splits)

lemma game_on_same: "same_core_ui s s' \<Longrightarrow> game_on rid now ms s \<Longrightarrow> game_on rid now ms s'"
  by (simp add: same_core_ui_def game_on_def ui_ticket_def)

lemma others_same_core: "same_core_ui s s' \<Longrightarrow> others_same rid t s \<Longrightarrow> others_same rid t s'"
  by (simp add: same_core_ui_def others_same_def same_at_def)

lemma tickets_readyD: "tickets_ready ms (Some ts) \<Longrightarrow> mhas ms q \<Longrightarrow> TrimSpace (get_or '''' ts q) \<noteq> ''''"
  by (auto simp: tickets_ready_def list_all_iff mhas_def dest!: mget_mem)

text \<open>The second half of \<open>handleStartGame\<close> when the checks under the second lock pass.\<close>

lemma start_commit_cases:
  assumes room: "mget (uiRooms s) rid = Some room" "riState room \<noteq> UiPlaying"
    and two: "2 \<le> length (get_or [] (uiRoomMembers s) rid)"
    and ready: "as_string (jget out ''game_addr'') \<noteq> ''''" "session_tickets out = Some ts" "get_or '''' ts p \<noteq> ''''"
      "tickets_ready (get_or [] (uiRoomMembers s) rid) (Some ts)"
  shows "\<exists>v s'. ui_start_commit clk draws (p, rid, out) s = (HttpJson v, s')
     \<and> game_on rid (clk 1) (get_or [] (uiRoomMembers s) rid) s' \<and> others_same rid s s'
     \<and> (\<forall>q. ui_ticket rid q s' = get_or '''' ts q)"
proof -
  let ?ms = "get_or [] (uiRoomMembers s) rid"
  define s4 where "s4 = s\<lparr>uiRooms := mput rid (room\<lparr>riState := UiPlaying, riWinnerID := ''''\<rparr>) (uiRooms s),
      uiGameStates := mput rid (new_states (clk 0) draws ?ms) (uiGameStates s),
      uiRoomNextAdd := mput rid (unix_ms (clk 1) + 10000) (uiRoomNextAdd s),
      uiRoomGameAddr := mput rid (as_string (jget out ''game_addr'')) (uiRoomGameAddr s),
      uiRoomTickets := mput rid ts (uiRoomTickets s)\<rparr>"
  define s' where "s' = broadcastRoomEvent rid
      (room_event ''game_started'' rid [(''by'', JStr p), (''ts'', jint (unix_ms (clk 2)))]) s4"
  have same: "same_core_ui s4 s'" by (simp add: s'_def)
  have t4: "ui_ticket rid q s4 = get_or '''' ts q" for q by (simp add: ui_ticket_def s4_def get_or_def)
  have "game_on rid (clk 1) ?ms s4"
    unfolding game_on_def using ready(1) new_states_fresh[of "clk 0" draws ?ms] tickets_readyD[OF ready(4)]
    by (simp add: t4) (simp add: s4_def)
  then have on: "game_on rid (clk 1) ?ms s'" by (rule game_on_same[OF same])
  have "others_same rid s s4" by (simp add: others_same_def same_at_def s4_def)
  then have other: "others_same rid s s'" by (rule others_same_core[OF same])
  have "ui_ticket rid q s' = get_or '''' ts q" for q using t4 same by (simp add: ui_ticket_def same_core_ui_def)
  moreover have "\<exists>v. ui_start_commit clk draws (p, rid, out) s = (HttpJson v, s')"
    using room two ready by (simp add: ui_start_commit_def Let_def ui_set_state_def s'_def s4_def)
  ultimately show ?thesis using on other by blast
qed

text \<open>
  C37: Starting a game is all or nothing. The second half of the request, on whatever state it
  finds, either leaves the state alone, or starts the whole game (room playing, a fresh state and a
  ticket for each member, address and first layer set) and says so, or reports a bad answer of the
  game service and leaves the room waiting with nothing of a game. No other room changes.
\<close>

theorem start_game_all_or_nothing:
  assumes "ui_start_commit clk draws (p, rid, out) s = (answer, s')"
  shows "others_same rid s s'
     \<and> (s' = s
        \<or> (\<exists>v. answer = HttpJson v) \<and> game_on rid (clk 1) (get_or [] (uiRoomMembers s) rid) s'
        \<or> answer = HttpError 502 ''invalid game session response'' \<and> game_off rid s')"
proof (cases "\<exists>room. mget (uiRooms s) rid = Some room \<and> riState room \<noteq> UiPlaying \<and> 2 \<le> length (get_or [] (uiRoomMembers s) rid)")
  case False
  then have "s' = s" using assms by (auto simp: ui_start_commit_def Let_def split: option.splits if_splits)
  then show ?thesis by (simp add: others_same_def same_at_def)
next
  case True
  then obtain room where room: "mget (uiRooms s) rid = Some room" "riState room \<noteq> UiPlaying" "2 \<le> length (get_or [] (uiRoomMembers s) rid)" by blast
  show ?thesis
  proof (cases "\<exists>ts. session_tickets out = Some ts \<and> as_string (jget out ''game_addr'') \<noteq> '''' \<and> get_or '''' ts p \<noteq> ''''
      \<and> tickets_ready (get_or [] (uiRoomMembers s) rid) (Some ts)")
    case True
    then obtain ts where "session_tickets out = Some ts" "as_string (jget out ''game_addr'') \<noteq> ''''" "get_or '''' ts p \<noteq> ''''"
      "tickets_ready (get_or [] (uiRoomMembers s) rid) (Some ts)" by blast
    then show ?thesis using start_commit_cases[OF room, of out ts p clk draws] assms by auto
  next
    case False
    then have bad: "as_string (jget out ''game_addr'') = '''' \<or> (case session_tickets out of None \<Rightarrow> '''' | Some ts \<Rightarrow> get_or '''' ts p) = ''''
        \<or> \<not> tickets_ready (get_or [] (uiRoomMembers s) rid) (session_tickets out)"
      by (cases "session_tickets out") auto
    define s4 where "s4 = (let s1 = ui_set_state rid room UiPlaying '''' s;
        s2 = s1\<lparr>uiGameStates := mput rid (new_states (clk 0) draws (get_or [] (uiRoomMembers s) rid)) (uiGameStates s1),
                uiRoomNextAdd := mput rid (unix_ms (clk 1) + 10000) (uiRoomNextAdd s1)\<rparr>;
        s3 = (if as_string (jget out ''game_addr'') \<noteq> '''' then s2\<lparr>uiRoomGameAddr := mput rid (as_string (jget out ''game_addr'')) (uiRoomGameAddr s2)\<rparr> else s2)
      in case session_tickets out of None \<Rightarrow> s3 | Some ts \<Rightarrow> s3\<lparr>uiRoomTickets := mput rid ts (uiRoomTickets s3)\<rparr>)"
    have "answer = HttpError 502 ''invalid game session response'' \<and> s' = drop_game rid (ui_set_state rid room UiWaiting '''' s4)"
      using assms room bad by (simp add: ui_start_commit_def s4_def Let_def)
    moreover have "others_same rid s (drop_game rid (ui_set_state rid room UiWaiting '''' s4))"
      by (simp add: others_same_def same_at_def drop_game_def ui_set_state_def s4_def Let_def split: option.split)
    moreover have "game_off rid (drop_game rid (ui_set_state rid room UiWaiting '''' s4))"
      by (simp add: game_off_def drop_game_def ui_set_state_def)
    ultimately show ?thesis by blast
  qed
qed

subsection \<open>The lobby and the game service\<close>

definition game_service :: "int \<Rightarrow> (nat \<Rightarrow> player_draws) \<Rightarrow> game_server \<Rightarrow> invoke" where
  "game_service ms draws g method req =
     (if method = ''/game.GameControlService/CreateSession''
      then (case CreateSession ms draws (Some req) g of (Inl err, g') \<Rightarrow> None | (Inr v, g') \<Rightarrow> Some (toMap v)) else None)"

definition game_service_after :: "int \<Rightarrow> (nat \<Rightarrow> player_draws) \<Rightarrow> game_server \<Rightarrow> jobj \<Rightarrow> game_server" where
  "game_service_after ms draws g req = snd (CreateSession ms draws (Some req) g)"

lemma new_session_tickets:
  "ssTickets (fst (new_session ms draws rid ps)) = snd (new_session ms draws rid ps)
     \<and> (\<forall>p. mhas (snd (new_session ms draws rid ps)) p \<longleftrightarrow> p \<in> set ps)
     \<and> (\<forall>p t. mget (snd (new_session ms draws rid ps)) p = Some t \<longrightarrow> (\<exists>i. t = randomTicket (dTicket (draws i))))"
proof -
  define acc0 :: "session \<times> (string, string) gomap" where
    "acc0 = (\<lparr>ssRoomID = rid, ssPlayers = [], ssTickets = [], ssStates = [], ssWinnerID = '''', ssLastHeartbeat = [], ssFinalized = False\<rparr>, [])"
  have "ssTickets (fst (foldl (add_player ms draws) acc xs)) = snd (foldl (add_player ms draws) acc xs)
      \<and> (\<forall>p. mhas (snd (foldl (add_player ms draws) acc xs)) p \<longleftrightarrow> p \<in> snd ` set xs \<or> mhas (snd acc) p)
      \<and> (\<forall>p t. mget (snd (foldl (add_player ms draws) acc xs)) p = Some t \<longrightarrow> (\<exists>i. t = randomTicket (dTicket (draws i))))"
    if "ssTickets (fst acc) = snd acc" "\<forall>p t. mget (snd acc) p = Some t \<longrightarrow> (\<exists>i. t = randomTicket (dTicket (draws i)))" for acc xs
    using that
  proof (induction xs arbitrary: acc)
    case (Cons x xs)
    have step: "ssTickets (fst (add_player ms draws acc x)) = snd (add_player ms draws acc x)"
      "snd (add_player ms draws acc x) = mput (snd x) (randomTicket (dTicket (draws (fst x)))) (snd acc)"
      using Cons.prems(1) by (simp_all add: add_player_def split_beta Let_def)
    have "\<forall>p t. mget (snd (add_player ms draws acc x)) p = Some t \<longrightarrow> (\<exists>i. t = randomTicket (dTicket (draws i)))"
      using Cons.prems(2) by (auto simp: step(2))
    from Cons.IH[OF step(1) this] show ?case by (auto simp: step(2) mhas_def)
  qed simp
  from this[of acc0 "enumerate 0 ps"] show ?thesis
    by (simp add: new_session_def acc0_def mhas_def flip: set_map)
qed

lemma ticket_trimmed: "bs \<noteq> [] \<Longrightarrow> TrimSpace (randomTicket bs) = randomTicket bs"
  by (simp add: randomTicket_def TrimSpace_hex)

lemma session_tickets_of: "jget out ''tickets'' = JObj (map (\<lambda>(p, t). (p, JStr t)) ts) \<Longrightarrow> session_tickets out = Some ts"
  by (simp add: session_tickets_def map_filter_map_filter List.map_filter_def comp_def split_beta)

lemma service_session:
  assumes "rid \<noteq> ''''" and "ps \<noteq> []" and "'''' \<notin> set ps"
  shows "CreateSession ms draws (Some (session_request rid ps)) g =
    (Inr (JObj [(''room_id'', JStr rid), (''game_addr'', JStr (gsPublicWSAddr g)),
        (''tickets'', JObj (map (\<lambda>(p, t). (p, JStr t)) (snd (new_session ms draws rid ps))))]),
     g\<lparr>gsSessions := mput rid (fst (new_session ms draws rid ps)) (gsSessions g)\<rparr>)"
proof -
  have "filter (\<lambda>p. p \<noteq> '''') (map as_string (map JStr ps)) = ps"
    using assms(3) by (induction ps) auto
  then show ?thesis
    using assms(1,2) by (simp add: CreateSession_def session_request_def Let_def split_beta)
qed

lemma new_session_ticket:
  fixes rid :: string and ms :: int
  assumes "\<forall>i. dTicket (draws i) \<noteq> []" and "p \<in> set ps"
  defines "t \<equiv> get_or '''' (snd (new_session ms draws rid ps)) p"
  shows "t \<noteq> '''' \<and> TrimSpace t = t \<and> get_or '''' (ssTickets (fst (new_session ms draws rid ps))) p = t"
proof -
  note tk = new_session_tickets[of ms draws rid ps]
  have "mhas (snd (new_session ms draws rid ps)) p" using tk assms(2) by blast
  then obtain u where u: "mget (snd (new_session ms draws rid ps)) p = Some u" by (auto simp: mhas_def)
  then obtain i where "u = randomTicket (dTicket (draws i))" using tk by blast
  then show ?thesis using u tk assms(1) ticket_trimmed[of "dTicket (draws i)"] by (simp add: t_def get_or_def randomTicket_def)
qed

text \<open>What the first half has checked when it goes on.\<close>

lemma start_begin_checked:
  assumes "ui_start_begin call create rq s = Inr (p, rid, out)"
  shows "p = TrimSpace (uqPlayer rq)" and "rid = uqRoomID rq" and "p \<noteq> ''''" and "rid \<noteq> ''''"
    and "\<exists>room. mget (uiRooms s) rid = Some room \<and> riState room \<noteq> UiPlaying \<and> riOwnerID room = p"
    and "2 \<le> length (get_or [] (uiRoomMembers s) rid)"
    and "create rid (map fst (get_or [] (uiRoomMembers s) rid)) = Some out"
  using assms by (auto simp: ui_start_begin_def Let_def split: if_splits option.splits)

text \<open>
  A poll between the halves. The room service has set the room playing before the second half runs;
  a \<open>GET /api/lobby/room\<close> that comes in between copies that into the cache, and the second half then
  answers \<open>already_started\<close> with no game, no address and no ticket made.
\<close>

lemma poll_loses_start:
  assumes "roomItemFromRemote rm = Some room" and "riState room = UiPlaying" and "riRoomID room = rid"
  shows "ui_start_commit clk draws (p, rid, out) (syncRoomCacheFromRemote room rm s)
      = (already_started room, syncRoomCacheFromRemote room rm s)
    \<and> uiGameStates (syncRoomCacheFromRemote room rm s) = uiGameStates s
    \<and> uiRoomTickets (syncRoomCacheFromRemote room rm s) = uiRoomTickets s
    \<and> uiRoomGameAddr (syncRoomCacheFromRemote room rm s) = uiRoomGameAddr s"
proof -
  have keep: "uiRooms (foldl cache s0 ps) = uiRooms s0 \<and> uiGameStates (foldl cache s0 ps) = uiGameStates s0
      \<and> uiRoomTickets (foldl cache s0 ps) = uiRoomTickets s0 \<and> uiRoomGameAddr (foldl cache s0 ps) = uiRoomGameAddr s0"
    if "cache = cache_member rid" for cache s0 ps
    using that by (induction ps arbitrary: s0) (simp_all add: cache_member_def)
  show ?thesis using assms keep[OF refl] by (simp add: ui_start_commit_def syncRoomCacheFromRemote_def Let_def)
qed

text \<open>The second half when a member has no ticket, or the one that starts has none.\<close>

lemma start_commit_refused:
  assumes room: "mget (uiRooms s) rid = Some room" "riState room \<noteq> UiPlaying"
    and two: "2 \<le> length (get_or [] (uiRoomMembers s) rid)"
    and ts: "session_tickets out = Some ts" and bad: "get_or '''' ts p = '''' \<or> \<not> tickets_ready (get_or [] (uiRoomMembers s) rid) (Some ts)"
  shows "\<exists>s'. ui_start_commit clk draws (p, rid, out) s = (HttpError 502 ''invalid game session response'', s') \<and> game_off rid s'"
proof -
  obtain answer s' where run: "ui_start_commit clk draws (p, rid, out) s = (answer, s')" by fastforce
  then show ?thesis
    using room two ts bad by (auto simp: ui_start_commit_def Let_def game_off_def drop_game_def ui_set_state_def)
qed

text \<open>
  C38: The lobby and the game service together start a game that can be played, with whatever
  happens between the two locked halves of the request. Say the owner's request passed the first half
  on one state, where the game service, with a configured address and tickets drawn from at
  least one byte, made the session for the members of that state, and the second half runs on any
  state. If the room is cached there, is not playing and has two members or more, all of them
  members the session was made for, as the owner is, the lobby answers with success, the
  game is on for these members, and at every later state of the game service that still has the
  tickets of the session, the ticket the lobby keeps for a member opens that member's game connection.
  If a member or the owner is not one of those the session was made for, the answer is an error and
  nothing of a game is left. If the room is gone or has lost its members, the state stays and
  the answer is an error. And if a poll has meanwhile found the room playing, the answer is
  \<open>already_started\<close> and no game is made.
\<close>

theorem lobby_start_opens_game:
  fixes s0 s :: ui_server and g :: game_server and rq :: ui_request and clk :: "nat \<Rightarrow> int" and draws :: "string \<Rightarrow> seat_draws"
    and ms :: int and gdraws :: "nat \<Rightarrow> player_draws"
  defines "asked \<equiv> get_or [] (uiRoomMembers s0) (uqRoomID rq)" and "members \<equiv> get_or [] (uiRoomMembers s) (uqRoomID rq)"
  defines "reply \<equiv> (\<lambda>started. ui_start_commit clk draws started s)"
  defines "g1 \<equiv> game_service_after ms gdraws g (session_request (uqRoomID rq) (map fst asked))"
  assumes begun: "ui_start_begin call (gameclient_CreateSession (game_service ms gdraws g)) rq s0 = Inr started"
    and named: "\<not> mhas asked ''''" and addr: "gsPublicWSAddr g \<noteq> ''''" and drawn: "\<forall>i. dTicket (gdraws i) \<noteq> []"
  shows "(case mget (uiRooms s) (uqRoomID rq) of
       None \<Rightarrow> reply started = (HttpError 404 ''room not found'', s)
     | Some room \<Rightarrow>
       if riState room = UiPlaying then reply started = (already_started room, s)
       else if length members < 2 then reply started = (HttpError 409 ''room members changed'', s)
       else if mhas asked (TrimSpace (uqPlayer rq)) \<and> (\<forall>(q, u) \<in> set members. mhas asked q)
       then (\<exists>v s'. reply started = (HttpJson v, s') \<and> game_on (uqRoomID rq) (clk 1) members s' \<and> others_same (uqRoomID rq) s s'
          \<and> (\<forall>q query verify conn now g' ss. mhas members q
              \<longrightarrow> mget (gsSessions g') (uqRoomID rq) = Some ss
              \<longrightarrow> ssTickets ss = ssTickets (the (mget (gsSessions g1) (uqRoomID rq)))
              \<longrightarrow> TrimSpace (query ''room_id'') = uqRoomID rq \<longrightarrow> TrimSpace (query ''player_id'') = q
              \<longrightarrow> TrimSpace (query ''ticket'') = ui_ticket (uqRoomID rq) q s' \<longrightarrow> TrimSpace (query ''token'') \<noteq> ''''
              \<longrightarrow> verifyToken verify (TrimSpace (query ''token'')) q
              \<longrightarrow> fst (handleWSGame verify now query (Some conn) g') = Attached))
       else (\<exists>s'. reply started = (HttpError 502 ''invalid game session response'', s') \<and> game_off (uqRoomID rq) s'))"
proof -
  obtain p rid out where st: "started = (p, rid, out)" by (rule prod_cases3)
  note chk = start_begin_checked[OF begun[unfolded st]]
  have rid: "uqRoomID rq = rid" "TrimSpace (uqPlayer rq) = p" using chk(1,2) by simp_all
  have mem: "asked = get_or [] (uiRoomMembers s0) rid" "members = get_or [] (uiRoomMembers s) rid" by (simp_all add: asked_def members_def rid)
  have keys: "mhas asked q \<longleftrightarrow> q \<in> set (map fst asked)" for q by (simp add: mhas_def wf_map_key_mem del: set_map)
  define new where "new = new_session ms gdraws rid (map fst asked)"
  have ne: "map fst asked \<noteq> []" using chk(6) by (auto simp: mem)
  have named': "'''' \<notin> set (map fst asked)" using named keys by blast
  note create = service_session[OF chk(4) ne named', of ms gdraws g]
  have out: "out = [(''room_id'', JStr rid), (''game_addr'', JStr (gsPublicWSAddr g)), (''tickets'', JObj (map (\<lambda>(p, t). (p, JStr t)) (snd new)))]"
    using chk(7) by (simp add: gameclient_CreateSession_def game_service_def create flip: mem) (simp add: new_def)
  note tk = new_session_tickets[of ms gdraws rid "map fst asked", folded new_def]
  have ticket: "get_or '''' (snd new) q \<noteq> '''' \<and> TrimSpace (get_or '''' (snd new) q) = get_or '''' (snd new) q
      \<and> get_or '''' (ssTickets (fst new)) q = get_or '''' (snd new) q" if "mhas asked q" for q
    unfolding new_def using new_session_ticket[OF drawn] that keys by blast
  have noticket: "get_or '''' (snd new) q = ''''" if "\<not> mhas asked q" for q
  proof -
    have "\<not> mhas (snd new) q" using tk that keys by blast
    then show ?thesis by (cases "mget (snd new) q") (simp_all add: get_or_def mhas_def)
  qed
  have trims: "TrimSpace '''' = ''''" by code_simp
  have ready: "tickets_ready members (Some (snd new)) \<longleftrightarrow> (\<forall>(q, u) \<in> set members. mhas asked q)"
    using ticket noticket trims by (fastforce simp: tickets_ready_def list_all_iff)
  have ts: "session_tickets out = Some (snd new)" by (rule session_tickets_of) (simp add: out)
  have a: "as_string (jget out ''game_addr'') \<noteq> ''''" using addr by (simp add: out)
  have g1: "the (mget (gsSessions g1) rid) = fst new"
    by (simp add: g1_def rid game_service_after_def create new_def)
  show ?thesis
  proof (cases "mget (uiRooms s) rid")
    case None
    then show ?thesis by (simp add: rid reply_def st ui_start_commit_def)
  next
    case (Some room)
    show ?thesis
    proof (cases "riState room = UiPlaying \<or> length members < 2")
      case True
      then show ?thesis using Some by (auto simp: rid reply_def st ui_start_commit_def mem Let_def)
    next
      case False
      then have room: "riState room \<noteq> UiPlaying" "2 \<le> length members" by auto
      show ?thesis
      proof (cases "mhas asked p \<and> (\<forall>(q, u) \<in> set members. mhas asked q)")
        case ok: True
        then have "get_or '''' (snd new) p \<noteq> ''''" "tickets_ready members (Some (snd new))" using ticket ready by blast+
        then obtain v s' where commit: "ui_start_commit clk draws (p, rid, out) s = (HttpJson v, s')" "game_on rid (clk 1) members s'"
          "others_same rid s s'" "\<forall>q. ui_ticket rid q s' = get_or '''' (snd new) q"
          using start_commit_cases[OF Some room(1) room(2)[unfolded mem] a ts, of p clk draws, folded mem] by blast
        have "fst (handleWSGame verify now query (Some conn) g') = Attached"
          if "mhas members q" "mget (gsSessions g') rid = Some ss" "ssTickets ss = ssTickets (fst new)"
            "TrimSpace (query ''room_id'') = rid" "TrimSpace (query ''player_id'') = q"
            "TrimSpace (query ''ticket'') = ui_ticket rid q s'" "TrimSpace (query ''token'') \<noteq> ''''"
            "verifyToken verify (TrimSpace (query ''token'')) q" for q query verify conn now g' ss
        proof -
          have q: "mhas asked q" using that(1) ok by (auto simp: mhas_def dest!: mget_mem)
          then have "q \<noteq> ''''" using named by blast
          then show ?thesis using that(2-) ticket[OF q] commit(4) chk(4) by (simp add: handleWSGame_def Let_def)
        qed
        then show ?thesis using Some room ok commit(1-3) by (auto simp: rid reply_def st g1)
      next
        case bad: False
        then have "get_or '''' (snd new) p = '''' \<or> \<not> tickets_ready members (Some (snd new))" using noticket ready by blast
        from start_commit_refused[OF Some room(1) room(2)[unfolded mem] ts this[unfolded mem], of clk draws]
        show ?thesis using Some room bad by (auto simp: rid reply_def st)
      qed
    qed
  qed
qed

subsection \<open>A lobby with one room\<close>

definition duo :: ui_server where
  "duo = ui_New\<lparr>uiRooms := [(''r1'', \<lparr>riRoomID = ''r1'', riName = ''n'', riOwnerID = ''ann'', riState = UiWaiting,
       riWinnerID = '''', riPlayerCnt = 2, riMaxPlayers = 2\<rparr>)],
     uiPlayerRoom := [(''ann'', ''r1''), (''bob'', ''r1'')], uiRoomMembers := [(''r1'', [(''ann'', ()), (''bob'', ())])]\<rparr>"

definition asks :: "string \<Rightarrow> ui_request" where
  "asks p = \<lparr>uqMethod = ''POST'', uqPlayer = p, uqQuery = (\<lambda>_. ''''), uqDecoded = True, uqUsername = '''', uqPassword = '''',
     uqName = ''n'', uqMax = 2, uqRoomID = ''r1'', uqPlayerID = '''', uqAngle = Flt 0\<rparr>"

definition one_seat :: seat_draws where
  "one_seat = \<lparr>sdCurrent = 0, sdNext = 1, sdCoin = (\<lambda>r c. Flt 1), sdPick = (\<lambda>r c. 0), sdTicket = [0]\<rparr>"

definition one_byte :: "nat \<Rightarrow> player_draws" where
  "one_byte i = \<lparr>dCurrent = 0, dNext = 1, dCoin = (\<lambda>r c. Flt 1), dPick = (\<lambda>r c. 0), dTicket = [of_nat i]\<rparr>"

lemma lobby_trims: "TrimSpace ''ann'' = ''ann''" "TrimSpace ''bob'' = ''bob''" "TrimSpace ''r1'' = ''r1''" "TrimSpace ''01'' = ''01''" "TrimSpace ''t'' = ''t''"
  by code_simp+

theorem lobby_reachable_ok_witness: "ui_ok (snd (ui_handleLeaveRoom (\<lambda>_. False) (\<lambda>_. 0) (asks ''ann'') (ui_handleLobbyWS (Some 4) ui_New)))"
proof -
  have "ui_reachable (\<lambda>_. Flt 0) (\<lambda>_. Flt 0) (ui_handleLobbyWS (Some 4) ui_New)" by (rule ui_reachable.step[OF ui_reachable.new ui_step.lobby])
  then have "ui_reachable (\<lambda>_. Flt 0) (\<lambda>_. Flt 0) (snd (ui_handleLeaveRoom (\<lambda>_. False) (\<lambda>_. 0) (asks ''ann'') (ui_handleLobbyWS (Some 4) ui_New)))"
    by (rule ui_reachable.step) (rule ui_step.leave)
  then show ?thesis by (rule lobby_reachable_ok) (rule trig_zero)
qed

theorem lobby_mirrors_rooms_witness:
  "\<exists>r. mget (mgRooms (room_service_after 5 0 0 (NewManager 0) (room_request ''ann'' RoomMsgCreateRoom
       [(''name'', JStr ''n''), (''capacity'', jint 2)]))) (FormatInt 5) = Some r
     \<and> ''ann'' \<in> room_members r
     \<and> mirrors (snd (ui_createRoom (roomclient_Call (room_service 5 0 0 (NewManager 0))) (\<lambda>_. False) 0 (asks ''ann'') ui_New)) r"
proof -
  let ?call = "roomclient_Call (room_service 5 0 0 (NewManager 0))"
  have "wf_manager (NewManager 0)" "mget (mgRooms (NewManager 0)) (FormatInt 5) = None"
    "\<forall>k r. mget (mgRooms (NewManager 0)) k = Some r \<longrightarrow> rMaxPlayers r < 2 ^ 53"
    by (simp_all add: wf_manager_new) (simp_all add: NewManager_def)
  note all = lobby_mirrors_rooms[OF this, of 0 0 "\<lambda>_. False" 0 "asks ''ann''" ui_New]
  obtain a s' where run: "ui_createRoom ?call (\<lambda>_. False) 0 (asks ''ann'') ui_New = (a, s')" by fastforce
  have h: "HandleGatewayMessage 5 0 0 (Some (room_request ''ann'' RoomMsgCreateRoom [(''name'', JStr ''n''), (''capacity'', jint 2)])) (NewManager 0)
      = Some (room_answer (CreateRoom 5 ''ann'' ''n'' 2 (NewManager 0)))" by (rule service_create) simp_all
  obtain r m' where cr: "CreateRoom 5 ''ann'' ''n'' 2 (NewManager 0) = (Inr r, m')"
    by (simp add: CreateRoom_def NewManager_def mhas_def Let_def)
  have "wf_core (FormatInt 5) r"
    using wf_manager_room[OF wf_CreateRoom[OF \<open>wf_manager _\<close> \<open>_ = None\<close>, of "''ann''" "''n''" 2], of "FormatInt 5" r]
      CreateRoom_done(1)[OF cr] cr wf_room_core by simp
  then have core: "wf_core (rID r) r" "rID r \<noteq> ''''" by (auto simp: wf_core_def)
  have "rMaxPlayers r < 2 ^ 53" using CreateRoom_done(3)[OF cr] by simp
  from accept_mirrors[OF core this, of "\<lambda>_. False" 0 "''create room failed''" "''created_and_joined''" "''ann''" ui_New]
  have "\<exists>v. a = HttpJson v"
    using run h cr by (auto simp: ui_createRoom_def asks_def lobby_trims roomclient_Call_def room_service_def clamp_max_def room_answer_def Let_def)
  then show ?thesis using all run by (auto simp: asks_def lobby_trims clamp_max_def)
qed

definition good_session :: jobj where
  "good_session = [(''game_addr'', JStr ''g''), (''tickets'', JObj [(''ann'', JStr ''01''), (''bob'', JStr ''t'')])]"

theorem start_game_all_or_nothing_witness:
  "\<exists>v s'. ui_start_commit (\<lambda>_. 0) (\<lambda>_. one_seat) (''ann'', ''r1'', good_session) duo = (HttpJson v, s')
     \<and> others_same ''r1'' duo s' \<and> game_on ''r1'' 0 [(''ann'', ()), (''bob'', ())] s'"
proof -
  obtain a s' where run: "ui_start_commit (\<lambda>_. 0) (\<lambda>_. one_seat) (''ann'', ''r1'', good_session) duo = (a, s')" by fastforce
  have ms: "get_or [] (uiRoomMembers duo) ''r1'' = [(''ann'', ()), (''bob'', ())]" by (simp add: duo_def ui_New_def get_or_def)
  have "tickets_ready [(''ann'', ()), (''bob'', ())] (session_tickets good_session)" "as_string (jget good_session ''game_addr'') = ''g''"
    "session_tickets good_session = Some [(''ann'', ''01''), (''bob'', ''t'')]"
    by (simp_all add: tickets_ready_def session_tickets_def good_session_def get_or_def map_filter_simps lobby_trims)
  then obtain v where a: "a = HttpJson v"
    using run ms by (auto simp: ui_start_commit_def duo_def ui_New_def get_or_def Let_def)
  have "s' \<noteq> duo"
  proof
    assume "s' = duo"
    then show False
      using run ms \<open>session_tickets good_session = _\<close> \<open>as_string _ = _\<close> \<open>tickets_ready _ _\<close>
      by (auto simp: ui_start_commit_def duo_def ui_New_def get_or_def Let_def ui_set_state_def broadcastRoomEvent_def)
  qed
  then show ?thesis using start_game_all_or_nothing[OF run] run a ms by auto
qed

theorem lobby_start_opens_game_witness:
  "\<exists>v s'. ui_start_commit (\<lambda>_. 0) (\<lambda>_. one_seat) (''ann'', ''r1'', the (gameclient_CreateSession (game_service 0 (\<lambda>_. one_byte 1)
       (new_game_server 0 ''g'' 0)) ''r1'' [''ann'', ''bob''])) duo = (HttpJson v, s')
     \<and> game_on ''r1'' 0 [(''ann'', ()), (''bob'', ())] s'"
proof -
  let ?g = "new_game_server 0 ''g'' 0" and ?draws = "\<lambda>_. one_byte 1"
  have ms: "get_or [] (uiRoomMembers duo) ''r1'' = [(''ann'', ()), (''bob'', ())]" by (simp add: duo_def ui_New_def get_or_def)
  obtain out where out: "gameclient_CreateSession (game_service 0 ?draws ?g) ''r1'' [''ann'', ''bob''] = Some out"
    using service_session[of "''r1''" "[''ann'', ''bob'']" 0 ?draws ?g] by (simp add: gameclient_CreateSession_def game_service_def)
  have code: "is_code_0 [(''code'', jint 0)]" using int_received[of 0] by (simp add: is_code_0_def del: to_int.simps)
  have begun: "ui_start_begin (\<lambda>p msg body. Some [(''code'', jint 0)]) (gameclient_CreateSession (game_service 0 ?draws ?g)) (asks ''ann'') duo
      = Inr (''ann'', ''r1'', out)"
    using out code ms by (simp add: ui_start_begin_def asks_def lobby_trims Let_def) (simp add: duo_def ui_New_def)
  have id: "uqRoomID (asks ''ann'') = ''r1''" "uqPlayer (asks ''ann'') = ''ann''" by (simp_all add: asks_def)
  have named: "\<not> mhas (get_or [] (uiRoomMembers duo) (uqRoomID (asks ''ann''))) ''''" by (simp add: id ms mhas_def)
  have "gsPublicWSAddr ?g \<noteq> ''''" "\<forall>i. dTicket (?draws i) \<noteq> []" by (simp_all add: new_game_server_def one_byte_def)
  note all = lobby_start_opens_game[OF begun named this, where s = duo and clk = "\<lambda>_. 0" and draws = "\<lambda>_. one_seat", unfolded id ms lobby_trims]
  have "\<exists>room. mget (uiRooms duo) ''r1'' = Some room \<and> riState room \<noteq> UiPlaying" by (simp add: duo_def)
  then show ?thesis using all unfolding out option.sel by (auto simp: mhas_def)
qed

text \<open>
  What synchronising does not do: a player the room service has put out of the room is no member any
  more, but stays registered in it, so the checks of the game requests still let the player in.
\<close>

lemma sync_keeps_old_player:
  assumes "mget (uiPlayerRoom s) p = Some (riRoomID room)" and "p \<notin> set (remote_players rm)"
  shows "mget (uiPlayerRoom (syncRoomCacheFromRemote room rm s)) p = Some (riRoomID room)
     \<and> \<not> mhas (get_or [] (uiRoomMembers (syncRoomCacheFromRemote room rm s)) (riRoomID room)) p"
proof -
  define s0 where "s0 = s\<lparr>uiRooms := mput (riRoomID room) room (uiRooms s), uiRoomMembers := mput (riRoomID room) [] (uiRoomMembers s)\<rparr>"
  have m0: "mget (uiRoomMembers s0) (riRoomID room) = Some []" by (simp add: s0_def)
  note f = cache_members[OF m0, where ps = "remote_players rm"]
  have eq: "syncRoomCacheFromRemote room rm s = foldl (cache_member (riRoomID room)) s0 (remote_players rm)"
    by (simp add: syncRoomCacheFromRemote_def s0_def)
  have "mget (uiPlayerRoom s0) p = Some (riRoomID room)" using assms(1) by (simp add: s0_def)
  then show ?thesis using f(2,4) assms(2) by (simp add: eq get_or_def mhas_members_fold) (simp add: mhas_def)
qed

end
