(* ===== verification/Push.thy ===== *)
theory Push
  imports Gateway
begin

text \<open>
  The push service of the gateway: \<open>internal/pushgrpc/server.go\<close>, with the two operations of
  \<open>internal/gateway/tcp_gateway.go\<close> about the whole node. \<open>json\<close> is the JSON encoder, an error text or
  the bytes; \<open>ioerr\<close> is the text of the last error of a write. A nil request is \<open>None\<close>.
\<close>

subsection \<open>The node\<close>

text \<open>\<open>Stop\<close>, once the listeners are closed: every connection is closed, the websockets are forgotten.\<close>

definition gw_Stop :: "gateway \<Rightarrow> gateway" where
  "gw_Stop g =
     g\<lparr>gwClosedConns := gwSessions g @ gwClosedConns g, gwWSClosed := map snd (gwWSByPlayer g) @ gwWSClosed g,
       gwWSByPlayer := [], gwWSToken := []\<rparr>"

definition SnapshotNodeInfo :: "string \<Rightarrow> string \<Rightarrow> int \<Rightarrow> gateway \<Rightarrow> jobj" where
  "SnapshotNodeInfo listenTCP listenWS nowUnix g =
     [(''online_count'', jint (int (OnlineCount g))), (''listen_tcp'', JStr listenTCP), (''listen_ws'', JStr listenWS),
      (''now_unix'', JStr (FormatInt nowUnix))]"

subsection \<open>Reading a request\<close>

definition push_getString :: "jobj option \<Rightarrow> string \<Rightarrow> string" where
  "push_getString req key = (case req of None \<Rightarrow> '''' | Some m \<Rightarrow> as_string (jget m key))"

definition push_number :: "(float64 \<Rightarrow> bool) \<Rightarrow> jobj option \<Rightarrow> string \<Rightarrow> string + float64" where
  "push_number bad req key =
     (case req of
        None \<Rightarrow> Inl ''nil request''
      | Some m \<Rightarrow>
        (case map_of m key of
           None \<Rightarrow> Inl (''missing '' @ key)
         | Some (JNum n) \<Rightarrow> if bad n then Inl (''invalid '' @ key) else Inr n
         | Some _ \<Rightarrow> Inl (''invalid '' @ key)))"

definition getUint16 :: "jobj option \<Rightarrow> string \<Rightarrow> string + 16 word" where
  "getUint16 req key =
     (case push_number (\<lambda>n. n < Flt 0 \<or> n > Flt 65535) req key of
        Inl err \<Rightarrow> Inl err
      | Inr n \<Rightarrow> Inr (word_of_int (to_int n)))"

definition getUint64 :: "jobj option \<Rightarrow> string \<Rightarrow> string + 64 word" where
  "getUint64 req key =
     (case push_number (\<lambda>n. n < Flt 0) req key of
        Inl err \<Rightarrow> Inl err
      | Inr n \<Rightarrow> Inr (to_uint64 n))"

definition getPayloadJSON :: "(jval \<Rightarrow> string + byte list) \<Rightarrow> jobj option \<Rightarrow> string \<Rightarrow> string + byte list" where
  "getPayloadJSON json req key =
     (case req of
        None \<Rightarrow> Inr (text_bytes ''{}'')
      | Some m \<Rightarrow> (case map_of m key of None \<Rightarrow> Inr (text_bytes ''{}'') | Some v \<Rightarrow> json v))"

subsection \<open>The operations\<close>

definition push_result :: "string \<Rightarrow> nat \<Rightarrow> bool \<Rightarrow> jval" where
  "push_result errtext n failed =
     (if failed then mapResp 500 errtext [(''pushed'', jint (int n))] else mapResp 0 ''ok'' [(''pushed'', jint (int n))])"

definition push_PushToPlayer ::
  "(jval \<Rightarrow> string + byte list) \<Rightarrow> string \<Rightarrow> gw_services \<Rightarrow> (nat \<Rightarrow> bool) \<Rightarrow> (nat \<Rightarrow> bool) \<Rightarrow> 32 word \<Rightarrow> jobj option \<Rightarrow> gateway
     \<Rightarrow> jval \<times> gateway" where
  "push_PushToPlayer json ioerr sv io wsio seq req g =
     (case getUint16 req ''cmd'' of
        Inl err \<Rightarrow> (mapResp 400 err [], g)
      | Inr cmd \<Rightarrow>
        (case getPayloadJSON json req ''payload'' of
           Inl err \<Rightarrow> (mapResp 400 err [], g)
         | Inr payload \<Rightarrow>
           (case PushToPlayer sv io wsio seq (push_getString req ''player_id'') cmd payload g of
              (None, g') \<Rightarrow> (push_result ''empty player_id'' 0 True, g')
            | (Some (n, failed), g') \<Rightarrow> (push_result ioerr n failed, g'))))"

definition push_PushToSession ::
  "(jval \<Rightarrow> string + byte list) \<Rightarrow> string \<Rightarrow> (nat \<Rightarrow> bool) \<Rightarrow> 32 word \<Rightarrow> jobj option \<Rightarrow> gateway \<Rightarrow> jval \<times> gateway" where
  "push_PushToSession json ioerr io seq req g =
     (case getUint64 req ''session_id'' of
        Inl err \<Rightarrow> (mapResp 400 err [], g)
      | Inr sid \<Rightarrow>
        (case getUint16 req ''cmd'' of
           Inl err \<Rightarrow> (mapResp 400 err [], g)
         | Inr cmd \<Rightarrow>
           (case getPayloadJSON json req ''payload'' of
              Inl err \<Rightarrow> (mapResp 400 err [], g)
            | Inr payload \<Rightarrow>
              (case PushToSession io seq (unat sid) cmd payload g of
                 (None, g') \<Rightarrow> (mapResp 404 ''session not found'' [], g')
               | (Some True, g') \<Rightarrow> (mapResp 404 ioerr [], g')
               | (Some False, g') \<Rightarrow> (mapResp 0 ''ok'' [], g')))))"

definition push_PushToAll ::
  "(jval \<Rightarrow> string + byte list) \<Rightarrow> string \<Rightarrow> gw_services \<Rightarrow> (nat \<Rightarrow> bool) \<Rightarrow> (nat \<Rightarrow> bool) \<Rightarrow> 32 word \<Rightarrow> jobj option \<Rightarrow> gateway
     \<Rightarrow> jval \<times> gateway" where
  "push_PushToAll json ioerr sv io wsio seq req g =
     (case getUint16 req ''cmd'' of
        Inl err \<Rightarrow> (mapResp 400 err [], g)
      | Inr cmd \<Rightarrow>
        (case getPayloadJSON json req ''payload'' of
           Inl err \<Rightarrow> (mapResp 400 err [], g)
         | Inr payload \<Rightarrow>
           (case PushToAll sv io wsio seq cmd payload g of ((n, failed), g') \<Rightarrow> (push_result ioerr n failed, g'))))"

definition GetNodeInfo :: "string \<Rightarrow> string \<Rightarrow> string \<Rightarrow> int \<Rightarrow> string \<Rightarrow> gateway \<Rightarrow> jval" where
  "GetNodeInfo listenTCP listenWS listenGRPC nowUnix serverTime g =
     mapResp 0 ''ok'' (SnapshotNodeInfo listenTCP listenWS nowUnix g
       @ [(''grpc_listen'', JStr listenGRPC), (''server_time'', JStr serverTime)])"

subsection \<open>The handlers of the four methods\<close>

text \<open>
  A handler decodes the request (\<open>None\<close> for an error) and calls the operation, through the
  interceptor if there is one, which gets the full name of the method.
\<close>

type_synonym 'r interceptor = "string \<Rightarrow> (jobj \<Rightarrow> 'r) \<Rightarrow> jobj \<Rightarrow> 'r option"

definition unary_handler :: "string \<Rightarrow> (jobj \<Rightarrow> 'r) \<Rightarrow> jobj option \<Rightarrow> 'r interceptor option \<Rightarrow> 'r option" where
  "unary_handler fullMethod operation decoded interceptor =
     (case decoded of
        None \<Rightarrow> None
      | Some m \<Rightarrow>
        (case interceptor of
           None \<Rightarrow> Some (operation m)
         | Some ic \<Rightarrow> ic fullMethod operation m))"

definition pushToPlayerHandler :: "(jobj \<Rightarrow> 'r) \<Rightarrow> jobj option \<Rightarrow> 'r interceptor option \<Rightarrow> 'r option" where
  "pushToPlayerHandler = unary_handler ''/gateway.GatewayPushService/PushToPlayer''"

definition pushToSessionHandler :: "(jobj \<Rightarrow> 'r) \<Rightarrow> jobj option \<Rightarrow> 'r interceptor option \<Rightarrow> 'r option" where
  "pushToSessionHandler = unary_handler ''/gateway.GatewayPushService/PushToSession''"

definition pushToAllHandler :: "(jobj \<Rightarrow> 'r) \<Rightarrow> jobj option \<Rightarrow> 'r interceptor option \<Rightarrow> 'r option" where
  "pushToAllHandler = unary_handler ''/gateway.GatewayPushService/PushToAll''"

definition getNodeInfoHandler :: "(jobj \<Rightarrow> 'r) \<Rightarrow> jobj option \<Rightarrow> 'r interceptor option \<Rightarrow> 'r option" where
  "getNodeInfoHandler = unary_handler ''/gateway.GatewayPushService/GetNodeInfo''"

end
