(* ===== verification/PushSpec.thy ===== *)
theory PushSpec
  imports Push GatewaySpec Clients
begin

text \<open>
  The properties of the push service (\<open>internal/pushgrpc/server.go\<close>): what it refuses, and the way of
  the news of the lobby (\<open>internal/ui/server.go\<close>) through its client and the push service to the
  connections of the gateway.
\<close>

lemma cmd_in_range:
  assumes "0 \<le> n" and "n \<le> 65535"
  shows "getUint16 (Some ((''cmd'', jint n) # rest)) ''cmd'' = Inr (word_of_int n)"
proof -
  have i: "to_int (from_int n) = n" using assms by (intro int_received) auto
  have "from_int n = Flt (of_int n)" using assms by (intro from_int_exact) auto
  moreover have "(of_int n :: rat) \<le> of_int 65535" using assms(2) by (simp only: of_int_le_iff)
  ultimately have "\<not> from_int n < Flt 0" "\<not> from_int n > Flt 65535" using assms(1) by auto
  then show ?thesis using i by (simp add: getUint16_def push_number_def del: to_int.simps)
qed

lemma push_cmd_received: "getUint16 (Some ((''cmd'', jint (uint (c :: 16 word))) # rest)) ''cmd'' = Inr c"
proof -
  have "0 \<le> uint c" "uint c < 65536" using uint_bounded[of c] by simp_all
  then show ?thesis using cmd_in_range[of "uint c" rest] by simp
qed

text \<open>A request without a command in range is refused and nothing is sent.\<close>

lemma push_bad_command:
  assumes "getUint16 req ''cmd'' = Inl err"
  shows "push_PushToPlayer json ioerr sv io wsio seq req g = (mapResp 400 err [], g)"
    and "push_PushToAll json ioerr sv io wsio seq req g = (mapResp 400 err [], g)"
  using assms by (simp_all add: push_PushToPlayer_def push_PushToAll_def)

lemma push_session_unknown:
  assumes "getUint64 req ''session_id'' = Inr sid" and "getUint16 req ''cmd'' = Inr cmd"
    and "getPayloadJSON json req ''payload'' = Inr payload" and "unat sid \<notin> set (gwSessions g)"
  shows "push_PushToSession json ioerr io seq req g = (mapResp 404 ''session not found'' [], g)"
  using assms by (simp add: push_PushToSession_def PushToSession_def)

lemma gw_Stop_closes:
  "set (gwSessions g) \<subseteq> set (gwClosedConns (gw_Stop g))" "snd ` set (gwWSByPlayer g) \<subseteq> set (gwWSClosed (gw_Stop g))"
  "gwWSByPlayer (gw_Stop g) = []"
  by (auto simp: gw_Stop_def)

text \<open>The push service as the client of the lobby sees it, and the gateway after the call.\<close>

definition push_service ::
  "(jval \<Rightarrow> string + byte list) \<Rightarrow> string \<Rightarrow> gw_services \<Rightarrow> (nat \<Rightarrow> bool) \<Rightarrow> (nat \<Rightarrow> bool) \<Rightarrow> 32 word \<Rightarrow> gateway \<Rightarrow> invoke" where
  "push_service json ioerr sv io wsio seq g method req =
     (if method = ''/gateway.GatewayPushService/PushToAll''
      then pushToAllHandler (\<lambda>m. toMap (fst (push_PushToAll json ioerr sv io wsio seq (Some m) g))) (Some req) None else None)"

definition push_service_after ::
  "(jval \<Rightarrow> string + byte list) \<Rightarrow> string \<Rightarrow> gw_services \<Rightarrow> (nat \<Rightarrow> bool) \<Rightarrow> (nat \<Rightarrow> bool) \<Rightarrow> 32 word \<Rightarrow> gateway \<Rightarrow> jobj \<Rightarrow> gateway" where
  "push_service_after json ioerr sv io wsio seq g req = snd (push_PushToAll json ioerr sv io wsio seq (Some req) g)"

definition push_all_request :: "16 word \<Rightarrow> jobj \<Rightarrow> jobj" where
  "push_all_request cmd payload = [(''cmd'', jint (uint cmd)), (''payload'', JObj payload)]"

text \<open>
  C28: News of the lobby reach the players at the gateway. Whenever the lobby tells that a room has
  changed, the call it makes is encoded as JSON and written once, as a server push, to every indexed
  session whose connection accepts it, in the order of the index, and to no other; and, decoded
  again, the news itself is written once to every live lobby websocket, and to no other, whatever
  fails in between. Dead lobby websockets are forgotten, the sessions stay as they are, and the
  answer gives the number of messages written, with code 500 exactly when one could not be.
\<close>

theorem lobby_news_delivered:
  fixes g :: gateway and seq :: "32 word" and io wsio :: "nat \<Rightarrow> bool" and sv :: gw_services and ioerr :: string
  assumes news: "uiPushed (notifyLobbyRoomsUpdated lio now p rid s) = uiPushed s @ [JObj evt]"
    and coded: "json (JObj evt) = Inr bytes" "bytes \<noteq> []" and decoded: "svUnmarshal sv bytes = Some (JObj evt)"
  defines "g' \<equiv> push_service_after json ioerr sv io wsio seq g (push_all_request CmdServerPush evt)"
    and "pkt \<equiv> reply CmdServerPush seq bytes"
  shows "gwOut g' = gwOut g @ map (\<lambda>e. (snd e, pkt)) (filter (\<lambda>e. deliverable io pkt g (snd e)) (gwPlayerIndex g))
     \<and> gwWSOut g' = gwWSOut g @ map (\<lambda>e. (snd e, JObj evt)) (filter (\<lambda>e. ws_alive wsio g (snd e)) (gwWSByPlayer g))
     \<and> (\<forall>(q, c) \<in> set (gwWSByPlayer g). \<not> ws_alive wsio g c \<longrightarrow> mget (gwWSByPlayer g') q = None)
     \<and> same_core g g'
     \<and> pushclient_PushToAll (push_service json ioerr sv io wsio seq g) CmdServerPush evt
         = Some (toMap (push_result ioerr
             (length (filter (\<lambda>e. deliverable io pkt g (snd e)) (gwPlayerIndex g))
                + length (filter (\<lambda>e. ws_alive wsio g (snd e)) (gwWSByPlayer g)))
             ((\<exists>e \<in> set (gwPlayerIndex g). \<not> deliverable io pkt g (snd e))
                \<or> (\<exists>e \<in> set (gwWSByPlayer g). \<not> ws_alive wsio g (snd e)))))"
proof -
  obtain n failed g1 where run: "PushToAll sv io wsio seq CmdServerPush bytes g = ((n, failed), g1)" by (metis prod.exhaust)
  have push: "push_PushToAll json ioerr sv io wsio seq (Some (push_all_request CmdServerPush evt)) g = (push_result ioerr n failed, g1)"
    using coded run by (simp add: push_PushToAll_def push_all_request_def push_cmd_received getPayloadJSON_def)
  then have g': "g' = g1" by (simp add: g'_def push_service_after_def)
  note eff = PushToAll_effect[OF run, folded pkt_def]
  have "ws_message sv CmdServerPush bytes = JObj evt" using coded(2) decoded by (simp add: ws_message_def)
  moreover have "pushclient_PushToAll (push_service json ioerr sv io wsio seq g) CmdServerPush evt = Some (toMap (push_result ioerr n failed))"
    using push by (simp add: pushclient_PushToAll_def push_service_def pushToAllHandler_def unary_handler_def push_all_request_def)
  ultimately show ?thesis using eff unfolding g' by simp
qed

text \<open>The lobby tells a gateway with one player online and another one at a lobby websocket.\<close>

definition news :: jobj where
  "news = [(''type'', JStr ''lobby_rooms_updated''), (''room_id'', JStr ''r1''), (''player_id'', JStr ''ann''), (''ts'', jint 0)]"

definition news_desk :: gw_services where
  "news_desk = desk\<lparr>svUnmarshal := (\<lambda>b. Some (JObj news))\<rparr>"

definition bob_watching :: gateway where
  "bob_watching = ann_online\<lparr>gwWSByPlayer := [(''bob'', 9)]\<rparr>"

theorem lobby_news_delivered_witness:
  "gwOut (push_service_after (\<lambda>v. Inr [7]) ''io'' news_desk (\<lambda>_. False) (\<lambda>_. False) 0 bob_watching (push_all_request CmdServerPush news))
     = gwOut ann_online @ [(1, reply CmdServerPush 0 [7])]
   \<and> gwWSOut (push_service_after (\<lambda>v. Inr [7]) ''io'' news_desk (\<lambda>_. False) (\<lambda>_. False) 0 bob_watching (push_all_request CmdServerPush news))
     = gwWSOut ann_online @ (if ws_alive (\<lambda>_. False) bob_watching 9 then [(9, JObj news)] else [])"
proof -
  have 1: "uiPushed (notifyLobbyRoomsUpdated (\<lambda>_. False) 0 ''ann'' ''r1'' ui_New) = uiPushed ui_New @ [JObj news]"
    by (simp add: notifyLobbyRoomsUpdated_def broadcastLobbyEvent_def lobby_event_def ui_New_def news_def unix_ms_def)
  have 2: "(\<lambda>v. Inr [7]) (JObj news) = (Inr [7] :: string + byte list)" "[7 :: byte] \<noteq> []" by simp_all
  have 3: "svUnmarshal news_desk [7] = Some (JObj news)" by (simp add: news_desk_def)
  show ?thesis
    using lobby_news_delivered[OF 1 2 3, of "''io''" "\<lambda>_. False" "\<lambda>_. False" 0 bob_watching]
    by (simp add: bob_watching_def ann_online_view deliverable_def fits_def reply_def)
qed

end
