(* ===== verification/Services.thy ===== *)
theory Services
  imports Push
begin

text \<open>
  Two small services: the router of game messages, \<open>internal/game/router.go\<close> with
  \<open>internal/game/builtin_handlers.go\<close>, and the stub that stands in for the lobby and the match
  service, \<open>internal/bizstub/server.go\<close>. A handler is a function of the session and the message; a nil
  handler is \<open>None\<close>.
\<close>

subsection \<open>The router\<close>

record session_view =
  svID :: "64 word"
  svPlayerID :: string

record game_message =
  gmModule :: string
  gmAction :: string
  gmBody :: jobj

record game_response =
  grCode :: int
  grMsg :: string
  grBody :: jobj

type_synonym game_handler = "session_view \<Rightarrow> game_message \<Rightarrow> string + game_response"
type_synonym router = "(string, game_handler) gomap"

definition NewRouter :: router where
  "NewRouter = []"

definition routeKey :: "string \<Rightarrow> string \<Rightarrow> string" where
  "routeKey md act = md @ ''/'' @ act"

definition Register :: "string \<Rightarrow> string \<Rightarrow> game_handler option \<Rightarrow> router \<Rightarrow> string + router" where
  "Register md act oh r =
     (case oh of
        None \<Rightarrow> Inl ''invalid handler registration''
      | Some h \<Rightarrow>
        if md = '''' \<or> act = '''' then Inl ''invalid handler registration''
        else if mhas r (routeKey md act) then Inl (''handler already exists: '' @ routeKey md act)
        else Inr (mput (routeKey md act) h r))"

definition router_Dispatch :: "session_view \<Rightarrow> game_message \<Rightarrow> router \<Rightarrow> string + game_response" where
  "router_Dispatch s msg r =
     (case mget r (routeKey (gmModule msg) (gmAction msg)) of
        None \<Rightarrow> Inr \<lparr>grCode = 404, grMsg = ''route_not_found'', grBody = []\<rparr>
      | Some h \<Rightarrow> h s msg)"

definition systemPing :: "int \<Rightarrow> game_handler" where
  "systemPing nowUnix s msg =
     Inr \<lparr>grCode = 0, grMsg = ''ok'', grBody = [(''player_id'', JStr (svPlayerID s)), (''ts'', jint nowUnix)]\<rparr>"

definition playerProfile :: game_handler where
  "playerProfile s msg =
     Inr \<lparr>grCode = 0, grMsg = ''ok'', grBody = [(''player_id'', JStr (svPlayerID s)),
       (''nickname'', JStr (''player_'' @ svPlayerID s)), (''level'', jint 1)]\<rparr>"

definition RegisterBuiltinHandlers :: "int \<Rightarrow> router \<Rightarrow> string option \<times> router" where
  "RegisterBuiltinHandlers nowUnix r =
     (case Register ''system'' ''ping'' (Some (systemPing nowUnix)) r of
        Inl err \<Rightarrow> (Some err, r)
      | Inr r1 \<Rightarrow>
        (case Register ''player'' ''profile'' (Some playerProfile) r1 of
           Inl err \<Rightarrow> (Some err, r1)
         | Inr r2 \<Rightarrow> (None, r2)))"

subsection \<open>What the router does\<close>

lemma Register_dispatch:
  assumes "Register md act (Some h) r = Inr r'"
  shows "gmModule msg = md \<Longrightarrow> gmAction msg = act \<Longrightarrow> router_Dispatch s msg r' = h s msg"
    and "routeKey (gmModule msg) (gmAction msg) \<noteq> routeKey md act \<Longrightarrow> router_Dispatch s msg r' = router_Dispatch s msg r"
  using assms by (auto simp: Register_def router_Dispatch_def split: if_splits)

lemma Register_twice: "Register md act oh r = Inr r' \<Longrightarrow> \<exists>err. Register md act oh' r' = Inl err"
  by (auto simp: Register_def mhas_def split: if_splits option.splits)

text \<open>
  The key forgets where the module ends: when no module has a slash, different routes have
  different keys; otherwise two routes can share one.
\<close>

lemma routeKey_inj: "CHR ''/'' \<notin> set m1 \<Longrightarrow> CHR ''/'' \<notin> set m2 \<Longrightarrow> routeKey m1 a1 = routeKey m2 a2 \<Longrightarrow> m1 = m2 \<and> a1 = a2"
proof (induction m1 arbitrary: m2)
  case Nil
  then show ?case by (cases m2) (auto simp: routeKey_def)
next
  case (Cons c m1)
  then show ?case by (cases m2) (auto simp: routeKey_def)
qed

lemma routeKey_shared: "routeKey ''a/b'' ''c'' = routeKey ''a'' ''b/c''"
  by (simp add: routeKey_def)

lemma builtin_routes:
  "RegisterBuiltinHandlers now NewRouter = (None, r) \<Longrightarrow>
     gmModule msg = ''player'' \<Longrightarrow> gmAction msg = ''profile'' \<Longrightarrow> router_Dispatch s msg r = playerProfile s msg"
  by (auto simp: RegisterBuiltinHandlers_def NewRouter_def Register_def mhas_def router_Dispatch_def routeKey_def)

subsection \<open>The stub\<close>

text \<open>The request is \<open>None\<close> for nil, which is an error; \<open>clock\<close> is the time as text.\<close>

definition stub_HandleGatewayMessage :: "string \<Rightarrow> string \<Rightarrow> jobj option \<Rightarrow> string + jval" where
  "stub_HandleGatewayMessage name clock req =
     (case req of
        None \<Rightarrow> Inl ''nil request''
      | Some m \<Rightarrow>
        Inr (mapResp 0 ''ok''
          [(''service'', JStr name), (''player_id'', JStr (as_string (jget m ''player_id''))),
           (''msg_id'', JNum (toFloat64 (jget m ''msg_id''))), (''echo'', JObj (toMap (jget m ''body''))),
           (''ts'', JStr clock)]))"

definition stub_handler :: "string \<Rightarrow> (jobj \<Rightarrow> 'r) \<Rightarrow> jobj option \<Rightarrow> 'r interceptor option \<Rightarrow> 'r option" where
  "stub_handler fullMethod = unary_handler fullMethod"

text \<open>The gateway's envelope comes back from the stub as it went out.\<close>

lemma stub_echoes:
  "stub_HandleGatewayMessage name clock
     (Some [(''player_id'', JStr p), (''msg_id'', JNum n), (''body'', JObj b)])
   = Inr (mapResp 0 ''ok'' [(''service'', JStr name), (''player_id'', JStr p), (''msg_id'', JNum n), (''echo'', JObj b), (''ts'', JStr clock)])"
  by (simp add: stub_HandleGatewayMessage_def)

end
