(* ===== verification/Config.thy ===== *)
theory Config
  imports GoText GoJson
begin

text \<open>
  The configuration of the gateway, \<open>internal/config/config.go\<close>, and the loading of a file,
  \<open>internal/jsoncfg/load.go\<close>, with what they use of Go's library: durations, log levels and the decoding of a
  JSON object into a struct. The file system and the JSON parser are arguments; a parsed file has its numbers as
  they are written.
\<close>

subsection \<open>Texts\<close>

text \<open>The text before the first byte that is not in a class, and the rest.\<close>

definition span :: "(char \<Rightarrow> bool) \<Rightarrow> string \<Rightarrow> string \<times> string" where
  "span P s = (takeWhile P s, dropWhile P s)"

definition is_digit :: "char \<Rightarrow> bool" where
  "is_digit c \<longleftrightarrow> 48 \<le> (of_char c :: nat) \<and> of_char c \<le> (57 :: nat)"

definition digit_val :: "char \<Rightarrow> nat" where
  "digit_val c = of_char c - 48"

definition ascii_upper :: "char \<Rightarrow> char" where
  "ascii_upper c = (if 97 \<le> (of_char c :: nat) \<and> of_char c \<le> (122 :: nat) then char_of ((of_char c :: nat) - 32) else c)"

text \<open>
  Case mappings, as far as a comparison with ASCII text can see them: letters, and the few
  characters outside ASCII that are mapped to one, as UTF-8.
\<close>

function upper_text :: "(string \<times> char) list \<Rightarrow> string \<Rightarrow> string" where
  "upper_text sp [] = []"
| "upper_text sp (c # s) =
     (case find (\<lambda>(w, u). take (length w) (c # s) = w) sp of
        Some (w, u) \<Rightarrow> u # upper_text sp (drop (length w - 1) s)
      | None \<Rightarrow> ascii_upper c # upper_text sp s)"
  by pat_completeness auto

termination by (relation "measure (\<lambda>(sp, s). length s)") auto

text \<open>\<open>strings.ToUpper\<close> maps the dotless i and the long s, \<open>foldName\<close> of \<open>encoding/json\<close> the long s and the Kelvin sign.\<close>

definition ToUpper :: "string \<Rightarrow> string" where
  "ToUpper = upper_text [([CHR 0xC4, CHR 0xB1], CHR ''I''), ([CHR 0xC5, CHR 0xBF], CHR ''S'')]"

definition foldName :: "string \<Rightarrow> string" where
  "foldName = upper_text [([CHR 0xC5, CHR 0xBF], CHR ''S''), ([CHR 0xE2, CHR 0x84, CHR 0xAA], CHR ''K'')]"

subsection \<open>time.ParseDuration\<close>

text \<open>Durations are counted in \<open>uint64\<close>: sums are taken modulo two to the 64.\<close>

definition u64 :: "nat \<Rightarrow> nat" where
  "u64 n = n mod 2 ^ 64"

fun leadingInt :: "nat \<Rightarrow> string \<Rightarrow> (nat \<times> string) option" where
  "leadingInt x [] = Some (x, [])"
| "leadingInt x (c # s) =
     (if \<not> is_digit c then Some (x, c # s)
      else if x > 2 ^ 63 div 10 then None
      else (let x' = u64 (x * 10 + digit_val c) in if x' > 2 ^ 63 then None else leadingInt x' s))"

fun leadingFraction :: "nat \<Rightarrow> float64 \<Rightarrow> bool \<Rightarrow> string \<Rightarrow> nat \<times> float64 \<times> string" where
  "leadingFraction x scale overflow [] = (x, scale, [])"
| "leadingFraction x scale overflow (c # s) =
     (if \<not> is_digit c then (x, scale, c # s)
      else if overflow then leadingFraction x scale True s
      else if x > (2 ^ 63 - 1) div 10 then leadingFraction x scale True s
      else (let y = u64 (x * 10 + digit_val c)
            in if y > 2 ^ 63 then leadingFraction x scale True s else leadingFraction y (scale * Flt 10) False s))"

definition unitMap :: "(string \<times> nat) list" where
  "unitMap =
     [(''ns'', 1), (''us'', 1000), ([CHR 0xC2, CHR 0xB5, CHR ''s''], 1000), ([CHR 0xCE, CHR 0xBC, CHR ''s''], 1000),
      (''ms'', 1000000), (''s'', 1000000000), (''m'', 60000000000), (''h'', 3600000000000)]"

definition starts_number :: "char \<Rightarrow> bool" where
  "starts_number c \<longleftrightarrow> c = CHR ''.'' \<or> is_digit c"

text \<open>One round of the loop: a number with its unit, in nanoseconds, and the rest of the text.\<close>

definition duration_part :: "string \<Rightarrow> (nat \<times> string) option" where
  "duration_part s =
     (case leadingInt 0 s of
        None \<Rightarrow> None
      | Some (v, s1) \<Rightarrow>
        (let pre = (length s \<noteq> length s1);
             (f, scale, s2) = (if take 1 s1 = ''.'' then leadingFraction 0 (Flt 1) False (drop 1 s1) else (0, Flt 1, s1));
             post = (take 1 s1 = ''.'' \<and> length (drop 1 s1) \<noteq> length s2)
         in if \<not> pre \<and> \<not> post then None
            else (let (u, s3) = span (\<lambda>c. \<not> starts_number c) s2
                  in if u = '''' then None
                     else (case map_of unitMap u of
                         None \<Rightarrow> None
                       | Some unit \<Rightarrow>
                         if v > 2 ^ 63 div unit then None
                         else (let v1 = u64 (v * unit);
                                   v2 = (if f > 0
                                         then u64 (v1 + unat (to_uint64 (from_int (int f) * (from_int (int unit) / scale))))
                                         else v1)
                               in if f > 0 \<and> v2 > 2 ^ 63 then None else Some (v2, s3))))))"

lemma leadingInt_length: "leadingInt x s = Some (v, r) \<Longrightarrow> length r \<le> length s"
  by (induction x s rule: leadingInt.induct) (auto simp: Let_def split: if_splits)

lemma leadingFraction_length: "leadingFraction x sc ov s = (v, sc', r) \<Longrightarrow> length r \<le> length s"
proof (induction s arbitrary: x sc ov)
  case (Cons c s)
  then show ?case unfolding leadingFraction.simps Let_def by (metis le_SucI length_Cons order_refl prod.inject)
qed simp

lemma duration_part_shorter:
  assumes "duration_part s = Some (v, r)"
  shows "length r < length s"
proof -
  obtain v1 s1 where l: "leadingInt 0 s = Some (v1, s1)"
    using assms by (auto simp: duration_part_def split: option.splits)
  obtain f sc s2 where f: "(if take 1 s1 = ''.'' then leadingFraction 0 (Flt 1) False (drop 1 s1) else (0, Flt 1, s1)) = (f, sc, s2)"
    by (metis prod_cases3)
  have "length s2 \<le> length s1"
    using f leadingFraction_length by (fastforce split: if_splits)
  moreover have "length s1 \<le> length s" by (rule leadingInt_length[OF l])
  moreover obtain u where "span (\<lambda>c. \<not> starts_number c) s2 = (u, r)" "u \<noteq> ''''"
    using assms l f by (auto simp: duration_part_def Let_def split: option.splits if_splits prod.splits)
  then have "length r < length s2"
    by (metis span_def fst_conv snd_conv takeWhile_dropWhile_id length_append length_greater_0_conv less_add_same_cancel2)
  ultimately show ?thesis by simp
qed

function duration_loop :: "nat \<Rightarrow> string \<Rightarrow> nat option" where
  "duration_loop d s =
     (if s = '''' then Some d
      else if \<not> starts_number (hd s) then None
      else (case duration_part s of
          None \<Rightarrow> None
        | Some (v, s') \<Rightarrow> (let d' = u64 (d + v) in if d' > 2 ^ 63 then None else duration_loop d' s')))"
  by auto

termination by (relation "measure (\<lambda>(d, s). length s)") (auto dest: duration_part_shorter)

declare duration_loop.simps [simp del]

definition ParseDuration :: "string \<Rightarrow> int option" where
  "ParseDuration orig =
     (let neg = (take 1 orig = ''-'');
          s = (if take 1 orig = ''-'' \<or> take 1 orig = ''+'' then drop 1 orig else orig)
      in if s = ''0'' then Some 0
         else if s = '''' then None
         else (case duration_loop 0 s of
             None \<Rightarrow> None
           | Some d \<Rightarrow> if neg then Some (- int d) else if d > 2 ^ 63 - 1 then None else Some (int d)))"

subsection \<open>Log levels\<close>

text \<open>
  \<open>strconv.Atoi\<close> of a text that starts with a sign, and \<open>slog.Level.UnmarshalText\<close>: a name, then perhaps an
  offset, added in 64 bits.
\<close>

definition Atoi_signed :: "string \<Rightarrow> int option" where
  "Atoi_signed s =
     (let n = dec_val (drop 1 s)
      in if drop 1 s = '''' \<or> \<not> list_all is_digit (drop 1 s) then None
         else if take 1 s = ''-'' then (if n > 2 ^ 63 then None else Some (- int n))
         else (if n \<ge> 2 ^ 63 then None else Some (int n)))"

definition level_names :: "(string \<times> int) list" where
  "level_names = [(''DEBUG'', -4), (''INFO'', 0), (''WARN'', 4), (''ERROR'', 8)]"

definition UnmarshalLevel :: "string \<Rightarrow> 64 word option" where
  "UnmarshalLevel s =
     (let (name, rest) = span (\<lambda>c. c \<noteq> CHR ''+'' \<and> c \<noteq> CHR ''-'') s
      in case (if rest = '''' then Some 0 else Atoi_signed rest) of
           None \<Rightarrow> None
         | Some off \<Rightarrow> map_option (\<lambda>l. word_of_int (l + off)) (map_of level_names (ToUpper name)))"

definition LevelInfo :: "64 word" where "LevelInfo = 0"

definition getLogLevel :: "string \<Rightarrow> 64 word" where
  "getLogLevel v = (case UnmarshalLevel v of None \<Rightarrow> LevelInfo | Some level \<Rightarrow> level)"

subsection \<open>Decoding a file\<close>

datatype json_field = FString string | FNumber string | FNull | FOther
datatype json_doc = DocObject "(string \<times> json_field) list" | DocNull | DocOther

text \<open>
  A field of a struct has its tag and the way it takes a value, \<open>None\<close> for one of another type. A
  null leaves a field, or the whole struct, as it is; keys of no field are skipped; the last of several
  keys for one field counts.
\<close>

type_synonym 'a field = "string \<times> (json_field \<Rightarrow> 'a \<Rightarrow> 'a option)"

fun take_string :: "(string \<Rightarrow> 'a \<Rightarrow> 'a) \<Rightarrow> json_field \<Rightarrow> 'a \<Rightarrow> 'a option" where
  "take_string put (FString s) x = Some (put s x)"
| "take_string put FNull x = Some x"
| "take_string put _ x = None"

fun take_uint32 :: "(32 word \<Rightarrow> 'a \<Rightarrow> 'a) \<Rightarrow> json_field \<Rightarrow> 'a \<Rightarrow> 'a option" where
  "take_uint32 put (FNumber n) x =
     (if list_all is_digit n \<and> dec_val n < 2 ^ 32 then Some (put (of_nat (dec_val n)) x) else None)"
| "take_uint32 put FNull x = Some x"
| "take_uint32 put _ x = None"

definition ParseInt :: "string \<Rightarrow> int option" where
  "ParseInt n = (if take 1 n = ''-'' then Atoi_signed n else Atoi_signed (CHR ''+'' # n))"

fun take_int :: "(int \<Rightarrow> 'a \<Rightarrow> 'a) \<Rightarrow> json_field \<Rightarrow> 'a \<Rightarrow> 'a option" where
  "take_int put (FNumber n) x = map_option (\<lambda>i. put i x) (ParseInt n)"
| "take_int put FNull x = Some x"
| "take_int put _ x = None"

definition field_of :: "'a field list \<Rightarrow> string \<Rightarrow> 'a field option" where
  "field_of fields k = find (\<lambda>f. foldName (fst f) = foldName k) fields"

fun decode_entries :: "'a field list \<Rightarrow> (string \<times> json_field) list \<Rightarrow> 'a \<Rightarrow> 'a option" where
  "decode_entries fields [] x = Some x"
| "decode_entries fields ((k, v) # kvs) x =
     (case field_of fields k of
        None \<Rightarrow> decode_entries fields kvs x
      | Some (_, take_value) \<Rightarrow> Option.bind (take_value v x) (decode_entries fields kvs))"

fun decode_struct :: "'a field list \<Rightarrow> json_doc \<Rightarrow> 'a \<Rightarrow> 'a option" where
  "decode_struct fields (DocObject kvs) x = decode_entries fields kvs x"
| "decode_struct fields DocNull x = Some x"
| "decode_struct fields DocOther x = None"

datatype config_error = ReadFailed string | ParseFailed string | InvalidDuration string

text \<open>\<open>jsoncfg.Load\<close>: \<open>read\<close> gives the bytes of a file, \<open>parse\<close> what the JSON parser makes of them.\<close>

definition jsoncfg_Load ::
  "(string \<Rightarrow> string option) \<Rightarrow> (string \<Rightarrow> json_doc option) \<Rightarrow> 'a field list \<Rightarrow> string \<Rightarrow> 'a \<Rightarrow> config_error + 'a" where
  "jsoncfg_Load read parse fields path target =
     (case read path of
        None \<Rightarrow> Inl (ReadFailed path)
      | Some data \<Rightarrow>
        (case Option.bind (parse data) (\<lambda>doc. decode_struct fields doc target) of
           None \<Rightarrow> Inl (ParseFailed path)
         | Some raw \<Rightarrow> Inr raw))"

text \<open>\<open>if err != nil { return err }\<close>\<close>

definition on_success :: "'e + 'a \<Rightarrow> ('a \<Rightarrow> 'e + 'b) \<Rightarrow> 'e + 'b" where
  "on_success r f = (case r of Inl e \<Rightarrow> Inl e | Inr x \<Rightarrow> f x)"

subsection \<open>The configuration of the gateway\<close>

record gateway_config =
  gcListenTCPAddr :: string
  gcGRPCListenAddr :: string
  gcWSListenAddr :: string
  gcAuthGRPCAddr :: string
  gcLobbyGRPCAddr :: string
  gcMatchGRPCAddr :: string
  gcRoomGRPCAddr :: string
  gcMaxPacketSize :: "32 word"
  gcAuthTimeout :: int
  gcTokenVerifyTimeout :: int
  gcIdleTimeout :: int
  gcReadTimeout :: int
  gcWriteTimeout :: int
  gcShutdownTimeout :: int
  gcLogLevel :: "64 word"

record file_config =
  fcListenTCPAddr :: string
  fcGRPCListenAddr :: string
  fcWSListenAddr :: string
  fcAuthGRPCAddr :: string
  fcLobbyGRPCAddr :: string
  fcMatchGRPCAddr :: string
  fcRoomGRPCAddr :: string
  fcMaxPacketSize :: "32 word"
  fcAuthTimeout :: string
  fcTokenVerifyTimeout :: string
  fcIdleTimeout :: string
  fcReadTimeout :: string
  fcWriteTimeout :: string
  fcShutdownTimeout :: string
  fcLogLevel :: string

definition defaultCfg :: gateway_config where
  "defaultCfg =
     \<lparr>gcListenTCPAddr = '':7000'', gcGRPCListenAddr = '':18080'', gcWSListenAddr = '':18081'',
      gcAuthGRPCAddr = ''127.0.0.1:19090'', gcLobbyGRPCAddr = ''127.0.0.1:19100'',
      gcMatchGRPCAddr = ''127.0.0.1:19200'', gcRoomGRPCAddr = ''127.0.0.1:19300'',
      gcMaxPacketSize = 64 * 1024, gcAuthTimeout = 10 * 1000000000, gcTokenVerifyTimeout = 2 * 1000000000,
      gcIdleTimeout = 90 * 1000000000, gcReadTimeout = 30 * 1000000000,
      gcWriteTimeout = 10 * 1000000000, gcShutdownTimeout = 10 * 1000000000,
      gcLogLevel = LevelInfo\<rparr>"

definition zero_file :: file_config where
  "zero_file =
     \<lparr>fcListenTCPAddr = '''', fcGRPCListenAddr = '''', fcWSListenAddr = '''', fcAuthGRPCAddr = '''',
      fcLobbyGRPCAddr = '''', fcMatchGRPCAddr = '''', fcRoomGRPCAddr = '''', fcMaxPacketSize = 0,
      fcAuthTimeout = '''', fcTokenVerifyTimeout = '''', fcIdleTimeout = '''',
      fcReadTimeout = '''', fcWriteTimeout = '''', fcShutdownTimeout = '''', fcLogLevel = ''''\<rparr>"

definition file_fields :: "file_config field list" where
  "file_fields =
     [(''listen_tcp_addr'', take_string (\<lambda>s. fcListenTCPAddr_update (\<lambda>_. s))),
      (''grpc_listen_addr'', take_string (\<lambda>s. fcGRPCListenAddr_update (\<lambda>_. s))),
      (''ws_listen_addr'', take_string (\<lambda>s. fcWSListenAddr_update (\<lambda>_. s))),
      (''auth_grpc_addr'', take_string (\<lambda>s. fcAuthGRPCAddr_update (\<lambda>_. s))),
      (''lobby_grpc_addr'', take_string (\<lambda>s. fcLobbyGRPCAddr_update (\<lambda>_. s))),
      (''match_grpc_addr'', take_string (\<lambda>s. fcMatchGRPCAddr_update (\<lambda>_. s))),
      (''room_grpc_addr'', take_string (\<lambda>s. fcRoomGRPCAddr_update (\<lambda>_. s))),
      (''max_packet_size'', take_uint32 (\<lambda>n. fcMaxPacketSize_update (\<lambda>_. n))),
      (''auth_timeout'', take_string (\<lambda>s. fcAuthTimeout_update (\<lambda>_. s))),
      (''token_verify_timeout'', take_string (\<lambda>s. fcTokenVerifyTimeout_update (\<lambda>_. s))),
      (''idle_timeout'', take_string (\<lambda>s. fcIdleTimeout_update (\<lambda>_. s))),
      (''read_timeout'', take_string (\<lambda>s. fcReadTimeout_update (\<lambda>_. s))),
      (''write_timeout'', take_string (\<lambda>s. fcWriteTimeout_update (\<lambda>_. s))),
      (''shutdown_timeout'', take_string (\<lambda>s. fcShutdownTimeout_update (\<lambda>_. s))),
      (''log_level'', take_string (\<lambda>s. fcLogLevel_update (\<lambda>_. s)))]"

text \<open>\<open>parseDuration\<close>: an empty text stands for the default.\<close>

definition parseDuration :: "string \<Rightarrow> int \<Rightarrow> config_error + int" where
  "parseDuration val fallback =
     (if val = '''' then Inr fallback
      else (case ParseDuration val of None \<Rightarrow> Inl (InvalidDuration val) | Some d \<Rightarrow> Inr d))"

definition or_default :: "string \<Rightarrow> string \<Rightarrow> string" where
  "or_default val fallback = (if val \<noteq> '''' then val else fallback)"

definition LoadFromFile ::
  "(string \<Rightarrow> string option) \<Rightarrow> (string \<Rightarrow> json_doc option) \<Rightarrow> string \<Rightarrow> config_error + gateway_config" where
  "LoadFromFile read parse path =
     on_success (jsoncfg_Load read parse file_fields path zero_file) (\<lambda>raw.
     let cfg = defaultCfg
       \<lparr>gcListenTCPAddr := or_default (fcListenTCPAddr raw) (gcListenTCPAddr defaultCfg),
        gcGRPCListenAddr := or_default (fcGRPCListenAddr raw) (gcGRPCListenAddr defaultCfg),
        gcWSListenAddr := or_default (fcWSListenAddr raw) (gcWSListenAddr defaultCfg),
        gcAuthGRPCAddr := or_default (fcAuthGRPCAddr raw) (gcAuthGRPCAddr defaultCfg),
        gcLobbyGRPCAddr := or_default (fcLobbyGRPCAddr raw) (gcLobbyGRPCAddr defaultCfg),
        gcMatchGRPCAddr := or_default (fcMatchGRPCAddr raw) (gcMatchGRPCAddr defaultCfg),
        gcRoomGRPCAddr := or_default (fcRoomGRPCAddr raw) (gcRoomGRPCAddr defaultCfg),
        gcMaxPacketSize := (if fcMaxPacketSize raw > 0 then fcMaxPacketSize raw else gcMaxPacketSize defaultCfg)\<rparr>
     in on_success (parseDuration (fcAuthTimeout raw) (gcAuthTimeout cfg)) (\<lambda>auth.
     on_success (parseDuration (fcTokenVerifyTimeout raw) (gcTokenVerifyTimeout cfg)) (\<lambda>verify.
     on_success (parseDuration (fcIdleTimeout raw) (gcIdleTimeout cfg)) (\<lambda>idle.
     on_success (parseDuration (fcReadTimeout raw) (gcReadTimeout cfg)) (\<lambda>rd.
     on_success (parseDuration (fcWriteTimeout raw) (gcWriteTimeout cfg)) (\<lambda>wr.
     on_success (parseDuration (fcShutdownTimeout raw) (gcShutdownTimeout cfg)) (\<lambda>shut.
     Inr (cfg\<lparr>gcAuthTimeout := auth, gcTokenVerifyTimeout := verify, gcIdleTimeout := idle,
       gcReadTimeout := rd, gcWriteTimeout := wr, gcShutdownTimeout := shut,
       gcLogLevel := (if fcLogLevel raw \<noteq> '''' then getLogLevel (fcLogLevel raw) else gcLogLevel cfg)\<rparr>))))))))"

end
