(* ===== verification/ConfigSpec.thy ===== *)
theory ConfigSpec
  imports Config
begin

text \<open>
  The properties of the configuration (\<open>internal/config/config.go\<close>, \<open>internal/jsoncfg/load.go\<close>): numbers with their units are
  read as the durations they say, and every configuration can be written down and is loaded back.
\<close>

subsection \<open>Durations\<close>

lemma is_digit_digit: "d < 10 \<Longrightarrow> is_digit (digit d) \<and> digit_val (digit d) = d"
  by (simp add: is_digit_def digit_val_def)

lemma nat_dec_is_digit: "list_all is_digit (nat_dec n)"
  unfolding list_all_iff using nat_dec_digits is_digit_digit by blast

lemma nat_dec_ne [simp]: "nat_dec n \<noteq> ''''"
  by (subst nat_dec.simps) simp

lemma hd_nat_dec: "is_digit (hd (nat_dec n))"
  using nat_dec_is_digit[of n] nat_dec_ne[of n] by (cases "nat_dec n") auto

definition read_digits :: "nat \<Rightarrow> string \<Rightarrow> nat" where
  "read_digits x ds = foldl (\<lambda>a c. 10 * a + digit_val c) x ds"

lemma read_digits_simps [simp]:
  "read_digits x [] = x" "read_digits x (c # ds) = read_digits (10 * x + digit_val c) ds"
  by (simp_all add: read_digits_def)

lemma read_digits_nat_dec [simp]: "read_digits 0 (nat_dec n) = n"
  using dec_val_nat_dec[of n] by (simp add: read_digits_def dec_val_def digit_val_def)

lemma read_digits_mono: "x \<le> read_digits x ds"
proof (induction ds arbitrary: x)
  case (Cons c ds)
  have "10 * x + digit_val c \<le> read_digits x (c # ds)" using Cons by simp
  then show ?case by linarith
qed simp

text \<open>The digits of a number that fits are read to their end.\<close>

lemma leadingInt_digits:
  assumes "list_all is_digit ds" and "rest = [] \<or> \<not> is_digit (hd rest)" and "read_digits x ds \<le> 2 ^ 63"
  shows "leadingInt x (ds @ rest) = Some (read_digits x ds, rest)"
  using assms
proof (induction ds arbitrary: x)
  case Nil
  then show ?case by (cases rest) auto
next
  case (Cons c ds)
  have b: "10 * x + digit_val c \<le> 2 ^ 63" using Cons.prems(3) read_digits_mono[of "10 * x + digit_val c" ds] by simp
  moreover from this have "\<not> x > 2 ^ 63 div 10" by (simp add: not_less)
  moreover have "u64 (x * 10 + digit_val c) = 10 * x + digit_val c" using b by (simp add: u64_def)
  ultimately show ?case using Cons by (simp add: Let_def)
qed

lemma units_ok:
  "list_all (\<lambda>(u, k). u \<noteq> '''' \<and> list_all (\<lambda>c. \<not> starts_number c) u \<and> 0 < k) unitMap"
  by (simp add: unitMap_def starts_number_def is_digit_def)

lemma units_distinct: "distinct (map fst unitMap)"
  by (simp add: unitMap_def)

lemma unit_text:
  assumes "(u, k) \<in> set unitMap" and "rest = [] \<or> is_digit (hd rest)"
  shows "span (\<lambda>c. \<not> starts_number c) (u @ rest) = (u, rest)" and "u \<noteq> ''''" and "map_of unitMap u = Some k"
    and "\<not> starts_number (hd u)" and "0 < k"
proof -
  have r: "takeWhile (\<lambda>c. \<not> starts_number c) rest = []" "dropWhile (\<lambda>c. \<not> starts_number c) rest = rest"
    using assms(2) by (cases rest; simp add: starts_number_def)+
  have u: "list_all (\<lambda>c. \<not> starts_number c) u \<and> u \<noteq> '''' \<and> map_of unitMap u = Some k \<and> 0 < k"
    using assms(1) units_ok units_distinct by (auto simp: list_all_iff)
  then show "span (\<lambda>c. \<not> starts_number c) (u @ rest) = (u, rest)"
    using r by (simp add: span_def takeWhile_append2 dropWhile_append2 list_all_iff)
  show "u \<noteq> ''''" "map_of unitMap u = Some k" "0 < k" "\<not> starts_number (hd u)" using u by (auto simp: list_all_iff)
qed

text \<open>A number with its unit.\<close>

definition part_text :: "nat \<times> string \<times> nat \<Rightarrow> string" where
  "part_text p = (case p of (n, u, k) \<Rightarrow> nat_dec n @ u)"

definition part_value :: "nat \<times> string \<times> nat \<Rightarrow> nat" where
  "part_value p = (case p of (n, u, k) \<Rightarrow> n * k)"

definition unit_part :: "nat \<times> string \<times> nat \<Rightarrow> bool" where
  "unit_part p \<longleftrightarrow> snd p \<in> set unitMap"

lemma duration_part_text:
  assumes "unit_part p" and "part_value p \<le> 2 ^ 63" and "rest = [] \<or> is_digit (hd rest)"
  shows "duration_part (part_text p @ rest) = Some (part_value p, rest)"
proof -
  obtain n u k where p: "p = (n, u, k)" by (cases p)
  have u: "(u, k) \<in> set unitMap" using assms(1) by (simp add: p unit_part_def)
  note t = unit_text[OF u assms(3)]
  have le: "n * k \<le> 2 ^ 63" using assms(2) by (simp add: p part_value_def)
  then have "n \<le> 2 ^ 63" using t(5) by (metis One_nat_def Suc_leI le_trans mult.right_neutral mult_le_mono2)
  moreover have "\<not> is_digit (hd (u @ rest))" "take 1 (u @ rest) \<noteq> ''.''"
    using t(2,4) by (cases u; auto simp: starts_number_def)+
  ultimately have l: "leadingInt 0 (nat_dec n @ u @ rest) = Some (n, u @ rest)"
    using leadingInt_digits[of "nat_dec n" "u @ rest" 0] nat_dec_is_digit by simp
  have "\<not> n > 2 ^ 63 div k" using le t(5) by (simp add: not_less less_eq_div_iff_mult_less_eq)
  moreover have "u64 (n * k) = n * k" using le by (simp add: u64_def)
  ultimately show ?thesis
    using l t \<open>take 1 (u @ rest) \<noteq> ''.''\<close> by (simp add: p part_text_def part_value_def duration_part_def Let_def)
qed

lemma parts_start: "concat (map part_text ps) = [] \<or> is_digit (hd (concat (map part_text ps)))"
  by (cases ps) (auto simp: part_text_def hd_append hd_nat_dec split: prod.split)

lemma duration_loop_parts:
  assumes "list_all unit_part ps" and "d + sum_list (map part_value ps) \<le> 2 ^ 63"
  shows "duration_loop d (concat (map part_text ps)) = Some (d + sum_list (map part_value ps))"
  using assms
proof (induction ps arbitrary: d)
  case Nil
  then show ?case by (simp add: duration_loop.simps)
next
  case (Cons p ps)
  let ?rest = "concat (map part_text ps)"
  have "part_text p \<noteq> ''''" "is_digit (hd (part_text p))"
    by (auto simp: part_text_def hd_append hd_nat_dec split: prod.split)
  moreover define w where "w = part_text p @ ?rest"
  ultimately have w: "w \<noteq> ''''" "starts_number (hd w)" by (auto simp: starts_number_def hd_append)
  have "duration_part w = Some (part_value p, ?rest)"
    unfolding w_def using Cons.prems parts_start by (intro duration_part_text) auto
  moreover have "u64 (d + part_value p) = d + part_value p" "\<not> d + part_value p > 2 ^ 63"
    using Cons.prems(2) by (simp_all add: u64_def)
  ultimately have "duration_loop d w = duration_loop (d + part_value p) ?rest"
    using w by (subst duration_loop.simps) (simp add: Let_def)
  then show ?case using Cons by (simp add: add.assoc w_def)
qed

text \<open>
  Numbers with their units, the sign in front: what is read is their sum, as long as it fits
  the type.
\<close>

theorem ParseDuration_parts:
  assumes "list_all unit_part ps" and "ps \<noteq> []"
  defines "amount \<equiv> sum_list (map part_value ps)" and "s \<equiv> concat (map part_text ps)"
  shows "amount < 2 ^ 63 \<Longrightarrow> ParseDuration s = Some (int amount)"
    and "amount \<le> 2 ^ 63 \<Longrightarrow> ParseDuration (CHR ''-'' # s) = Some (- int amount)"
proof -
  obtain p qs n u k where ps: "ps = p # qs" "p = (n, u, k)" using assms(2) by (metis list.exhaust prod_cases3)
  have u: "(u, k) \<in> set unitMap" using assms(1) by (simp add: ps unit_part_def)
  then have "u \<noteq> ''''" using unit_text(2)[of u k "''''"] by simp
  then have ne: "s \<noteq> ''''" "s \<noteq> ''0''"
    unfolding s_def ps by (cases "nat_dec n"; cases u; auto simp: part_text_def Cons_eq_append_conv dest: arg_cong[of _ _ length])+
  then have "is_digit (hd s)" using parts_start[of ps] by (auto simp: s_def)
  then have c: "take 1 s \<noteq> ''-''" "take 1 s \<noteq> ''+''" using ne by (cases s; auto simp: is_digit_def)+
  have l: "amount \<le> 2 ^ 63 \<Longrightarrow> duration_loop 0 s = Some amount"
    using duration_loop_parts[OF assms(1), of 0] by (simp add: amount_def s_def)
  show "amount < 2 ^ 63 \<Longrightarrow> ParseDuration s = Some (int amount)"
    using l ne c by (simp add: ParseDuration_def)
  show "amount \<le> 2 ^ 63 \<Longrightarrow> ParseDuration (CHR ''-'' # s) = Some (- int amount)"
    using l ne by (simp add: ParseDuration_def)
qed

theorem ParseDuration_parts_witness:
  "ParseDuration ''1h30m'' = Some 5400000000000"
proof -
  have "nat_dec 1 = ''1''" "nat_dec 30 = ''30''" by code_simp+
  then show ?thesis
    using ParseDuration_parts(1)[of "[(1, ''h'', 3600000000000), (30, ''m'', 60000000000)]"]
    by (simp add: unit_part_def unitMap_def part_value_def part_text_def)
qed

text \<open>A configuration gives a duration as a count of nanoseconds.\<close>

definition duration_text :: "int \<Rightarrow> string" where
  "duration_text d = FormatInt d @ ''ns''"

definition fits64 :: "int \<Rightarrow> bool" where
  "fits64 d \<longleftrightarrow> - (2 ^ 63) \<le> d \<and> d < 2 ^ 63"

lemma ParseDuration_text: "fits64 d \<Longrightarrow> ParseDuration (duration_text d) = Some d"
proof -
  assume d: "fits64 d"
  let ?ps = "\<lambda>n. [(n, ''ns'', 1 :: nat)]"
  have p: "list_all unit_part (?ps n)" for n by (simp add: unit_part_def unitMap_def)
  show ?thesis
  proof (cases "d < 0")
    case True
    then show ?thesis
      using ParseDuration_parts(2)[OF p, of "nat (- d)"] d by (simp add: part_text_def part_value_def duration_text_def FormatInt_def fits64_def)
  next
    case False
    then show ?thesis
      using ParseDuration_parts(1)[OF p, of "nat d"] d by (simp add: part_text_def part_value_def duration_text_def FormatInt_def fits64_def)
  qed
qed

subsection \<open>A configuration written and loaded\<close>

definition level_text :: "64 word \<Rightarrow> string" where
  "level_text l =
     (if 0 \<le> sint l then ''INFO+'' @ nat_dec (nat (sint l)) else ''INFO-'' @ nat_dec (nat (- sint l)))"

lemma dec_digits [simp]: "list_all is_digit (nat_dec n)"
  by (rule nat_dec_is_digit)

lemma getLogLevel_text: "getLogLevel (level_text l) = l"
proof -
  have s: "span (\<lambda>c. c \<noteq> CHR ''+'' \<and> c \<noteq> CHR ''-'') (''INFO'' @ c # ds) = (''INFO'', c # ds)"
    if "c = CHR ''+'' \<or> c = CHR ''-''" for c ds using that by (auto simp: span_def)
  have up: "map_of level_names (ToUpper ''INFO'') = Some 0" by code_simp
  have u: "UnmarshalLevel (''INFO'' @ c # ds) = map_option word_of_int (Atoi_signed (c # ds))"
    if "c = CHR ''+'' \<or> c = CHR ''-''" for c ds
    using s[OF that] up by (cases "Atoi_signed (c # ds)") (simp_all add: UnmarshalLevel_def)
  have b: "- (2 ^ 63) \<le> sint l" "sint l < 2 ^ 63" using sint_range_size[of l] by (simp_all add: word_size)
  have "Atoi_signed (CHR ''+'' # nat_dec (nat (sint l))) = Some (sint l)" if "0 \<le> sint l"
    using that b by (simp add: Atoi_signed_def Let_def nat_less_iff)
  moreover have "Atoi_signed (CHR ''-'' # nat_dec (nat (- sint l))) = Some (sint l)" if "sint l < 0"
    using that b by (simp add: Atoi_signed_def Let_def)
  ultimately show ?thesis
    using u[of "CHR ''+''" "nat_dec (nat (sint l))"] u[of "CHR ''-''" "nat_dec (nat (- sint l))"]
    by (auto simp: level_text_def getLogLevel_def not_le)
qed

text \<open>The file that says every setting.\<close>

definition config_doc :: "gateway_config \<Rightarrow> json_doc" where
  "config_doc cfg = DocObject
     [(''listen_tcp_addr'', FString (gcListenTCPAddr cfg)), (''grpc_listen_addr'', FString (gcGRPCListenAddr cfg)),
      (''ws_listen_addr'', FString (gcWSListenAddr cfg)), (''auth_grpc_addr'', FString (gcAuthGRPCAddr cfg)),
      (''lobby_grpc_addr'', FString (gcLobbyGRPCAddr cfg)), (''match_grpc_addr'', FString (gcMatchGRPCAddr cfg)),
      (''room_grpc_addr'', FString (gcRoomGRPCAddr cfg)),
      (''max_packet_size'', FNumber (nat_dec (unat (gcMaxPacketSize cfg)))),
      (''auth_timeout'', FString (duration_text (gcAuthTimeout cfg))),
      (''token_verify_timeout'', FString (duration_text (gcTokenVerifyTimeout cfg))),
      (''idle_timeout'', FString (duration_text (gcIdleTimeout cfg))),
      (''read_timeout'', FString (duration_text (gcReadTimeout cfg))),
      (''write_timeout'', FString (duration_text (gcWriteTimeout cfg))),
      (''shutdown_timeout'', FString (duration_text (gcShutdownTimeout cfg))),
      (''log_level'', FString (level_text (gcLogLevel cfg)))]"

definition proper_config :: "gateway_config \<Rightarrow> bool" where
  "proper_config cfg \<longleftrightarrow>
     list_all (\<lambda>get. get cfg \<noteq> '''') [gcListenTCPAddr, gcGRPCListenAddr, gcWSListenAddr, gcAuthGRPCAddr,
       gcLobbyGRPCAddr, gcMatchGRPCAddr, gcRoomGRPCAddr]
     \<and> 0 < gcMaxPacketSize cfg
     \<and> list_all (\<lambda>get. fits64 (get cfg)) [gcAuthTimeout, gcTokenVerifyTimeout, gcIdleTimeout, gcReadTimeout,
       gcWriteTimeout, gcShutdownTimeout]"

text \<open>A tag of small letters and underscores is found under its own name.\<close>

definition tag_char :: "char \<Rightarrow> bool" where
  "tag_char c \<longleftrightarrow> c = CHR ''_'' \<or> 97 \<le> (of_char c :: nat) \<and> of_char c \<le> (122 :: nat)"

lemma foldName_tag: "list_all tag_char s \<Longrightarrow> foldName s = map ascii_upper s"
proof (induction s)
  case (Cons c s)
  have "c \<noteq> CHR 0xC5" "c \<noteq> CHR 0xE2" using Cons.prems by (auto simp: tag_char_def)
  then show ?case using Cons by (simp add: foldName_def)
qed (simp add: foldName_def)

lemma ascii_upper_tag: "tag_char c \<Longrightarrow> tag_char d \<Longrightarrow> ascii_upper c = ascii_upper d \<longleftrightarrow> c = d"
proof -
  assume cd: "tag_char c" "tag_char d"
  have r: "(of_char e :: nat) = 95 \<or> 97 \<le> (of_char e :: nat) \<and> of_char e \<le> (122 :: nat)" if "tag_char e" for e
    using that by (auto simp: tag_char_def)
  have v: "of_char (ascii_upper e) = (if (of_char e :: nat) = 95 then 95 else of_char e - 32 :: nat)" if "tag_char e" for e
    using r[OF that] by (auto simp: ascii_upper_def)
  have n: "x = y" if "x = 95 \<or> 97 \<le> x \<and> x \<le> 122" "y = 95 \<or> 97 \<le> y \<and> y \<le> 122"
      "(if x = 95 then 95 else x - 32) = (if y = 95 then 95 else y - 32)" for x y :: nat
    using that by (auto split: if_splits)
  have "c = d" if "ascii_upper c = ascii_upper d"
    using n[OF r[OF cd(1)] r[OF cd(2)]] v[OF cd(1)] v[OF cd(2)] that by (metis of_char_eq_iff)
  then show ?thesis by blast
qed

lemma foldName_tags: "list_all tag_char s \<Longrightarrow> list_all tag_char t \<Longrightarrow> foldName s = foldName t \<longleftrightarrow> s = t"
proof -
  have "list_all tag_char s \<Longrightarrow> list_all tag_char t \<Longrightarrow> map ascii_upper s = map ascii_upper t \<longleftrightarrow> s = t" for s t
  proof (induction s arbitrary: t)
    case (Cons c s)
    then show ?case using ascii_upper_tag by (cases t) auto
  qed auto
  then show "list_all tag_char s \<Longrightarrow> list_all tag_char t \<Longrightarrow> ?thesis" by (simp add: foldName_tag)
qed

lemma field_of_tag:
  "list_all (\<lambda>f. list_all tag_char (fst f)) fs \<Longrightarrow> list_all tag_char k \<Longrightarrow>
     field_of fs k = find (\<lambda>f. fst f = k) fs"
  unfolding field_of_def by (rule find_cong) (auto simp: list_all_iff foldName_tags)

lemma file_tags: "list_all (\<lambda>f. list_all tag_char (fst f)) file_fields"
  by (simp add: file_fields_def tag_char_def)

lemma decode_config_doc:
  "decode_struct file_fields (config_doc cfg) zero_file = Some
     \<lparr>fcListenTCPAddr = gcListenTCPAddr cfg, fcGRPCListenAddr = gcGRPCListenAddr cfg, fcWSListenAddr = gcWSListenAddr cfg,
      fcAuthGRPCAddr = gcAuthGRPCAddr cfg, fcLobbyGRPCAddr = gcLobbyGRPCAddr cfg, fcMatchGRPCAddr = gcMatchGRPCAddr cfg,
      fcRoomGRPCAddr = gcRoomGRPCAddr cfg, fcMaxPacketSize = gcMaxPacketSize cfg,
      fcAuthTimeout = duration_text (gcAuthTimeout cfg), fcTokenVerifyTimeout = duration_text (gcTokenVerifyTimeout cfg),
      fcIdleTimeout = duration_text (gcIdleTimeout cfg), fcReadTimeout = duration_text (gcReadTimeout cfg),
      fcWriteTimeout = duration_text (gcWriteTimeout cfg), fcShutdownTimeout = duration_text (gcShutdownTimeout cfg),
      fcLogLevel = level_text (gcLogLevel cfg)\<rparr>"
proof -
  have n: "unat (gcMaxPacketSize cfg) < 4294967296" using unsigned_less[of "gcMaxPacketSize cfg"] by simp
  obtain fs where fs: "fs = file_fields" by blast
  have "list_all tag_char k \<Longrightarrow> field_of fs k = find (\<lambda>f. fst f = k) file_fields" for k
    unfolding fs by (rule field_of_tag[OF file_tags])
  note f = this[unfolded file_fields_def]
  show ?thesis
    unfolding config_doc_def decode_struct.simps fs[symmetric]
    by (simp add: f n tag_char_def zero_file_def)
qed

text \<open>Nothing is read that does not fit the type.\<close>

lemma duration_loop_le: "duration_loop d s = Some r \<Longrightarrow> d \<le> 2 ^ 63 \<Longrightarrow> r \<le> 2 ^ 63"
proof (induction d s rule: duration_loop.induct)
  case (1 d s)
  show ?case
  proof (cases "s = '''' \<or> \<not> starts_number (hd s) \<or> duration_part s = None")
    case True
    then show ?thesis using 1(2,3) by (subst (asm) duration_loop.simps) (auto split: if_splits)
  next
    case False
    then obtain v s' where p: "duration_part s = Some (v, s')" by auto
    have "\<not> u64 (d + v) > 2 ^ 63" "duration_loop (u64 (d + v)) s' = Some r"
      using 1(2) False p by (subst (asm) duration_loop.simps; auto simp: Let_def split: if_splits)+
    then show ?thesis using 1(1)[OF _ _ p] False by (simp add: not_less)
  qed
qed

lemma ParseDuration_fits:
  assumes "ParseDuration s = Some d"
  shows "fits64 d"
proof -
  define t where "t = (if take 1 s = ''-'' \<or> take 1 s = ''+'' then drop 1 s else s)"
  have p: "ParseDuration s = (if t = ''0'' then Some 0 else if t = '''' then None
      else (case duration_loop 0 t of None \<Rightarrow> None
        | Some n \<Rightarrow> if take 1 s = ''-'' then Some (- int n) else if n > 2 ^ 63 - 1 then None else Some (int n)))"
    by (simp only: ParseDuration_def Let_def t_def)
  show ?thesis
  proof (cases "t = ''0'' \<or> t = ''''")
    case True
    then show ?thesis using assms p by (auto simp: fits64_def)
  next
    case False
    then obtain n where n: "duration_loop 0 t = Some n" using assms p by (cases "duration_loop 0 t") auto
    then have "n \<le> 2 ^ 63" by (rule duration_loop_le) simp
    then show ?thesis using assms p False n by (simp add: fits64_def split: if_splits)
  qed
qed

lemma parseDuration_fits: "parseDuration s d0 = Inr d \<Longrightarrow> fits64 d0 \<Longrightarrow> fits64 d"
  using ParseDuration_fits by (auto simp: parseDuration_def split: if_splits option.splits)

lemma on_success_Inr: "on_success r f = Inr y \<longleftrightarrow> (\<exists>x. r = Inr x \<and> f x = Inr y)"
  by (cases r) (simp_all add: on_success_def)

lemma or_default_ne [simp]: "or_default s t = '''' \<longleftrightarrow> s = '''' \<and> t = ''''"
  by (simp add: or_default_def)

lemma default_config:
  "gcListenTCPAddr defaultCfg \<noteq> ''''" "gcGRPCListenAddr defaultCfg \<noteq> ''''" "gcWSListenAddr defaultCfg \<noteq> ''''"
  "gcAuthGRPCAddr defaultCfg \<noteq> ''''" "gcLobbyGRPCAddr defaultCfg \<noteq> ''''" "gcMatchGRPCAddr defaultCfg \<noteq> ''''"
  "gcRoomGRPCAddr defaultCfg \<noteq> ''''" "0 < gcMaxPacketSize defaultCfg"
  "fits64 (gcAuthTimeout defaultCfg)" "fits64 (gcTokenVerifyTimeout defaultCfg)" "fits64 (gcIdleTimeout defaultCfg)"
  "fits64 (gcReadTimeout defaultCfg)" "fits64 (gcWriteTimeout defaultCfg)" "fits64 (gcShutdownTimeout defaultCfg)"
  by (simp_all add: defaultCfg_def fits64_def)

lemma loaded_config_proper:
  assumes "LoadFromFile read parse path = Inr cfg"
  shows "proper_config cfg"
proof -
  obtain raw where raw: "jsoncfg_Load read parse file_fields path zero_file = Inr raw"
    using assms unfolding LoadFromFile_def on_success_Inr by blast
  obtain auth verify idle rd wr shut where
    d: "parseDuration (fcAuthTimeout raw) (gcAuthTimeout defaultCfg) = Inr auth"
      "parseDuration (fcTokenVerifyTimeout raw) (gcTokenVerifyTimeout defaultCfg) = Inr verify"
      "parseDuration (fcIdleTimeout raw) (gcIdleTimeout defaultCfg) = Inr idle"
      "parseDuration (fcReadTimeout raw) (gcReadTimeout defaultCfg) = Inr rd"
      "parseDuration (fcWriteTimeout raw) (gcWriteTimeout defaultCfg) = Inr wr"
      "parseDuration (fcShutdownTimeout raw) (gcShutdownTimeout defaultCfg) = Inr shut"
    using assms raw unfolding LoadFromFile_def on_success_Inr Let_def by auto
  have "fits64 auth" "fits64 verify" "fits64 idle" "fits64 rd" "fits64 wr" "fits64 shut"
    using d[THEN parseDuration_fits] default_config by blast+
  moreover have "LoadFromFile read parse path = Inr cfg \<Longrightarrow> ?thesis" if "fits64 auth" "fits64 verify" "fits64 idle"
      "fits64 rd" "fits64 wr" "fits64 shut"
    unfolding LoadFromFile_def raw
    using that default_config(1-8) by (auto simp: on_success_def d Let_def proper_config_def)
  ultimately show ?thesis using assms by blast
qed

text \<open>
  C39: a configuration file means what it says. A file that gives every setting (addresses
  that are not empty, a positive packet size, durations within 64 bits, a level) is loaded as exactly that configuration;
  and whatever file is loaded, the configuration has these bounds: no address is empty, the packet size is
  positive, and no duration was taken from a number that does not fit.
\<close>

theorem config_roundtrip:
  assumes "read path = Some data"
  shows "(parse data = Some (config_doc cfg) \<and> proper_config cfg \<longrightarrow> LoadFromFile read parse path = Inr cfg)
    \<and> (LoadFromFile read parse path = Inr cfg \<longrightarrow> proper_config cfg)"
proof (intro conjI impI)
  assume a: "parse data = Some (config_doc cfg) \<and> proper_config cfg"
  have ne: "duration_text d \<noteq> ''''" "level_text l \<noteq> ''''" for d l by (simp_all add: duration_text_def level_text_def)
  have d: "fits64 d \<Longrightarrow> parseDuration (duration_text d) f = Inr d" for d f
    using ParseDuration_text by (simp add: parseDuration_def ne)
  have l: "jsoncfg_Load read parse file_fields path zero_file = Inr
     \<lparr>fcListenTCPAddr = gcListenTCPAddr cfg, fcGRPCListenAddr = gcGRPCListenAddr cfg, fcWSListenAddr = gcWSListenAddr cfg,
      fcAuthGRPCAddr = gcAuthGRPCAddr cfg, fcLobbyGRPCAddr = gcLobbyGRPCAddr cfg, fcMatchGRPCAddr = gcMatchGRPCAddr cfg,
      fcRoomGRPCAddr = gcRoomGRPCAddr cfg, fcMaxPacketSize = gcMaxPacketSize cfg,
      fcAuthTimeout = duration_text (gcAuthTimeout cfg), fcTokenVerifyTimeout = duration_text (gcTokenVerifyTimeout cfg),
      fcIdleTimeout = duration_text (gcIdleTimeout cfg), fcReadTimeout = duration_text (gcReadTimeout cfg),
      fcWriteTimeout = duration_text (gcWriteTimeout cfg), fcShutdownTimeout = duration_text (gcShutdownTimeout cfg),
      fcLogLevel = level_text (gcLogLevel cfg)\<rparr>"
    using assms a decode_config_doc[of cfg] by (simp add: jsoncfg_Load_def)
  show "LoadFromFile read parse path = Inr cfg"
    using a unfolding LoadFromFile_def l
    by (simp add: on_success_def Let_def d ne getLogLevel_text proper_config_def or_default_def)
next
  assume "LoadFromFile read parse path = Inr cfg"
  then show "proper_config cfg" by (rule loaded_config_proper)
qed

theorem config_roundtrip_witness:
  "LoadFromFile (\<lambda>path. Some ''data'') (\<lambda>data. Some (config_doc defaultCfg)) ''gateway.json'' = Inr defaultCfg"
proof -
  have "proper_config defaultCfg" by (simp add: proper_config_def default_config)
  then show ?thesis
    using config_roundtrip[of "\<lambda>path. Some ''data''" "''gateway.json''" "''data''" "\<lambda>data. Some (config_doc defaultCfg)" defaultCfg]
    by simp
qed

text \<open>A file without settings gives the defaults; a file that cannot be read or parsed is an error.\<close>

theorem empty_file_defaults:
  "LoadFromFile (\<lambda>path. Some data) (\<lambda>data. Some (DocObject [])) path = Inr defaultCfg"
  by (simp add: LoadFromFile_def jsoncfg_Load_def on_success_def parseDuration_def or_default_def zero_file_def
      defaultCfg_def)

theorem bad_file_refused:
  "LoadFromFile (\<lambda>path. None) parse path = Inl (ReadFailed path)"
  "LoadFromFile (\<lambda>path. Some data) (\<lambda>data. None) path = Inl (ParseFailed path)"
  by (simp_all add: LoadFromFile_def jsoncfg_Load_def on_success_def)

text \<open>A text that is no duration is an error, never a default.\<close>

theorem bad_duration_refused:
  assumes "jsoncfg_Load read parse file_fields path zero_file = Inr raw"
    and "fcAuthTimeout raw \<noteq> ''''" and "ParseDuration (fcAuthTimeout raw) = None"
  shows "LoadFromFile read parse path = Inl (InvalidDuration (fcAuthTimeout raw))"
  using assms by (simp add: LoadFromFile_def on_success_def parseDuration_def Let_def defaultCfg_def or_default_def)

end
