(* ===== verification/Programs.thy ===== *)
theory Programs
  imports Config Mono UserSystem Ui
begin

text \<open>
  What the programs under \<open>cmd/\<close> decide by themselves: the reading of their configurations, the address of
  their pages (\<open>cmd/mono\<close>, \<open>cmd/ui\<close>), and the statements of an SQL script (\<open>cmd/dbinit\<close>). Their main functions
  start and stop servers. \<open>cmd/usersystem\<close> and \<open>cmd/auth\<close> read the same configuration.
\<close>

subsection \<open>Configurations\<close>

definition duration_of :: "string \<Rightarrow> config_error + int" where
  "duration_of s = (case ParseDuration s of None \<Rightarrow> Inl (InvalidDuration s) | Some d \<Rightarrow> Inr d)"

type_synonym 'c loader = "(string \<Rightarrow> string option) \<Rightarrow> (string \<Rightarrow> json_doc option) \<Rightarrow> string \<Rightarrow> config_error + 'c"

text \<open>\<open>cmd/lobby\<close> and \<open>cmd/match\<close>, which differ in the address.\<close>

record stub_file =
  sfListenAddr :: string
  sfShutdownTimeout :: string

definition stub_file_defaults :: "string \<Rightarrow> stub_file" where
  "stub_file_defaults addr = \<lparr>sfListenAddr = addr, sfShutdownTimeout = ''10s''\<rparr>"

definition stub_file_fields :: "stub_file field list" where
  "stub_file_fields =
     [(''listen_addr'', take_string (\<lambda>x. sfListenAddr_update (\<lambda>_. x))),
      (''shutdown_timeout'', take_string (\<lambda>x. sfShutdownTimeout_update (\<lambda>_. x)))]"

definition stub_loadConfig :: "string \<Rightarrow> (string \<times> int) loader" where
  "stub_loadConfig addr read parse path =
     on_success (jsoncfg_Load read parse stub_file_fields path (stub_file_defaults addr)) (\<lambda>raw.
     on_success (duration_of (sfShutdownTimeout raw)) (\<lambda>shut.
     Inr (sfListenAddr raw, shut)))"

text \<open>\<open>cmd/room\<close>: the listening address, the time to shut down and the frame interval.\<close>

record room_file =
  rfListenAddr :: string
  rfShutdownTimeout :: string
  rfFrameInterval :: string

definition room_file_defaults :: room_file where
  "room_file_defaults =
     \<lparr>rfListenAddr = '':19300'', rfShutdownTimeout = ''10s'', rfFrameInterval = ''50ms''\<rparr>"

definition room_file_fields :: "room_file field list" where
  "room_file_fields =
     [(''listen_addr'', take_string (\<lambda>x. rfListenAddr_update (\<lambda>_. x))),
      (''shutdown_timeout'', take_string (\<lambda>x. rfShutdownTimeout_update (\<lambda>_. x))),
      (''frame_interval'', take_string (\<lambda>x. rfFrameInterval_update (\<lambda>_. x)))]"

definition room_loadConfig :: "(string \<times> int \<times> int) loader" where
  "room_loadConfig read parse path =
     on_success (jsoncfg_Load read parse room_file_fields path room_file_defaults) (\<lambda>raw.
     on_success (duration_of (rfShutdownTimeout raw)) (\<lambda>shut.
     on_success (duration_of (rfFrameInterval raw)) (\<lambda>frame.
     Inr (rfListenAddr raw, shut, frame))))"

text \<open>\<open>cmd/mono\<close>.\<close>

record mono_file =
  mfListenAddr :: string
  mfDBPath :: string
  mfTokenTTL :: string
  mfHeartbeatTimeout :: string
  mfShutdownTimeout :: string

definition mono_file_defaults :: mono_file where
  "mono_file_defaults =
     \<lparr>mfListenAddr = '':8099'', mfDBPath = ''./mono.db'', mfTokenTTL = ''24h'',
      mfHeartbeatTimeout = ''5s'', mfShutdownTimeout = ''10s''\<rparr>"

definition mono_file_fields :: "mono_file field list" where
  "mono_file_fields =
     [(''listen_addr'', take_string (\<lambda>x. mfListenAddr_update (\<lambda>_. x))),
      (''db_path'', take_string (\<lambda>x. mfDBPath_update (\<lambda>_. x))),
      (''token_ttl'', take_string (\<lambda>x. mfTokenTTL_update (\<lambda>_. x))),
      (''heartbeat_timeout'', take_string (\<lambda>x. mfHeartbeatTimeout_update (\<lambda>_. x))),
      (''shutdown_timeout'', take_string (\<lambda>x. mfShutdownTimeout_update (\<lambda>_. x)))]"

definition mono_loadConfig :: "mono_config loader" where
  "mono_loadConfig read parse path =
     on_success (jsoncfg_Load read parse mono_file_fields path mono_file_defaults) (\<lambda>raw.
     on_success (duration_of (mfTokenTTL raw)) (\<lambda>ttl.
     on_success (duration_of (mfHeartbeatTimeout raw)) (\<lambda>hb.
     on_success (duration_of (mfShutdownTimeout raw)) (\<lambda>shut.
     Inr \<lparr>cfListenAddr = mfListenAddr raw, cfDBPath = mfDBPath raw, cfTokenTTL = ttl, cfHeartbeatTimeout = hb,
           cfShutdownTimeout = shut\<rparr>))))"

text \<open>\<open>cmd/game\<close>.\<close>

record game_config =
  gamecfgWSListenAddr :: string
  gamecfgGRPCListenAddr :: string
  gamecfgPublicWSAddr :: string
  gamecfgAuthGRPCAddr :: string
  gamecfgTokenVerifyTimeout :: int
  gamecfgHeartbeatTimeout :: int
  gamecfgRoomFrameTick :: int

record game_file =
  gfWSListenAddr :: string
  gfGRPCListenAddr :: string
  gfPublicWSAddr :: string
  gfAuthGRPCAddr :: string
  gfTokenVerifyTimeout :: string
  gfHeartbeatTimeout :: string
  gfRoomFrameTick :: string
  gfShutdownTimeout :: string

definition game_file_defaults :: game_file where
  "game_file_defaults =
     \<lparr>gfWSListenAddr = '':19500'', gfGRPCListenAddr = '':19400'', gfPublicWSAddr = ''127.0.0.1:19500'',
      gfAuthGRPCAddr = ''127.0.0.1:19090'', gfTokenVerifyTimeout = ''2s'', gfHeartbeatTimeout = ''5s'',
      gfRoomFrameTick = ''50ms'', gfShutdownTimeout = ''10s''\<rparr>"

definition game_file_fields :: "game_file field list" where
  "game_file_fields =
     [(''ws_listen_addr'', take_string (\<lambda>x. gfWSListenAddr_update (\<lambda>_. x))),
      (''grpc_listen_addr'', take_string (\<lambda>x. gfGRPCListenAddr_update (\<lambda>_. x))),
      (''public_ws_addr'', take_string (\<lambda>x. gfPublicWSAddr_update (\<lambda>_. x))),
      (''auth_grpc_addr'', take_string (\<lambda>x. gfAuthGRPCAddr_update (\<lambda>_. x))),
      (''token_verify_timeout'', take_string (\<lambda>x. gfTokenVerifyTimeout_update (\<lambda>_. x))),
      (''heartbeat_timeout'', take_string (\<lambda>x. gfHeartbeatTimeout_update (\<lambda>_. x))),
      (''room_frame_tick'', take_string (\<lambda>x. gfRoomFrameTick_update (\<lambda>_. x))),
      (''shutdown_timeout'', take_string (\<lambda>x. gfShutdownTimeout_update (\<lambda>_. x)))]"

definition game_loadConfig :: "(game_config \<times> int) loader" where
  "game_loadConfig read parse path =
     on_success (jsoncfg_Load read parse game_file_fields path game_file_defaults) (\<lambda>raw.
     on_success (duration_of (gfTokenVerifyTimeout raw)) (\<lambda>verify.
     on_success (duration_of (gfHeartbeatTimeout raw)) (\<lambda>hb.
     on_success (duration_of (gfRoomFrameTick raw)) (\<lambda>tick.
     on_success (duration_of (gfShutdownTimeout raw)) (\<lambda>shut.
     Inr (\<lparr>gamecfgWSListenAddr = gfWSListenAddr raw, gamecfgGRPCListenAddr = gfGRPCListenAddr raw,
            gamecfgPublicWSAddr = gfPublicWSAddr raw, gamecfgAuthGRPCAddr = gfAuthGRPCAddr raw, gamecfgTokenVerifyTimeout = verify,
            gamecfgHeartbeatTimeout = hb, gamecfgRoomFrameTick = tick\<rparr>, shut))))))"

text \<open>\<open>cmd/ui\<close>.\<close>

record ui_settings = ui_config +
  ucShutdownTimeout :: int

record ui_file =
  ufListenAddr :: string
  ufAuthGRPCAddr :: string
  ufGameControlAddr :: string
  ufRoomGRPCAddr :: string
  ufGatewayPushGRPCAddr :: string
  ufShutdownTimeout :: string

definition ui_file_defaults :: ui_file where
  "ui_file_defaults =
     \<lparr>ufListenAddr = '':8088'', ufAuthGRPCAddr = ''127.0.0.1:19090'',
      ufGameControlAddr = ''127.0.0.1:19400'', ufRoomGRPCAddr = ''127.0.0.1:19400'',
      ufGatewayPushGRPCAddr = ''127.0.0.1:18080'', ufShutdownTimeout = ''10s''\<rparr>"

definition ui_file_fields :: "ui_file field list" where
  "ui_file_fields =
     [(''listen_addr'', take_string (\<lambda>x. ufListenAddr_update (\<lambda>_. x))),
      (''auth_grpc_addr'', take_string (\<lambda>x. ufAuthGRPCAddr_update (\<lambda>_. x))),
      (''game_control_grpc_addr'', take_string (\<lambda>x. ufGameControlAddr_update (\<lambda>_. x))),
      (''room_grpc_addr'', take_string (\<lambda>x. ufRoomGRPCAddr_update (\<lambda>_. x))),
      (''gateway_push_grpc_addr'', take_string (\<lambda>x. ufGatewayPushGRPCAddr_update (\<lambda>_. x))),
      (''shutdown_timeout'', take_string (\<lambda>x. ufShutdownTimeout_update (\<lambda>_. x)))]"

definition ui_loadConfig :: "ui_settings loader" where
  "ui_loadConfig read parse path =
     on_success (jsoncfg_Load read parse ui_file_fields path ui_file_defaults) (\<lambda>raw.
     on_success (duration_of (ufShutdownTimeout raw)) (\<lambda>shut.
     Inr \<lparr>ucListenAddr = ufListenAddr raw, ucAuthGRPCAddr = ufAuthGRPCAddr raw, ucGameControlAddr = ufGameControlAddr raw,
           ucRoomGRPCAddr = ufRoomGRPCAddr raw, ucGatewayPushGRPCAddr = ufGatewayPushGRPCAddr raw, ucShutdownTimeout = shut\<rparr>))"

text \<open>\<open>cmd/usersystem\<close> and \<open>cmd/auth\<close>.\<close>

record us_settings = us_config +
  usHTTPListenAddr :: string
  usGRPCListenAddr :: string
  usShutdownTimeout :: int
  usRedisPassword :: string
  usRedisDB :: int

record us_file =
  usfHTTPListenAddr :: string
  usfGRPCListenAddr :: string
  usfTokenTTL :: string
  usfShutdownTimeout :: string
  usfRedisAddr :: string
  usfRedisPassword :: string
  usfRedisDB :: int
  usfRedisKeyPrefix :: string

definition us_file_defaults :: us_file where
  "us_file_defaults =
     \<lparr>usfHTTPListenAddr = '':19080'', usfGRPCListenAddr = '':19090'', usfTokenTTL = ''24h'',
      usfShutdownTimeout = ''10s'', usfRedisAddr = ''127.0.0.1:6379'', usfRedisPassword = '''',
      usfRedisDB = 0, usfRedisKeyPrefix = ''game:token:''\<rparr>"

definition us_file_fields :: "us_file field list" where
  "us_file_fields =
     [(''http_listen_addr'', take_string (\<lambda>x. usfHTTPListenAddr_update (\<lambda>_. x))),
      (''grpc_listen_addr'', take_string (\<lambda>x. usfGRPCListenAddr_update (\<lambda>_. x))),
      (''token_ttl'', take_string (\<lambda>x. usfTokenTTL_update (\<lambda>_. x))),
      (''shutdown_timeout'', take_string (\<lambda>x. usfShutdownTimeout_update (\<lambda>_. x))),
      (''redis_addr'', take_string (\<lambda>x. usfRedisAddr_update (\<lambda>_. x))),
      (''redis_password'', take_string (\<lambda>x. usfRedisPassword_update (\<lambda>_. x))),
      (''redis_db'', take_int (\<lambda>x. usfRedisDB_update (\<lambda>_. x))),
      (''redis_key_prefix'', take_string (\<lambda>x. usfRedisKeyPrefix_update (\<lambda>_. x)))]"

definition us_loadConfig :: "us_settings loader" where
  "us_loadConfig read parse path =
     on_success (jsoncfg_Load read parse us_file_fields path us_file_defaults) (\<lambda>raw.
     on_success (duration_of (usfTokenTTL raw)) (\<lambda>ttl.
     on_success (duration_of (usfShutdownTimeout raw)) (\<lambda>shut.
     Inr \<lparr>ucTokenTTL = ttl, ucRedisAddr = usfRedisAddr raw, ucRedisKeyPrefix = usfRedisKeyPrefix raw,
           usHTTPListenAddr = usfHTTPListenAddr raw, usGRPCListenAddr = usfGRPCListenAddr raw, usShutdownTimeout = shut,
           usRedisPassword = usfRedisPassword raw, usRedisDB = usfRedisDB raw\<rparr>)))"

text \<open>\<open>cmd/dbinit\<close>.\<close>

record dbinit_config =
  dbDSN :: string
  dbFile :: string

definition dbinit_fields :: "dbinit_config field list" where
  "dbinit_fields =
     [(''dsn'', take_string (\<lambda>x. dbDSN_update (\<lambda>_. x))), (''file'', take_string (\<lambda>x. dbFile_update (\<lambda>_. x)))]"

definition dbinit_loadConfig :: "dbinit_config loader" where
  "dbinit_loadConfig read parse path =
     jsoncfg_Load read parse dbinit_fields path \<lparr>dbDSN = '''', dbFile = ''db/schema_core.sql''\<rparr>"

subsection \<open>The statements of a script\<close>

text \<open>\<open>strings.Split\<close> with a separator of one byte.\<close>

fun Split :: "char \<Rightarrow> string \<Rightarrow> string list" where
  "Split sep [] = [[]]"
| "Split sep (c # s) = (if c = sep then [] # Split sep s else (c # hd (Split sep s)) # tl (Split sep s))"

definition splitSQLStatements :: "string \<Rightarrow> string list" where
  "splitSQLStatements sqlText = filter (\<lambda>stmt. stmt \<noteq> '''') (map TrimSpace (Split (CHR '';'') sqlText))"

text \<open>The loop of \<open>main\<close>: the statements in order, up to the first that fails.\<close>

fun exec_statements :: "('d \<Rightarrow> string \<Rightarrow> 'd option) \<Rightarrow> nat \<Rightarrow> string list \<Rightarrow> 'd \<Rightarrow> (nat \<times> string) option \<times> 'd" where
  "exec_statements exec i [] d = (None, d)"
| "exec_statements exec i (stmt # rest) d =
     (if TrimSpace stmt = '''' then exec_statements exec (Suc i) rest d
      else (case exec d stmt of
          None \<Rightarrow> (Some (i + 1, stmt), d)
        | Some d' \<Rightarrow> exec_statements exec (Suc i) rest d'))"

subsection \<open>The address of the pages\<close>

text \<open>\<open>net.SplitHostPort\<close>; the port starts after the last colon.\<close>

definition SplitHostPort :: "string \<Rightarrow> (string \<times> string) option" where
  "SplitHostPort s =
     (let port = rev (takeWhile (\<lambda>c. c \<noteq> CHR '':'') (rev s));
          i = length s - length port - 1;
          end_bracket = length (takeWhile (\<lambda>c. c \<noteq> CHR '']'') s)
      in if CHR '':'' \<notin> set s then None
         else if take 1 s = ''['' then
           (if CHR '']'' \<notin> set s \<or> end_bracket + 1 = length s \<or> end_bracket + 1 \<noteq> i then None
            else if CHR ''['' \<in> set (drop 1 s) \<or> CHR '']'' \<in> set (drop (end_bracket + 1) s) then None
            else Some (drop 1 (take end_bracket s), port))
         else if CHR '':'' \<in> set (take i s) \<or> CHR ''['' \<in> set s \<or> CHR '']'' \<in> set s then None
         else Some (take i s, port))"

text \<open>\<open>strings.Trim(host, "[]")\<close>\<close>

definition trim_brackets :: "string \<Rightarrow> string" where
  "trim_brackets s = (let P = (\<lambda>c. c = CHR ''['' \<or> c = CHR '']'') in rev (dropWhile P (rev (dropWhile P s))))"

definition page_url :: "string \<Rightarrow> string \<Rightarrow> string" where
  "page_url host port =
     (let host' = (if host = '''' \<or> host = ''0.0.0.0'' \<or> host = ''::'' \<or> host = ''[::]'' then ''127.0.0.1'' else host)
      in ''http://'' @ trim_brackets host' @ '':'' @ port)"

definition buildBaseURL :: "string \<Rightarrow> string" where
  "buildBaseURL listenAddr =
     (case SplitHostPort listenAddr of
        Some (host, port) \<Rightarrow> page_url host port
      | None \<Rightarrow>
        if take 1 listenAddr = '':'' then page_url '''' (drop 1 listenAddr) else ''http://'' @ listenAddr)"

end
