(* ===== verification/ProgramsSpec.thy ===== *)
theory ProgramsSpec
  imports Programs
begin

text \<open>
  Lemmas on the programs under \<open>cmd/\<close>: a script is split into the statements it was put together from, and the
  address of the pages. Both have a limit: a semicolon in a quoted text splits its statement, and the brackets of an
  IPv6 address are lost.
\<close>

subsection \<open>The statements of a script\<close>

lemma Split_ne [simp]: "Split sep s \<noteq> []"
  by (cases s) auto

lemma Split_append: "sep \<notin> set a \<Longrightarrow> Split sep (a @ sep # s) = a # Split sep s"
  by (induction a) auto

lemma Split_no_sep: "stmt \<in> set (Split sep s) \<Longrightarrow> sep \<notin> set stmt"
proof (induction s arbitrary: stmt)
  case (Cons c s)
  have "hd (Split sep s) \<in> set (Split sep s)" by simp
  then show ?case using Cons by (auto split: if_splits dest: list.set_sel(2)[rotated])
qed simp

text \<open>A statement as it comes out: not empty, without a semicolon or outer space.\<close>

definition plain_statement :: "string \<Rightarrow> bool" where
  "plain_statement stmt \<longleftrightarrow> stmt \<noteq> '''' \<and> CHR '';'' \<notin> set stmt \<and> TrimSpace stmt = stmt"

theorem statements_roundtrip:
  assumes "list_all plain_statement stmts"
  shows "splitSQLStatements (concat (map (\<lambda>stmt. stmt @ '';'') stmts)) = stmts"
  using assms
proof (induction stmts)
  case Nil
  show ?case by code_simp
next
  case (Cons stmt stmts)
  then have "Split (CHR '';'') (stmt @ '';'' @ concat (map (\<lambda>stmt. stmt @ '';'') stmts))
      = stmt # Split (CHR '';'') (concat (map (\<lambda>stmt. stmt @ '';'') stmts))"
    by (simp add: Split_append plain_statement_def)
  then show ?case using Cons by (simp add: splitSQLStatements_def plain_statement_def)
qed

lemma quoted_semicolon_splits: "splitSQLStatements ''select(\";\");'' = [''select(\"'', ''\")'']"
proof -
  have "TrimSpace ''select(\"'' = ''select(\"''" "TrimSpace ''\")'' = ''\")''"
    by (rule TrimSpace_keeps; simp add: white_space_def)+
  moreover have "TrimSpace '''' = ''''" by (simp add: TrimSpace_def strip.simps)
  ultimately show ?thesis by (simp add: splitSQLStatements_def)
qed

text \<open>
  The loop succeeds exactly when every statement does, one after the other; otherwise it has run a part of the script.
\<close>

definition run_all :: "('d \<Rightarrow> string \<Rightarrow> 'd option) \<Rightarrow> string list \<Rightarrow> 'd \<Rightarrow> 'd option" where
  "run_all ex stmts d = foldl (\<lambda>r stmt. Option.bind r (\<lambda>d. ex d stmt)) (Some d) stmts"

lemma run_all_simps [simp]:
  "run_all ex [] d = Some d"
  "run_all ex (stmt # stmts) d = Option.bind (ex d stmt) (run_all ex stmts)"
proof -
  have "foldl (\<lambda>r stmt. Option.bind r (\<lambda>d. ex d stmt)) None ss = None" for ss by (induction ss) simp_all
  then show "run_all ex (stmt # stmts) d = Option.bind (ex d stmt) (run_all ex stmts)"
    by (cases "ex d stmt") (simp_all add: run_all_def)
qed (simp add: run_all_def)

theorem statements_executed:
  assumes "list_all plain_statement stmts"
  shows "exec_statements ex i stmts d = (None, d') \<longleftrightarrow> run_all ex stmts d = Some d'"
    and "exec_statements ex i stmts d = (Some (n, stmt), d') \<Longrightarrow>
      \<exists>k. n = i + k + 1 \<and> k < length stmts \<and> stmt = stmts ! k \<and> run_all ex (take k stmts) d = Some d' \<and> ex d' stmt = None"
proof -
  show "exec_statements ex i stmts d = (None, d') \<longleftrightarrow> run_all ex stmts d = Some d'"
    using assms by (induction stmts arbitrary: i d) (auto simp: plain_statement_def split: option.split)
  show "exec_statements ex i stmts d = (Some (n, stmt), d') \<Longrightarrow>
      \<exists>k. n = i + k + 1 \<and> k < length stmts \<and> stmt = stmts ! k \<and> run_all ex (take k stmts) d = Some d' \<and> ex d' stmt = None"
    using assms
  proof (induction stmts arbitrary: i d)
    case (Cons s ss)
    show ?case
    proof (cases "ex d s")
      case None
      then show ?thesis using Cons.prems by (intro exI[of _ 0]) (auto simp: plain_statement_def)
    next
      case (Some d1)
      then have "exec_statements ex (Suc i) ss d1 = (Some (n, stmt), d')"
        using Cons.prems by (auto simp: plain_statement_def)
      then obtain k where "n = Suc i + k + 1" "k < length ss" "stmt = ss ! k" "run_all ex (take k ss) d1 = Some d'" "ex d' stmt = None"
        using Cons.IH Cons.prems(2) by fastforce
      then show ?thesis using Some by (intro exI[of _ "Suc k"]) simp
    qed
  qed simp
qed

subsection \<open>The address of the pages\<close>

definition plain_host :: "string \<Rightarrow> bool" where
  "plain_host s \<longleftrightarrow> CHR '':'' \<notin> set s \<and> CHR ''['' \<notin> set s \<and> CHR '']'' \<notin> set s"

lemma SplitHostPort_plain:
  assumes "plain_host host" and "plain_host port"
  shows "SplitHostPort (host @ '':'' @ port) = Some (host, port)"
proof -
  have p: "takeWhile (\<lambda>c. c \<noteq> CHR '':'') (rev (host @ '':'' @ port)) = rev port"
    using assms(2) by (auto simp: plain_host_def takeWhile_append2 takeWhile_tail)
  have "take 1 (host @ '':'' @ port) \<noteq> ''[''"
    using assms(1) by (cases host) (auto simp: plain_host_def)
  then show ?thesis
    unfolding SplitHostPort_def p Let_def using assms by (auto simp: plain_host_def)
qed

lemma trim_plain:
  assumes "plain_host s"
  shows "trim_brackets s = s"
proof -
  let ?P = "\<lambda>c. c = CHR ''['' \<or> c = CHR '']''"
  have "dropWhile ?P s = s" using assms by (cases s) (auto simp: plain_host_def)
  moreover have "dropWhile ?P (rev s) = rev s" using assms by (cases s rule: rev_cases) (auto simp: plain_host_def)
  ultimately show ?thesis by (simp add: trim_brackets_def)
qed

theorem page_address:
  assumes "plain_host host" and "plain_host port"
  shows "buildBaseURL (host @ '':'' @ port) =
    ''http://'' @ (if host = '''' \<or> host = ''0.0.0.0'' then ''127.0.0.1'' else host) @ '':'' @ port"
proof -
  have "plain_host ''127.0.0.1''" by (simp add: plain_host_def)
  moreover have "host \<noteq> ''::'' \<and> host \<noteq> ''[::]''" using assms(1) by (auto simp: plain_host_def)
  ultimately show ?thesis
    unfolding buildBaseURL_def SplitHostPort_plain[OF assms] using assms(1) by (simp add: page_url_def trim_plain)
qed

lemma ipv6_brackets_lost: "buildBaseURL ''[::1]:8099'' = ''http://::1:8099''"
  by code_simp

end
