(* ===== verification/Lifecycle.thy ===== *)
theory Lifecycle
  imports Programs Push
begin

text \<open>
  Opening and closing: the connections and listeners a process holds, the constructors that open
  them (\<open>New\<close>, \<open>NewServer\<close>, \<open>NewGRPCDispatcher\<close> of the clients and services) and the \<open>Start\<close> and \<open>Stop\<close> of every
  server. Whether an address can be dialled or listened on, whether a close fails, and whether calls in progress end in time
  are arguments. Connections and listeners are identifiers.
\<close>

subsection \<open>What a process holds\<close>

record host =
  hoNext :: nat
  hoConns :: "nat list"
  hoListeners :: "nat list"
  hoLoops :: nat

definition open_conn :: "(string \<Rightarrow> bool) \<Rightarrow> string \<Rightarrow> host \<Rightarrow> nat option \<times> host" where
  "open_conn ok addr h =
     (if ok addr then (Some (hoNext h), h\<lparr>hoNext := hoNext h + 1, hoConns := hoNext h # hoConns h\<rparr>) else (None, h))"

definition shut_conn :: "nat \<Rightarrow> host \<Rightarrow> host" where
  "shut_conn c h = h\<lparr>hoConns := filter (\<lambda>d. d \<noteq> c) (hoConns h)\<rparr>"

definition open_listener :: "(string \<Rightarrow> bool) \<Rightarrow> string \<Rightarrow> host \<Rightarrow> nat option \<times> host" where
  "open_listener ok addr h =
     (if ok addr then (Some (hoNext h), h\<lparr>hoNext := hoNext h + 1, hoListeners := hoNext h # hoListeners h\<rparr>) else (None, h))"

definition close_listener :: "nat option \<Rightarrow> host \<Rightarrow> host" where
  "close_listener l h =
     (case l of None \<Rightarrow> h | Some i \<Rightarrow> h\<lparr>hoListeners := filter (\<lambda>j. j \<noteq> i) (hoListeners h)\<rparr>)"

subsection \<open>Clients\<close>

definition client_New :: "string \<Rightarrow> (string \<Rightarrow> bool) \<Rightarrow> string \<Rightarrow> host \<Rightarrow> (string + nat) \<times> host" where
  "client_New empty_text ok addr h =
     (if addr = '''' then (Inl empty_text, h)
      else (case open_conn ok addr h of (None, h') \<Rightarrow> (Inl ''dial'', h') | (Some c, h') \<Rightarrow> (Inr c, h')))"

definition roomclient_New :: "(string \<Rightarrow> bool) \<Rightarrow> string \<Rightarrow> host \<Rightarrow> (string + nat) \<times> host" where
  "roomclient_New = client_New ''empty room grpc addr''"

definition gameclient_New :: "(string \<Rightarrow> bool) \<Rightarrow> string \<Rightarrow> host \<Rightarrow> (string + nat) \<times> host" where
  "gameclient_New = client_New ''empty game control grpc addr''"

definition authclient_New :: "(string \<Rightarrow> bool) \<Rightarrow> string \<Rightarrow> host \<Rightarrow> (string + nat) \<times> host" where
  "authclient_New = client_New ''empty auth grpc addr''"

definition pushclient_New :: "(string \<Rightarrow> bool) \<Rightarrow> string \<Rightarrow> host \<Rightarrow> (string + nat) \<times> host" where
  "pushclient_New = client_New ''empty gateway push grpc addr''"

definition NewGRPCVerifier :: "(string \<Rightarrow> bool) \<Rightarrow> string \<Rightarrow> host \<Rightarrow> (string + nat) \<times> host" where
  "NewGRPCVerifier = client_New ''empty user grpc addr''"

text \<open>\<open>Close\<close> of a client, which may be nil; the boolean is whether there was an error.\<close>

definition client_Close :: "(nat \<Rightarrow> bool) \<Rightarrow> nat option \<Rightarrow> host \<Rightarrow> bool \<times> host" where
  "client_Close fails c h = (case c of None \<Rightarrow> (False, h) | Some i \<Rightarrow> (fails i, shut_conn i h))"

definition roomclient_Close :: "(nat \<Rightarrow> bool) \<Rightarrow> nat option \<Rightarrow> host \<Rightarrow> bool \<times> host" where
  "roomclient_Close = client_Close"

definition gameclient_Close :: "(nat \<Rightarrow> bool) \<Rightarrow> nat option \<Rightarrow> host \<Rightarrow> bool \<times> host" where
  "gameclient_Close = client_Close"

definition authclient_Close :: "(nat \<Rightarrow> bool) \<Rightarrow> nat option \<Rightarrow> host \<Rightarrow> bool \<times> host" where
  "authclient_Close = client_Close"

definition pushclient_Close :: "(nat \<Rightarrow> bool) \<Rightarrow> nat option \<Rightarrow> host \<Rightarrow> bool \<times> host" where
  "pushclient_Close = client_Close"

definition verifier_Close :: "(nat \<Rightarrow> bool) \<Rightarrow> nat option \<Rightarrow> host \<Rightarrow> bool \<times> host" where
  "verifier_Close = client_Close"

subsection \<open>The dispatcher of the gateway\<close>

record dispatcher =
  lobbyConn :: "nat option"
  matchConn :: "nat option"
  roomConn :: "nat option"

definition NewGRPCDispatcher :: "(string \<Rightarrow> bool) \<Rightarrow> gateway_config \<Rightarrow> host \<Rightarrow> dispatcher option \<times> host" where
  "NewGRPCDispatcher ok cfg h =
     (case open_conn ok (gcLobbyGRPCAddr cfg) h of
        (None, h1) \<Rightarrow> (None, h1)
      | (Some lobby, h1) \<Rightarrow>
        (case open_conn ok (gcMatchGRPCAddr cfg) h1 of
           (None, h2) \<Rightarrow> (None, shut_conn lobby h2)
         | (Some match, h2) \<Rightarrow>
           (case open_conn ok (gcRoomGRPCAddr cfg) h2 of
              (None, h3) \<Rightarrow> (None, shut_conn match (shut_conn lobby h3))
            | (Some room, h3) \<Rightarrow>
                (Some \<lparr>lobbyConn = Some lobby, matchConn = Some match, roomConn = Some room\<rparr>, h3))))"

text \<open>\<open>Close\<close> closes all three and reports the first error: which connection it was.\<close>

definition close_part :: "(nat \<Rightarrow> bool) \<Rightarrow> nat option \<Rightarrow> nat option \<times> host \<Rightarrow> nat option \<times> host" where
  "close_part fails c acc =
     (case acc of (firstErr, h) \<Rightarrow>
        (case c of
           None \<Rightarrow> (firstErr, h)
         | Some i \<Rightarrow> (if fails i \<and> firstErr = None then Some i else firstErr, shut_conn i h)))"

definition dispatcher_Close :: "(nat \<Rightarrow> bool) \<Rightarrow> dispatcher \<Rightarrow> host \<Rightarrow> nat option \<times> host" where
  "dispatcher_Close fails d h =
     close_part fails (roomConn d) (close_part fails (matchConn d) (close_part fails (lobbyConn d) (None, h)))"

subsection \<open>The clients of the web lobby\<close>

record ui_clients =
  authCli :: nat
  gameCli :: nat
  roomCli :: nat
  pushCli :: nat

definition ui_NewServer :: "(string \<Rightarrow> bool) \<Rightarrow> ui_settings \<Rightarrow> host \<Rightarrow> (string + ui_clients) \<times> host" where
  "ui_NewServer ok cfg h =
     (case authclient_New ok (ucAuthGRPCAddr cfg) h of
        (Inl e, h1) \<Rightarrow> (Inl e, h1)
      | (Inr auth, h1) \<Rightarrow>
        (case gameclient_New ok (ucGameControlAddr cfg) h1 of
           (Inl e, h2) \<Rightarrow> (Inl e, shut_conn auth h2)
         | (Inr game, h2) \<Rightarrow>
           (case roomclient_New ok (ucRoomGRPCAddr cfg) h2 of
              (Inl e, h3) \<Rightarrow> (Inl e, shut_conn game (shut_conn auth h3))
            | (Inr room, h3) \<Rightarrow>
              (case pushclient_New ok (ucGatewayPushGRPCAddr cfg) h3 of
                 (Inl e, h4) \<Rightarrow> (Inl e, shut_conn room (shut_conn game (shut_conn auth h4)))
               | (Inr push, h4) \<Rightarrow>
                   (Inr \<lparr>authCli = auth, gameCli = game, roomCli = room, pushCli = push\<rparr>, h4)))))"

text \<open>
  \<open>Start\<close> runs the frame loop and listens; if it cannot, it ends the loop again. \<open>Stop\<close> ends the loop and closes listener and clients;
  its result is that of the shutdown of the HTTP server.
\<close>

definition ui_Start :: "(string \<Rightarrow> bool) \<Rightarrow> ui_settings \<Rightarrow> host \<Rightarrow> nat option \<times> host" where
  "ui_Start ok cfg h =
     (let h1 = h\<lparr>hoLoops := hoLoops h + 1\<rparr>
      in case open_listener ok (ucListenAddr cfg) h1 of
           (None, h2) \<Rightarrow> (None, h2\<lparr>hoLoops := hoLoops h2 - 1\<rparr>)
         | (Some l, h2) \<Rightarrow> (Some l, h2))"

definition ui_Stop :: "(nat \<Rightarrow> bool) \<Rightarrow> bool \<Rightarrow> bool \<Rightarrow> nat option \<Rightarrow> ui_clients \<Rightarrow> host \<Rightarrow> bool \<times> host" where
  "ui_Stop fails shutdown_err looping l cl h =
     (let h1 = (if looping then h\<lparr>hoLoops := hoLoops h - 1\<rparr> else h);
          h2 = close_listener l h1;
          h3 = snd (authclient_Close fails (Some (authCli cl)) h2);
          h4 = snd (gameclient_Close fails (Some (gameCli cl)) h3);
          h5 = snd (roomclient_Close fails (Some (roomCli cl)) h4);
          h6 = snd (pushclient_Close fails (Some (pushCli cl)) h5)
      in (shutdown_err, h6))"

subsection \<open>The other servers\<close>

text \<open>A gRPC server: it listens; when it stops, calls in progress end in time, or it is stopped by force, an error.\<close>

definition grpc_Stop :: "bool \<Rightarrow> nat option \<Rightarrow> host \<Rightarrow> bool \<times> host" where
  "grpc_Stop in_time l h = (\<not> in_time, close_listener l h)"

definition room_Start :: "(string \<Rightarrow> bool) \<Rightarrow> string \<Rightarrow> host \<Rightarrow> nat option \<times> host" where
  "room_Start = open_listener"

definition room_Stop :: "bool \<Rightarrow> nat option \<Rightarrow> host \<Rightarrow> bool \<times> host" where
  "room_Stop = grpc_Stop"

definition stub_Start :: "(string \<Rightarrow> bool) \<Rightarrow> string \<Rightarrow> host \<Rightarrow> nat option \<times> host" where
  "stub_Start = open_listener"

definition stub_Stop :: "bool \<Rightarrow> nat option \<Rightarrow> host \<Rightarrow> bool \<times> host" where
  "stub_Stop = grpc_Stop"

definition push_NewServer :: "bool \<Rightarrow> bool" where
  "push_NewServer gateway_given \<longleftrightarrow> gateway_given"

definition push_Start :: "(string \<Rightarrow> bool) \<Rightarrow> string \<Rightarrow> host \<Rightarrow> nat option \<times> host" where
  "push_Start = open_listener"

definition push_Stop :: "bool \<Rightarrow> nat option \<Rightarrow> host \<Rightarrow> bool \<times> host" where
  "push_Stop = grpc_Stop"

text \<open>The game service: \<open>New\<close> fills in its configuration and panics (\<open>None\<close>) without a token client; \<open>Stop\<close> never fails.\<close>

definition game_defaults :: "game_config \<Rightarrow> game_config" where
  "game_defaults cfg =
     cfg\<lparr>gamecfgAuthGRPCAddr := (if gamecfgAuthGRPCAddr cfg = '''' then ''127.0.0.1:19090'' else gamecfgAuthGRPCAddr cfg),
        gamecfgTokenVerifyTimeout := (if gamecfgTokenVerifyTimeout cfg \<le> 0 then 2 * 1000000000 else gamecfgTokenVerifyTimeout cfg),
        gamecfgHeartbeatTimeout := (if gamecfgHeartbeatTimeout cfg \<le> 0 then 5 * 1000000000 else gamecfgHeartbeatTimeout cfg)\<rparr>"

definition game_New :: "(string \<Rightarrow> bool) \<Rightarrow> game_config \<Rightarrow> host \<Rightarrow> (game_config \<times> nat) option \<times> host" where
  "game_New ok cfg h =
     (let cfg' = game_defaults cfg
      in case NewGRPCVerifier ok (gamecfgAuthGRPCAddr cfg') h of
           (Inl e, h') \<Rightarrow> (None, h')
         | (Inr verifier, h') \<Rightarrow> (Some (cfg', verifier), h'))"

definition game_StartWS :: "(string \<Rightarrow> bool) \<Rightarrow> game_config \<Rightarrow> host \<Rightarrow> nat option \<times> host" where
  "game_StartWS ok cfg = open_listener ok (gamecfgWSListenAddr cfg)"

definition game_StartGRPC :: "(string \<Rightarrow> bool) \<Rightarrow> game_config \<Rightarrow> host \<Rightarrow> nat option \<times> host" where
  "game_StartGRPC ok cfg = open_listener ok (gamecfgGRPCListenAddr cfg)"

definition game_Stop :: "(nat \<Rightarrow> bool) \<Rightarrow> nat option \<Rightarrow> nat option \<Rightarrow> nat option \<Rightarrow> host \<Rightarrow> bool \<times> host" where
  "game_Stop fails httpLn grpcLn verifier h =
     (False, snd (verifier_Close fails verifier (close_listener grpcLn (close_listener httpLn h))))"

text \<open>
  The user service: without an address it is refused, and a Redis that does not answer the ping is an error,
  which leaves the client open. \<open>Stop\<close> reports the first error that arrives of its two shutdowns.
\<close>

definition us_NewServer :: "(string \<Rightarrow> bool) \<Rightarrow> us_settings \<Rightarrow> host \<Rightarrow> (string + nat) \<times> host" where
  "us_NewServer ping cfg h =
     (if ucRedisAddr cfg = '''' then (Inl ''empty redis addr'', h)
      else (case open_conn (\<lambda>addr. True) (ucRedisAddr cfg) h of
          (None, h1) \<Rightarrow> (Inl ''dial'', h1)
        | (Some rdb, h1) \<Rightarrow> if \<not> ping (ucRedisAddr cfg) then (Inl ''ping'', h1) else (Inr rdb, h1)))"

definition us_StartHTTP :: "(string \<Rightarrow> bool) \<Rightarrow> us_settings \<Rightarrow> host \<Rightarrow> nat option \<times> host" where
  "us_StartHTTP ok cfg = open_listener ok (usHTTPListenAddr cfg)"

definition us_StartGRPC :: "(string \<Rightarrow> bool) \<Rightarrow> us_settings \<Rightarrow> host \<Rightarrow> nat option \<times> host" where
  "us_StartGRPC ok cfg = open_listener ok (usGRPCListenAddr cfg)"

datatype stop_error = ServerClosed | ShutdownError | DeadlineExceeded

definition first_error :: "stop_error option list \<Rightarrow> stop_error option" where
  "first_error arrivals = Option.bind (find (\<lambda>e. e \<noteq> None \<and> e \<noteq> Some ServerClosed) arrivals) id"

definition us_Stop ::
  "stop_error option \<Rightarrow> bool \<Rightarrow> bool \<Rightarrow> nat option \<Rightarrow> nat option \<Rightarrow> nat \<Rightarrow> host \<Rightarrow> stop_error option \<times> host" where
  "us_Stop http_err in_time http_first httpLn grpcLn rdb h =
     (let grpc_err = (if in_time then None else Some DeadlineExceeded);
          arrivals = (if http_first then [http_err, grpc_err] else [grpc_err, http_err])
      in (first_error arrivals, shut_conn rdb (close_listener grpcLn (close_listener httpLn h))))"

text \<open>
  The all-in-one server: a database that cannot be prepared is closed again. The heartbeat loop starts with the
  server; nothing ends it. \<open>initSchema\<close> executes the statements in order until one fails.
\<close>

definition sql_lines :: "nat \<Rightarrow> string list \<Rightarrow> string" where
  "sql_lines tabs ls = concat (map (\<lambda>l. [CHR 0x0A] @ replicate tabs (CHR 0x09) @ l) ls)"

definition schema_stmts :: "string list" where
  "schema_stmts =
     [''CREATE TABLE IF NOT EXISTS users (''
        @ sql_lines 3 [''id INTEGER PRIMARY KEY AUTOINCREMENT,'', ''username TEXT NOT NULL UNIQUE,'', ''password TEXT NOT NULL,'',
            ''created_at INTEGER NOT NULL''] @ sql_lines 2 ['');''],
      ''CREATE TABLE IF NOT EXISTS tokens (''
        @ sql_lines 3 [''token TEXT PRIMARY KEY,'', ''player_id TEXT NOT NULL,'', ''expire_at INTEGER NOT NULL'']
        @ sql_lines 2 ['');''],
      ''CREATE INDEX IF NOT EXISTS idx_tokens_player ON tokens(player_id);'']"

fun exec_all :: "('d \<Rightarrow> string \<Rightarrow> 'd option) \<Rightarrow> string list \<Rightarrow> 'd \<Rightarrow> bool \<times> 'd" where
  "exec_all exec [] d = (True, d)"
| "exec_all exec (st # stmts) d = (case exec d st of None \<Rightarrow> (False, d) | Some d' \<Rightarrow> exec_all exec stmts d')"

definition initSchema :: "('d \<Rightarrow> string \<Rightarrow> 'd option) \<Rightarrow> 'd \<Rightarrow> bool \<times> 'd" where
  "initSchema exec d = exec_all exec schema_stmts d"

definition mono_open ::
  "(string \<Rightarrow> bool) \<Rightarrow> ('d \<Rightarrow> string \<Rightarrow> 'd option) \<Rightarrow> mono_config \<Rightarrow> 'd \<Rightarrow> host \<Rightarrow> (nat \<times> 'd mono_server) option \<times> host" where
  "mono_open ok exec cfg d h =
     (case open_conn ok (cfDBPath (mono_defaults cfg)) h of
        (None, h1) \<Rightarrow> (None, h1)
      | (Some db, h1) \<Rightarrow>
        (case initSchema exec d of
           (False, d') \<Rightarrow> (None, shut_conn db h1)
         | (True, d') \<Rightarrow> (Some (db, mono_New cfg d'), h1\<lparr>hoLoops := hoLoops h1 + 1\<rparr>)))"

definition mono_Start :: "(string \<Rightarrow> bool) \<Rightarrow> 'd mono_server \<Rightarrow> host \<Rightarrow> nat option \<times> host" where
  "mono_Start ok s = open_listener ok (cfListenAddr (moCfg s))"

definition mono_Stop :: "(nat \<Rightarrow> bool) \<Rightarrow> nat option \<Rightarrow> nat \<Rightarrow> host \<Rightarrow> bool \<times> host" where
  "mono_Stop fails l db h = (fails db, shut_conn db (close_listener l h))"

text \<open>
  The gateway: it needs a token client and a dispatcher. The accept loop ends without an error when the gateway was
  stopped or its listener closed. \<open>Stop\<close> closes the sessions and then the dispatcher, but not the dispatcher when time ran out.
\<close>

definition gw_New :: "bool \<Rightarrow> bool \<Rightarrow> string + gateway" where
  "gw_New verifier_given dispatcher_given =
     (if \<not> verifier_given then Inl ''nil token verifier''
      else if \<not> dispatcher_given then Inl ''nil dispatcher''
      else Inr NewTCPGateway)"

definition gw_Start :: "(string \<Rightarrow> bool) \<Rightarrow> gateway_config \<Rightarrow> host \<Rightarrow> nat option \<times> host" where
  "gw_Start ok cfg = open_listener ok (gcListenTCPAddr cfg)"

definition gw_accept_failed :: "bool \<Rightarrow> bool \<Rightarrow> bool" where
  "gw_accept_failed stopped net_closed \<longleftrightarrow> \<not> (stopped \<or> net_closed)"

definition gw_StartWS :: "(string \<Rightarrow> bool) \<Rightarrow> gateway_config \<Rightarrow> host \<Rightarrow> nat option \<times> host" where
  "gw_StartWS ok cfg = open_listener ok (gcWSListenAddr cfg)"

definition gw_Shutdown ::
  "(nat \<Rightarrow> bool) \<Rightarrow> bool \<Rightarrow> nat option \<Rightarrow> nat option \<Rightarrow> dispatcher \<Rightarrow> gateway \<Rightarrow> host \<Rightarrow> bool \<times> gateway \<times> host" where
  "gw_Shutdown fails in_time l wsl d g h =
     (let h1 = close_listener wsl (close_listener l h)
      in (\<not> in_time, gw_Stop g, if in_time then snd (dispatcher_Close fails d h1) else h1))"

end
