(* ===== verification/LifecycleSpec.thy ===== *)
theory LifecycleSpec
  imports Lifecycle
begin

text \<open>
  What is opened and closed: constructors that fail leave nothing open, a web lobby that was started and
  stopped has given everything back, and the two places where something stays open.
\<close>

definition fresh_host :: "host \<Rightarrow> bool" where
  "fresh_host h \<longleftrightarrow> (\<forall>c \<in> set (hoConns h) \<union> set (hoListeners h). c < hoNext h)"

definition same_open :: "host \<Rightarrow> host \<Rightarrow> bool" where
  "same_open h h' \<longleftrightarrow> hoConns h' = hoConns h \<and> hoListeners h' = hoListeners h \<and> hoLoops h' = hoLoops h"

lemma same_open_refl [simp]: "same_open h h"
  by (simp add: same_open_def)

lemma open_conn_cases:
  obtains (failed) "open_conn ok addr h = (None, h)"
  | (opened) "open_conn ok addr h = (Some (hoNext h), h\<lparr>hoNext := hoNext h + 1, hoConns := hoNext h # hoConns h\<rparr>)"
  by (cases "ok addr") (auto simp: open_conn_def)

lemma client_New_cases:
  obtains (failed) e where "client_New t ok addr h = (Inl e, h)"
  | (opened) "client_New t ok addr h = (Inr (hoNext h), h\<lparr>hoNext := hoNext h + 1, hoConns := hoNext h # hoConns h\<rparr>)"
  by (cases "addr = ''''"; cases "ok addr") (auto simp: client_New_def open_conn_def)

lemma fresh_conns: "fresh_host h \<Longrightarrow> c \<in> set (hoConns h) \<Longrightarrow> c < hoNext h"
  and fresh_listeners: "fresh_host h \<Longrightarrow> c \<in> set (hoListeners h) \<Longrightarrow> c < hoNext h"
  by (auto simp: fresh_host_def)

lemmas client_defs = authclient_New_def gameclient_New_def roomclient_New_def pushclient_New_def NewGRPCVerifier_def

theorem dispatcher_all_or_nothing:
  assumes "fresh_host h" and "NewGRPCDispatcher ok cfg h = (res, h')"
  shows "case res of
      None \<Rightarrow> same_open h h'
    | Some d \<Rightarrow> (\<exists>a b c. d = \<lparr>lobbyConn = Some a, matchConn = Some b, roomConn = Some c\<rparr>
        \<and> hoConns h' = c # b # a # hoConns h \<and> distinct [a, b, c] \<and> {a, b, c} \<inter> set (hoConns h) = {})"
  using assms(2)
  by (auto simp: NewGRPCDispatcher_def open_conn_def shut_conn_def same_open_def filter_id_conv
      dest!: fresh_conns[OF assms(1)] split: if_splits)

theorem lobby_all_or_nothing:
  assumes "fresh_host h" and "ui_NewServer ok cfg h = (res, h')"
  shows "case res of
      Inl e \<Rightarrow> same_open h h'
    | Inr cl \<Rightarrow> hoConns h' = [pushCli cl, roomCli cl, gameCli cl, authCli cl] @ hoConns h
        \<and> distinct [authCli cl, gameCli cl, roomCli cl, pushCli cl]"
  using assms(2)
  by (auto simp: ui_NewServer_def client_defs client_New_def open_conn_def shut_conn_def same_open_def filter_id_conv
      dest!: fresh_conns[OF assms(1)] split: if_splits)

text \<open>Closing the dispatcher closes its connections even when a close fails, and reports the first failure.\<close>

theorem dispatcher_closed:
  assumes "dispatcher_Close fails d h = (err, h')"
  shows "hoConns h' = filter (\<lambda>c. Some c \<notin> {lobbyConn d, matchConn d, roomConn d}) (hoConns h)"
    and "err = Option.bind (find (\<lambda>c. \<exists>i. c = Some i \<and> fails i) [lobbyConn d, matchConn d, roomConn d]) id"
proof -
  show "hoConns h' = filter (\<lambda>c. Some c \<notin> {lobbyConn d, matchConn d, roomConn d}) (hoConns h)"
    using assms by (auto simp: dispatcher_Close_def close_part_def shut_conn_def intro!: filter_cong split: option.splits)
  show "err = Option.bind (find (\<lambda>c. \<exists>i. c = Some i \<and> fails i) [lobbyConn d, matchConn d, roomConn d]) id"
    using assms by (auto simp: dispatcher_Close_def close_part_def split: option.splits if_splits)
qed

text \<open>
  A lobby that is opened, started and stopped leaves the process as it was; so does one that
  cannot be opened, and a start that cannot listen ends its loop.
\<close>

theorem lobby_gives_back:
  assumes "fresh_host h" and "ui_NewServer ok cfg h = (Inr cl, h1)" and "ui_Start lok cfg h1 = (l, h2)"
  shows "l = None \<longrightarrow> same_open h1 h2"
    and "same_open h (snd (ui_Stop fails serr (l \<noteq> None) l cl h2))"
  using assms(2,3)
  by (auto simp: ui_NewServer_def client_defs client_New_def open_conn_def ui_Start_def open_listener_def Let_def same_open_def
      ui_Stop_def authclient_Close_def gameclient_Close_def roomclient_Close_def pushclient_Close_def client_Close_def
      shut_conn_def close_listener_def filter_id_conv dest!: fresh_conns[OF assms(1)] fresh_listeners[OF assms(1)] split: if_splits)

text \<open>
  A user service that cannot reach Redis leaves its client open; the all-in-one server stops without its
  heartbeat loop, and the gateway without its dispatcher when its time is over.
\<close>

lemma redis_client_left_open:
  "ucRedisAddr cfg \<noteq> '''' \<Longrightarrow> \<not> ping (ucRedisAddr cfg) \<Longrightarrow> hoConns (snd (us_NewServer ping cfg h)) = hoNext h # hoConns h"
  by (simp add: us_NewServer_def open_conn_def)

lemma heartbeat_loop_left_running:
  "mono_open ok exec cfg d h = (Some (db, s), h1) \<Longrightarrow> mono_Start lok s h1 = (l, h2) \<Longrightarrow>
     hoLoops (snd (mono_Stop fails l db h2)) = hoLoops h + 1"
  by (auto simp: mono_open_def mono_Start_def mono_Stop_def open_conn_def open_listener_def shut_conn_def close_listener_def
      split: if_splits prod.splits bool.splits)

lemma dispatcher_left_open:
  "hoConns (snd (snd (gw_Shutdown fails False l wsl d g h))) = hoConns h"
  by (simp add: gw_Shutdown_def close_listener_def Let_def split: option.split)

text \<open>The result of stopping the user service is an error exactly if one of its shutdowns failed.\<close>

lemma us_Stop_result:
  "fst (us_Stop http_err in_time http_first l1 l2 rdb h) = None \<longleftrightarrow>
     in_time \<and> (http_err = None \<or> http_err = Some ServerClosed)"
  by (auto simp: us_Stop_def first_error_def Let_def)

text \<open>
  The schema of the all-in-one server: preparing a database executes the three statements in order, each on what the one before it left; the
  server opens exactly when all succeed, and otherwise has closed the database again.
\<close>

lemma exec_all_fold: "exec_all exec stmts d = (True, d') \<longleftrightarrow> foldl (\<lambda>a st. Option.bind a (\<lambda>x. exec x st)) (Some d) stmts = Some d'"
proof (induction stmts arbitrary: d)
  case (Cons st stmts)
  have "foldl (\<lambda>a st. Option.bind a (\<lambda>x. exec x st)) None stmts = None" for stmts by (induction stmts) auto
  then show ?case using Cons by (simp split: option.split)
qed simp

theorem mono_opens_with_schema:
  assumes "fresh_host h" and "mono_open ok exec cfg d h = (res, h')"
  shows "case res of
      None \<Rightarrow> same_open h h'
    | Some (db, s) \<Rightarrow> foldl (\<lambda>a st. Option.bind a (\<lambda>x. exec x st)) (Some d) schema_stmts = Some (moDB s)
        \<and> hoConns h' = db # hoConns h \<and> moCfg s = mono_defaults cfg"
  using assms(2)
  by (auto simp: exec_all_fold[symmetric] mono_open_def initSchema_def mono_New_def open_conn_def shut_conn_def same_open_def filter_id_conv
      dest!: fresh_conns[OF assms(1)] split: if_splits prod.splits bool.splits)

end
