(* ===== verification/Mains.thy ===== *)
theory Mains
  imports Lifecycle
begin

text \<open>
  The main functions under \<open>cmd/\<close>. Each reads its configuration, makes its servers, starts them in goroutines of their own, waits
  for a signal and stops them; a failure ends the process with code 1, a panic with code 2. What a main function does
  before it waits is a function to \<open>started\<close>: the servers it runs and the steps its stopping takes. The steps of main and servers
  interleave in \<open>proc_step\<close>. Files, addresses and the ping of Redis are arguments; logging is left out.
\<close>

subsection \<open>The process\<close>

record environment =
  evConfig :: "string option"
  evRead :: "string \<Rightarrow> string option"
  evParse :: "string \<Rightarrow> json_doc option"
  evDial :: "string \<Rightarrow> bool"
  evListen :: "string \<Rightarrow> bool"
  evPing :: "string \<Rightarrow> bool"
  evInTime :: "nat \<Rightarrow> bool"

definition config_path :: "environment \<Rightarrow> string \<Rightarrow> string" where
  "config_path ev fallback = (case evConfig ev of None \<Rightarrow> fallback | Some p \<Rightarrow> p)"

datatype server_kind = TcpServer | HttpServer | GrpcServer

text \<open>
  Stopping, by server: closing its listener, telling it to stop (\<open>closed.Store\<close>, \<open>Shutdown\<close>, \<open>GracefulStop\<close>), and going on only when the
  server stopped in time.
\<close>

datatype stop_action = CloseListener nat | TellServer nat | RequireInTime bool

datatype started = Exited nat host | Serving "(server_kind \<times> string) list" "stop_action list" host

subsection \<open>Configurations and stopping\<close>

definition lobby_loadConfig :: "(string \<times> int) loader" where
  "lobby_loadConfig = stub_loadConfig '':19100''"

definition match_loadConfig :: "(string \<times> int) loader" where
  "match_loadConfig = stub_loadConfig '':19200''"

definition auth_loadConfig :: "us_settings loader" where
  "auth_loadConfig = us_loadConfig"

text \<open>
  The \<open>Stop\<close> functions: of the services with a gRPC server only, of the all-in-one server, the lobby and the game service, and of the
  user service, whose two shutdowns run in goroutines of their own (\<open>http_first\<close> tells which comes first). The gateway's \<open>Stop\<close> stores
  \<open>closed\<close> before it closes its listeners; the push server is the third server of the gateway process.
\<close>

definition grpc_script :: "stop_action list" where
  "grpc_script = [CloseListener 0, TellServer 0]"

definition mono_script :: "stop_action list" where
  "mono_script = [CloseListener 0, TellServer 0]"

definition ui_script :: "stop_action list" where
  "ui_script = [CloseListener 0, TellServer 0]"

definition game_script :: "stop_action list" where
  "game_script = [CloseListener 0, CloseListener 1, TellServer 0, TellServer 1]"

definition us_stop_script :: "bool \<Rightarrow> stop_action list" where
  "us_stop_script http_first =
     [CloseListener 0, CloseListener 1] @ (if http_first then [TellServer 0, TellServer 1] else [TellServer 1, TellServer 0])"

definition tcp_stop_script :: "stop_action list" where
  "tcp_stop_script = [TellServer 0, CloseListener 0, CloseListener 1, TellServer 1]"

definition push_stop_script :: "stop_action list" where
  "push_stop_script = [CloseListener 2, TellServer 2]"

text \<open>The end of the main functions that look at the answer of \<open>Stop\<close>.\<close>

definition us_script :: "bool \<Rightarrow> bool \<Rightarrow> stop_action list" where
  "us_script http_first in_time = us_stop_script http_first @ [RequireInTime in_time]"

definition gateway_script :: "bool \<Rightarrow> bool \<Rightarrow> stop_action list" where
  "gateway_script gateway_in_time push_in_time =
     tcp_stop_script @ [RequireInTime gateway_in_time] @ push_stop_script @ [RequireInTime push_in_time]"

subsection \<open>The main functions\<close>

definition lobby_main :: "environment \<Rightarrow> host \<Rightarrow> started" where
  "lobby_main ev h =
     (case lobby_loadConfig (evRead ev) (evParse ev) (config_path ev ''configs/lobby.json'') of
        Inl e \<Rightarrow> Exited 1 h
      | Inr (addr, shut) \<Rightarrow> Serving [(GrpcServer, addr)] grpc_script h)"

definition match_main :: "environment \<Rightarrow> host \<Rightarrow> started" where
  "match_main ev h =
     (case match_loadConfig (evRead ev) (evParse ev) (config_path ev ''configs/match.json'') of
        Inl e \<Rightarrow> Exited 1 h
      | Inr (addr, shut) \<Rightarrow> Serving [(GrpcServer, addr)] grpc_script h)"

definition room_main :: "environment \<Rightarrow> host \<Rightarrow> started" where
  "room_main ev h =
     (case room_loadConfig (evRead ev) (evParse ev) (config_path ev ''configs/room.json'') of
        Inl e \<Rightarrow> Exited 1 h
      | Inr (addr, shut, frame) \<Rightarrow> Serving [(GrpcServer, addr)] grpc_script h)"

definition mono_main :: "('d \<Rightarrow> string \<Rightarrow> 'd option) \<Rightarrow> 'd \<Rightarrow> environment \<Rightarrow> host \<Rightarrow> started" where
  "mono_main exec d ev h =
     (case mono_loadConfig (evRead ev) (evParse ev) (config_path ev ''configs/mono.json'') of
        Inl e \<Rightarrow> Exited 1 h
      | Inr cfg \<Rightarrow>
        (case mono_open (evDial ev) exec cfg d h of
           (None, h1) \<Rightarrow> Exited 1 h1
         | (Some (db, s), h1) \<Rightarrow>
             Serving [(HttpServer, cfListenAddr (moCfg s))] mono_script h1))"

definition game_main :: "environment \<Rightarrow> host \<Rightarrow> started" where
  "game_main ev h =
     (case game_loadConfig (evRead ev) (evParse ev) (config_path ev ''configs/game.json'') of
        Inl e \<Rightarrow> Exited 1 h
      | Inr (cfg, shut) \<Rightarrow>
        (case game_New (evDial ev) cfg h of
           (None, h1) \<Rightarrow> Exited 2 h1
         | (Some (cfg', verifier), h1) \<Rightarrow>
             Serving [(HttpServer, gamecfgWSListenAddr cfg'), (GrpcServer, gamecfgGRPCListenAddr cfg')]
               game_script h1))"

definition ui_main :: "environment \<Rightarrow> host \<Rightarrow> started" where
  "ui_main ev h =
     (case ui_loadConfig (evRead ev) (evParse ev) (config_path ev ''configs/ui.json'') of
        Inl e \<Rightarrow> Exited 1 h
      | Inr cfg \<Rightarrow>
        if ValidateConfig (ui_config.truncate cfg) \<noteq> None then Exited 2 h
        else (case ui_NewServer (evDial ev) cfg h of
            (Inl e, h1) \<Rightarrow> Exited 1 h1
          | (Inr clients, h1) \<Rightarrow> Serving [(HttpServer, ucListenAddr cfg)] ui_script h1))"

definition usersystem_main :: "bool \<Rightarrow> environment \<Rightarrow> host \<Rightarrow> started" where
  "usersystem_main http_first ev h =
     (case us_loadConfig (evRead ev) (evParse ev) (config_path ev ''configs/usersystem.json'') of
        Inl e \<Rightarrow> Exited 1 h
      | Inr cfg \<Rightarrow>
        (case us_NewServer (evPing ev) cfg h of
           (Inl e, h1) \<Rightarrow> Exited 1 h1
         | (Inr rdb, h1) \<Rightarrow>
             Serving [(HttpServer, usHTTPListenAddr cfg), (GrpcServer, usGRPCListenAddr cfg)]
               (us_script http_first (evInTime ev 0)) h1))"

definition auth_main :: "bool \<Rightarrow> environment \<Rightarrow> host \<Rightarrow> started" where
  "auth_main http_first ev h =
     (case auth_loadConfig (evRead ev) (evParse ev) (config_path ev ''configs/auth.json'') of
        Inl e \<Rightarrow> Exited 1 h
      | Inr cfg \<Rightarrow>
        (case us_NewServer (evPing ev) cfg h of
           (Inl e, h1) \<Rightarrow> Exited 1 h1
         | (Inr rdb, h1) \<Rightarrow>
             Serving [(HttpServer, usHTTPListenAddr cfg), (GrpcServer, usGRPCListenAddr cfg)]
               (us_script http_first (evInTime ev 0)) h1))"

text \<open>The gateway runs the binary protocol, the websockets and the push service; it stops the push service only if the rest stopped in time.\<close>

definition gateway_main :: "environment \<Rightarrow> host \<Rightarrow> started" where
  "gateway_main ev h =
     (case LoadFromFile (evRead ev) (evParse ev) (config_path ev ''configs/gateway.json'') of
        Inl e \<Rightarrow> Exited 1 h
      | Inr cfg \<Rightarrow>
        (case NewGRPCVerifier (evDial ev) (gcAuthGRPCAddr cfg) h of
           (Inl e, h1) \<Rightarrow> Exited 1 h1
         | (Inr verifier, h1) \<Rightarrow>
           (case NewGRPCDispatcher (evDial ev) cfg h1 of
              (None, h2) \<Rightarrow> Exited 1 h2
            | (Some dispatcher, h2) \<Rightarrow>
              (case gw_New True True of
                 Inl e \<Rightarrow> Exited 1 h2
               | Inr g \<Rightarrow>
                 if \<not> push_NewServer True then Exited 1 h2
                 else Serving [(TcpServer, gcListenTCPAddr cfg), (HttpServer, gcWSListenAddr cfg), (GrpcServer, gcGRPCListenAddr cfg)]
                        (gateway_script (evInTime ev 0) (evInTime ev 1)) h2))))"

text \<open>\<open>cmd/dbinit\<close> runs to its end: the exit code and the database after it.\<close>

definition dbinit_main ::
  "('d \<Rightarrow> string \<Rightarrow> 'd option) \<Rightarrow> (string \<Rightarrow> bool) \<Rightarrow> environment \<Rightarrow> 'd \<Rightarrow> nat \<times> 'd" where
  "dbinit_main exec open_ok ev d =
     (case dbinit_loadConfig (evRead ev) (evParse ev) (config_path ev ''configs/dbinit.json'') of
        Inl e \<Rightarrow> (1, d)
      | Inr cfg \<Rightarrow>
        if dbDSN cfg = '''' then (1, d)
        else (case evRead ev (dbFile cfg) of
            None \<Rightarrow> (1, d)
          | Some data \<Rightarrow>
            if \<not> open_ok (dbDSN cfg) then (1, d)
            else if \<not> evPing ev (dbDSN cfg) then (1, d)
            else (case exec_statements exec 0 (splitSQLStatements data) d of
                (Some failed, d') \<Rightarrow> (1, d')
              | (None, d') \<Rightarrow> (0, d'))))"

text \<open>The addresses \<open>cmd/mono\<close> and \<open>cmd/ui\<close> print.\<close>

definition mono_page_urls :: "string \<Rightarrow> string list" where
  "mono_page_urls listenAddr =
     map (\<lambda>path. buildBaseURL listenAddr @ path) [''/'', ''/lobby'', ''/room'', ''/game'', ''/healthz'']"

definition ui_page_urls :: "string \<Rightarrow> string list" where
  "ui_page_urls listenAddr = map (\<lambda>path. buildBaseURL listenAddr @ path) [''/'', ''/lobby'', ''/room'', ''/game'']"

subsection \<open>Main and servers side by side\<close>

record process =
  pcServers :: "(server_kind \<times> string) list"
  pcScript :: "stop_action list"
  pcListening :: "nat set"
  pcSignalled :: bool
  pcClosed :: "nat set"
  pcTold :: "nat set"
  pcReturned :: "nat set"
  pcExit :: "nat option"

definition launch :: "(server_kind \<times> string) list \<Rightarrow> stop_action list \<Rightarrow> process" where
  "launch servers script =
     \<lparr>pcServers = servers, pcScript = script, pcListening = {}, pcSignalled = False, pcClosed = {}, pcTold = {},
      pcReturned = {}, pcExit = None\<rparr>"

fun do_action :: "stop_action \<Rightarrow> process \<Rightarrow> process" where
  "do_action (CloseListener i) p = p\<lparr>pcClosed := insert i (pcClosed p)\<rparr>"
| "do_action (TellServer i) p = p\<lparr>pcTold := insert i (pcTold p)\<rparr>"
| "do_action (RequireInTime b) p = (if b then p else p\<lparr>pcExit := Some 1\<rparr>)"

text \<open>
  Whether serving ends with an error when the listener is closed or the server told to stop. The accept loop of the gateway returns
  none then, \<open>http.Server.Serve\<close> always returns one; \<open>grpc.Server.Serve\<close> is an argument, documented to
  return an error unless the server was told to stop.
\<close>

fun serve_error :: "(bool \<Rightarrow> bool) \<Rightarrow> server_kind \<Rightarrow> bool \<Rightarrow> bool" where
  "serve_error grpc_serve TcpServer told = gw_accept_failed told True"
| "serve_error grpc_serve HttpServer told = True"
| "serve_error grpc_serve GrpcServer told = grpc_serve told"

definition documented_serve :: "(bool \<Rightarrow> bool) \<Rightarrow> bool" where
  "documented_serve grpc_serve \<longleftrightarrow> (\<forall>told. grpc_serve told = (\<not> told))"

text \<open>A goroutine whose server fails ends the process; main waits for a signal, which comes when all servers listen.\<close>

inductive proc_step :: "(string \<Rightarrow> bool) \<Rightarrow> (bool \<Rightarrow> bool) \<Rightarrow> process \<Rightarrow> process \<Rightarrow> bool" for listen serve where
  listens: "pcExit p = None \<Longrightarrow> i < length (pcServers p) \<Longrightarrow> i \<notin> pcListening p \<Longrightarrow> listen (snd (pcServers p ! i)) \<Longrightarrow>
    proc_step listen serve p (p\<lparr>pcListening := insert i (pcListening p)\<rparr>)"
| refused: "pcExit p = None \<Longrightarrow> i < length (pcServers p) \<Longrightarrow> i \<notin> pcListening p \<Longrightarrow> \<not> listen (snd (pcServers p ! i)) \<Longrightarrow>
    proc_step listen serve p (p\<lparr>pcExit := Some 1\<rparr>)"
| signal: "pcExit p = None \<Longrightarrow> \<not> pcSignalled p \<Longrightarrow> pcListening p = {..<length (pcServers p)} \<Longrightarrow>
    proc_step listen serve p (p\<lparr>pcSignalled := True\<rparr>)"
| act: "pcExit p = None \<Longrightarrow> pcSignalled p \<Longrightarrow> pcScript p = a # rest \<Longrightarrow>
    proc_step listen serve p (do_action a (p\<lparr>pcScript := rest\<rparr>))"
| ends: "pcExit p = None \<Longrightarrow> pcSignalled p \<Longrightarrow> pcScript p = [] \<Longrightarrow> proc_step listen serve p (p\<lparr>pcExit := Some 0\<rparr>)"
| returns: "pcExit p = None \<Longrightarrow> i \<in> pcListening p \<Longrightarrow> i \<notin> pcReturned p \<Longrightarrow> i \<in> pcClosed p \<union> pcTold p \<Longrightarrow>
    proc_step listen serve p
      (if serve_error serve (fst (pcServers p ! i)) (i \<in> pcTold p) then p\<lparr>pcExit := Some 1\<rparr>
       else p\<lparr>pcReturned := insert i (pcReturned p)\<rparr>)"

abbreviation proc_steps :: "(string \<Rightarrow> bool) \<Rightarrow> (bool \<Rightarrow> bool) \<Rightarrow> process \<Rightarrow> process \<Rightarrow> bool" where
  "proc_steps listen serve \<equiv> (proc_step listen serve)\<^sup>*\<^sup>*"

end
