(* ===== verification/MainsSpec.thy ===== *)
theory MainsSpec
  imports Mains ConfigSpec ProgramsSpec
begin

text \<open>
  How the programs of \<open>cmd/\<close> end. Every one can be stopped in an orderly way and end with code 0, and every one can end with
  code 1 in the middle of stopping: the listeners are closed before the servers are told to stop, so that a server may take the closed
  listener for a failure. Scripts that tell first do not have this fault.
\<close>

subsection \<open>Runs\<close>

definition all_open :: "(string \<Rightarrow> bool) \<Rightarrow> (server_kind \<times> string) list \<Rightarrow> bool" where
  "all_open listen servers \<longleftrightarrow> (\<forall>i < length servers. listen (snd (servers ! i)))"

definition running :: "(server_kind \<times> string) list \<Rightarrow> stop_action list \<Rightarrow> process" where
  "running servers script = (launch servers script)\<lparr>pcListening := {..<length servers}, pcSignalled := True\<rparr>"

lemma servers_listen:
  assumes "all_open listen servers" and "k \<le> length servers"
  shows "proc_steps listen serve (launch servers script) ((launch servers script)\<lparr>pcListening := {..<k}\<rparr>)"
  using assms(2)
proof (induction k)
  case 0
  then show ?case by (simp add: launch_def)
next
  case (Suc k)
  let ?p = "(launch servers script)\<lparr>pcListening := {..<k}\<rparr>"
  have "proc_step listen serve ?p (?p\<lparr>pcListening := insert k (pcListening ?p)\<rparr>)"
    using assms(1) Suc.prems by (intro proc_step.listens) (auto simp: launch_def all_open_def)
  moreover have "insert k {..<k} = {..<Suc k}" by auto
  ultimately show ?case using Suc by (simp add: rtranclp.rtrancl_into_rtrancl)
qed

lemma reaches_running:
  assumes "all_open listen servers"
  shows "proc_steps listen serve (launch servers script) (running servers script)"
proof -
  let ?p = "(launch servers script)\<lparr>pcListening := {..<length servers}\<rparr>"
  have "proc_step listen serve ?p (?p\<lparr>pcSignalled := True\<rparr>)" by (rule proc_step.signal) (simp_all add: launch_def)
  then show ?thesis
    using servers_listen[OF assms order_refl, of serve script]
    by (simp add: running_def rtranclp.rtrancl_into_rtrancl)
qed

definition do_actions :: "stop_action list \<Rightarrow> process \<Rightarrow> process" where
  "do_actions as p = fold do_action as p"

lemma do_actions_view:
  "pcServers (do_actions as p) = pcServers p" "pcScript (do_actions as p) = pcScript p"
  "pcListening (do_actions as p) = pcListening p" "pcSignalled (do_actions as p) = pcSignalled p"
  "pcReturned (do_actions as p) = pcReturned p"
  "pcClosed (do_actions as p) = pcClosed p \<union> {i. CloseListener i \<in> set as}"
  "pcTold (do_actions as p) = pcTold p \<union> {i. TellServer i \<in> set as}"
  "RequireInTime False \<notin> set as \<Longrightarrow> pcExit (do_actions as p) = pcExit p"
proof -
  have act: "pcServers (do_action a p) = pcServers p \<and> pcScript (do_action a p) = pcScript p \<and> pcListening (do_action a p) = pcListening p
      \<and> pcSignalled (do_action a p) = pcSignalled p \<and> pcReturned (do_action a p) = pcReturned p
      \<and> pcClosed (do_action a p) = pcClosed p \<union> {i. CloseListener i = a} \<and> pcTold (do_action a p) = pcTold p \<union> {i. TellServer i = a}
      \<and> (a \<noteq> RequireInTime False \<longrightarrow> pcExit (do_action a p) = pcExit p)" for a p
    by (cases a) auto
  show "pcServers (do_actions as p) = pcServers p" "pcScript (do_actions as p) = pcScript p"
    "pcListening (do_actions as p) = pcListening p" "pcSignalled (do_actions as p) = pcSignalled p"
    "pcReturned (do_actions as p) = pcReturned p"
    "pcClosed (do_actions as p) = pcClosed p \<union> {i. CloseListener i \<in> set as}"
    "pcTold (do_actions as p) = pcTold p \<union> {i. TellServer i \<in> set as}"
    "RequireInTime False \<notin> set as \<Longrightarrow> pcExit (do_actions as p) = pcExit p"
    unfolding do_actions_def by (induction as arbitrary: p) (auto simp: act)
qed

lemma do_action_script: "do_action a (p\<lparr>pcScript := s\<rparr>) = (do_action a p)\<lparr>pcScript := s\<rparr>"
  by (cases a) auto

lemma do_actions_script: "do_actions as (p\<lparr>pcScript := s\<rparr>) = (do_actions as p)\<lparr>pcScript := s\<rparr>"
  unfolding do_actions_def by (induction as arbitrary: p) (auto simp: do_action_script)

lemma script_runs:
  assumes "pcScript p = as @ rest" and "pcSignalled p" and "pcExit p = None" and "RequireInTime False \<notin> set as"
  shows "proc_steps listen serve p ((do_actions as p)\<lparr>pcScript := rest\<rparr>)"
  using assms
proof (induction as arbitrary: p)
  case Nil
  then show ?case by (cases p) (simp add: do_actions_def)
next
  case (Cons a as)
  let ?q = "do_action a (p\<lparr>pcScript := as @ rest\<rparr>)"
  have q: "?q = (do_actions [a] p)\<lparr>pcScript := as @ rest\<rparr>" by (simp add: do_actions_def do_action_script)
  have "proc_step listen serve p ?q" using Cons.prems by (intro proc_step.act) auto
  moreover have "proc_steps listen serve ?q ((do_actions as ?q)\<lparr>pcScript := rest\<rparr>)"
    using Cons.prems do_actions_view(4,8)[of "[a]" p] by (intro Cons.IH) (auto simp: q)
  moreover have "(do_actions as ?q)\<lparr>pcScript := rest\<rparr> = (do_actions (a # as) p)\<lparr>pcScript := rest\<rparr>"
    by (simp add: q do_actions_script) (simp add: do_actions_def)
  ultimately show ?case by (metis converse_rtranclp_into_rtranclp)
qed

subsection \<open>Orderly ends and aborted ones\<close>

lemma ends_in_order:
  assumes "all_open listen servers" and "RequireInTime False \<notin> set script"
  shows "\<exists>q. proc_steps listen serve (launch servers script) q \<and> pcExit q = Some 0"
proof -
  let ?p = "running servers script" and ?q = "(do_actions script (running servers script))\<lparr>pcScript := []\<rparr>"
  have "proc_steps listen serve ?p ?q"
    by (rule script_runs) (use assms(2) in \<open>auto simp: running_def launch_def\<close>)
  moreover have "proc_step listen serve ?q (?q\<lparr>pcExit := Some 0\<rparr>)"
    using do_actions_view(4,8)[of script ?p] assms(2) by (intro proc_step.ends) (auto simp: running_def launch_def)
  ultimately show ?thesis
    using reaches_running[OF assms(1), of serve script] by (intro exI[of _ "?q\<lparr>pcExit := Some 0\<rparr>"]) auto
qed

text \<open>The server that fails when its listener goes away.\<close>

definition unforgiving :: "server_kind \<Rightarrow> bool \<Rightarrow> bool" where
  "unforgiving k told \<longleftrightarrow> k = HttpServer \<or> k = GrpcServer \<and> \<not> told"

lemma aborts:
  assumes "all_open listen servers" and "script = before @ CloseListener i # rest" and "i < length servers"
    and "unforgiving (fst (servers ! i)) (TellServer i \<in> set before)" and "RequireInTime False \<notin> set before"
    and "documented_serve serve"
  shows "\<exists>q. proc_steps listen serve (launch servers script) q \<and> pcExit q = Some 1 \<and> pcScript q = rest
    \<and> pcListening q = {..<length servers} \<and> i \<in> pcClosed q \<and> pcTold q = {j. TellServer j \<in> set before}"
proof -
  let ?p = "running servers script" and ?as = "before @ [CloseListener i]"
  let ?q = "(do_actions ?as ?p)\<lparr>pcScript := rest\<rparr>"
  note view = do_actions_view[of ?as ?p]
  have p: "pcServers ?p = servers" "pcListening ?p = {..<length servers}" "pcTold ?p = {}" "pcReturned ?p = {}" "pcExit ?p = None"
    "pcSignalled ?p" "pcScript ?p = script"
    by (simp_all add: running_def launch_def)
  have run: "proc_steps listen serve ?p ?q" by (rule script_runs) (use assms p in auto)
  have "proc_step listen serve ?q
      (if serve_error serve (fst (pcServers ?q ! i)) (i \<in> pcTold ?q) then ?q\<lparr>pcExit := Some 1\<rparr> else ?q\<lparr>pcReturned := insert i (pcReturned ?q)\<rparr>)"
    using view assms(3,5) p by (intro proc_step.returns) auto
  moreover have "serve_error serve (fst (pcServers ?q ! i)) (i \<in> pcTold ?q)"
    using view assms(4,6) p by (auto simp: unforgiving_def documented_serve_def)
  ultimately have "proc_step listen serve ?q (?q\<lparr>pcExit := Some 1\<rparr>)" by simp
  with run show ?thesis
    using reaches_running[OF assms(1), of serve script] view p by (intro exI[of _ "?q\<lparr>pcExit := Some 1\<rparr>"]) auto
qed

text \<open>
  A script that tells every gRPC server to stop before it closes its listener, for servers none of which is an HTTP server, never ends
  the process with an error unless time runs out.
\<close>

definition tells_first :: "(server_kind \<times> string) list \<Rightarrow> stop_action list \<Rightarrow> bool" where
  "tells_first servers script \<longleftrightarrow>
     (\<forall>before i rest. script = before @ CloseListener i # rest \<longrightarrow> \<not> unforgiving (fst (servers ! i)) (TellServer i \<in> set before))"

definition progress :: "(server_kind \<times> string) list \<Rightarrow> stop_action list \<Rightarrow> process \<Rightarrow> bool" where
  "progress servers script q \<longleftrightarrow>
     pcServers q = servers
     \<and> pcListening q \<subseteq> {..<length servers}
     \<and> (pcExit q = Some 0 \<longrightarrow> pcScript q = [])
     \<and> (\<exists>before. script = before @ pcScript q \<and> pcClosed q = {i. CloseListener i \<in> set before}
          \<and> pcTold q = {i. TellServer i \<in> set before})"

lemma step_progress:
  assumes "proc_step listen serve p q" and "progress servers script p"
  shows "progress servers script q"
  using assms
proof cases
  case (act a rest)
  obtain before where b: "script = before @ pcScript p" "pcClosed p = {i. CloseListener i \<in> set before}"
    "pcTold p = {i. TellServer i \<in> set before}" "pcServers p = servers" "pcListening p \<subseteq> {..<length servers}"
    using assms(2) by (auto simp: progress_def)
  have "q = (do_actions [a] p)\<lparr>pcScript := rest\<rparr>" using act by (simp add: do_actions_def do_action_script)
  then show ?thesis
    using b act do_actions_view[of "[a]" p]
    by (cases a) (auto simp: progress_def do_actions_def intro!: exI[of _ "before @ [a]"])
qed (auto simp: progress_def)

lemma steps_progress: "proc_steps listen serve (launch servers script) q \<Longrightarrow> progress servers script q"
proof (induction rule: rtranclp_induct)
  case base
  then show ?case by (simp add: progress_def launch_def)
next
  case (step p q)
  then show ?case by (blast intro: step_progress)
qed

lemma closed_told:
  assumes "progress servers script p" and "tells_first servers script" and "i \<in> pcClosed p \<union> pcTold p"
    and "\<forall>j < length servers. fst (servers ! j) \<noteq> HttpServer" and "i < length servers" and "documented_serve serve"
  shows "\<not> serve_error serve (fst (servers ! i)) (i \<in> pcTold p)"
proof -
  obtain before where b: "script = before @ pcScript p" "pcClosed p = {i. CloseListener i \<in> set before}"
    "pcTold p = {i. TellServer i \<in> set before}"
    using assms(1) by (auto simp: progress_def)
  have "TellServer i \<in> set before" if h: "CloseListener i \<in> set before" "fst (servers ! i) = GrpcServer"
  proof -
    obtain b1 b2 where "before = b1 @ CloseListener i # b2" using split_list[OF h(1)] by blast
    then have "\<not> unforgiving (fst (servers ! i)) (TellServer i \<in> set b1)"
      using assms(2) b(1) unfolding tells_first_def by (metis append_Cons append_assoc)
    then show ?thesis using h(2) \<open>before = _\<close> by (simp add: unforgiving_def)
  qed
  then show ?thesis using assms(3-6) b by (cases "fst (servers ! i)") (auto simp: gw_accept_failed_def documented_serve_def)
qed

theorem told_first_ends_well:
  assumes "proc_steps listen serve (launch servers script) q" and "all_open listen servers" and "RequireInTime False \<notin> set script"
    and "tells_first servers script" and "\<forall>j < length servers. fst (servers ! j) \<noteq> HttpServer" and "documented_serve serve"
  shows "pcExit q = None \<or> pcExit q = Some 0"
  using assms(1)
proof (induction rule: rtranclp_induct)
  case base
  then show ?case by (simp add: launch_def)
next
  case (step p q)
  have pr: "progress servers script p" using step(1) by (rule steps_progress)
  then have srv: "pcServers p = servers" and lis: "pcListening p \<subseteq> {..<length servers}" by (auto simp: progress_def)
  have time: "a \<noteq> RequireInTime False" if "pcScript p = a # rest" for a rest
    using pr that assms(3) by (auto simp: progress_def)
  from step(2) show ?case
  proof cases
    case (act a rest)
    then show ?thesis using time[OF act(4)] by (cases a) auto
  next
    case (returns i)
    then show ?thesis using closed_told[OF pr assms(4) _ assms(5) _ assms(6)] lis srv by auto
  qed (use assms(2) srv in \<open>auto simp: all_open_def\<close>)
qed

subsection \<open>The programs\<close>

datatype program = LobbyProgram | MatchProgram | RoomProgram | MonoProgram | GameProgram | UiProgram | UserProgram | AuthProgram
  | GatewayProgram

fun start_program :: "('d \<Rightarrow> string \<Rightarrow> 'd option) \<Rightarrow> 'd \<Rightarrow> bool \<Rightarrow> program \<Rightarrow> environment \<Rightarrow> host \<Rightarrow> started" where
  "start_program exec d hf LobbyProgram ev h = lobby_main ev h"
| "start_program exec d hf MatchProgram ev h = match_main ev h"
| "start_program exec d hf RoomProgram ev h = room_main ev h"
| "start_program exec d hf MonoProgram ev h = mono_main exec d ev h"
| "start_program exec d hf GameProgram ev h = game_main ev h"
| "start_program exec d hf UiProgram ev h = ui_main ev h"
| "start_program exec d hf UserProgram ev h = usersystem_main hf ev h"
| "start_program exec d hf AuthProgram ev h = auth_main hf ev h"
| "start_program exec d hf GatewayProgram ev h = gateway_main ev h"

lemmas main_defs = lobby_main_def match_main_def room_main_def mono_main_def game_main_def ui_main_def usersystem_main_def
  auth_main_def gateway_main_def

lemmas script_defs = grpc_script_def mono_script_def ui_script_def game_script_def us_stop_script_def us_script_def tcp_stop_script_def
  push_stop_script_def gateway_script_def

text \<open>The servers of the programs with their scripts.\<close>

lemma program_scripts:
  assumes "start_program exec d hf prog ev h = Serving servers script h'"
  obtains k where "map fst servers = [k]" and "k \<noteq> TcpServer" and "script = [CloseListener 0, TellServer 0]"
  | "map fst servers = [HttpServer, GrpcServer]" and "script = game_script"
  | http_first in_time where "map fst servers = [HttpServer, GrpcServer]" and "script = us_script http_first in_time"
  | gw_in_time push_in_time where "map fst servers = [TcpServer, HttpServer, GrpcServer]" and "script = gateway_script gw_in_time push_in_time"
  using assms
  by (cases prog)
    (auto simp: main_defs grpc_script_def mono_script_def ui_script_def split: sum.splits option.splits prod.splits if_splits)

text \<open>Every script closes the listener of some HTTP or gRPC server before it tells that server.\<close>

lemma closes_first:
  assumes "start_program exec d hf prog ev h = Serving servers script h'"
  shows "\<exists>before i rest. script = before @ CloseListener i # rest \<and> i < length servers \<and> TellServer i \<in> set rest
    \<and> TellServer i \<notin> set before \<and> unforgiving (fst (servers ! i)) False \<and> RequireInTime False \<notin> set before"
  using assms
proof (cases rule: program_scripts)
  case (1 k)
  then have "length servers = 1" "fst (servers ! 0) = k" by (auto simp: map_eq_Cons_conv)
  then show ?thesis using 1
    by (intro exI[of _ "[]"] exI[of _ 0] exI[of _ "[TellServer 0]"]) (cases k; simp add: unforgiving_def)
next
  case 2
  then have "length servers = 2" "fst (servers ! 0) = HttpServer" by (auto simp: map_eq_Cons_conv)
  then show ?thesis using 2
    by (intro exI[of _ "[]"] exI[of _ 0] exI[of _ "tl game_script"]) (simp add: unforgiving_def game_script_def)
next
  case (3 hf t)
  then have "length servers = 2" "fst (servers ! 0) = HttpServer" by (auto simp: map_eq_Cons_conv)
  then show ?thesis using 3
    by (intro exI[of _ "[]"] exI[of _ 0] exI[of _ "tl (us_script hf t)"]) (simp add: unforgiving_def us_script_def us_stop_script_def)
next
  case (4 a b)
  then have "length servers = 3" "fst (servers ! 1) = HttpServer" by (auto simp: map_eq_Cons_conv)
  then show ?thesis using 4
    by (intro exI[of _ "[TellServer 0, CloseListener 0]"] exI[of _ 1] exI[of _ "drop 3 (gateway_script a b)"])
      (simp add: unforgiving_def gateway_script_def tcp_stop_script_def)
qed

text \<open>Every script closes every listener and tells every server.\<close>

lemma scripts_complete:
  assumes "start_program exec d hf prog ev h = Serving servers script h'"
  shows "{i. CloseListener i \<in> set script} = {..<length servers} \<and> {i. TellServer i \<in> set script} = {..<length servers}"
  using assms
proof (cases rule: program_scripts)
  case (1 k)
  then have "length servers = 1" by (auto simp: map_eq_Cons_conv)
  then show ?thesis using 1 by auto
next
  case 2
  then have "length servers = 2" by (auto simp: map_eq_Cons_conv)
  then show ?thesis unfolding 2(2) game_script_def by auto
next
  case (3 hf t)
  then have "length servers = 2" by (auto simp: map_eq_Cons_conv)
  then show ?thesis unfolding 3(2) us_script_def us_stop_script_def by (cases hf) auto
next
  case (4 a b)
  then have "length servers = 3" by (auto simp: map_eq_Cons_conv)
  then show ?thesis unfolding 4(2) gateway_script_def tcp_stop_script_def push_stop_script_def by auto
qed

lemma zero_told_all:
  assumes "proc_steps listen serve (launch servers script) q" and "pcExit q = Some 0"
  shows "pcScript q = []" and "pcClosed q = {i. CloseListener i \<in> set script}" and "pcTold q = {i. TellServer i \<in> set script}"
  using steps_progress[OF assms(1)] assms(2) by (auto simp: progress_def)

text \<open>
  C40: Stopping a program, where gRPC serves as documented and every address can be listened on. A run of any of the
  programs that ends with code 0 has closed every listener, told every server to stop and gone through its whole stopping
  script; if the time allowed suffices there is such a run. But there is also, whatever the program, a run that ends with code 1 in
  the middle: a server that was listening has lost its listener and was never told to stop, because its goroutine takes the listener
  main has closed for a failure and ends the process before main comes to tell it.
\<close>

theorem stop_can_abort:
  assumes "start_program exec d hf prog ev h = Serving servers script h'" and "all_open (evListen ev) servers" and "documented_serve serve"
  shows "(\<forall>q. proc_steps (evListen ev) serve (launch servers script) q \<longrightarrow> pcExit q = Some 0
        \<longrightarrow> pcScript q = [] \<and> pcClosed q = {..<length servers} \<and> pcTold q = {..<length servers})
    \<and> (RequireInTime False \<notin> set script \<longrightarrow>
        (\<exists>q. proc_steps (evListen ev) serve (launch servers script) q \<and> pcExit q = Some 0))
    \<and> (\<exists>q i. proc_steps (evListen ev) serve (launch servers script) q \<and> pcExit q = Some 1
        \<and> i \<in> pcListening q \<and> i \<in> pcClosed q \<and> i \<notin> pcTold q \<and> TellServer i \<in> set (pcScript q))"
proof (intro conjI allI impI)
  obtain before i rest where c: "script = before @ CloseListener i # rest" "i < length servers" "TellServer i \<in> set rest"
    "TellServer i \<notin> set before" "unforgiving (fst (servers ! i)) False" "RequireInTime False \<notin> set before"
    using closes_first[OF assms(1)] by blast
  then show "\<exists>q i. proc_steps (evListen ev) serve (launch servers script) q \<and> pcExit q = Some 1
        \<and> i \<in> pcListening q \<and> i \<in> pcClosed q \<and> i \<notin> pcTold q \<and> TellServer i \<in> set (pcScript q)"
    using aborts[OF assms(2) c(1,2) _ c(6) assms(3)] by fastforce
next
  fix q assume "proc_steps (evListen ev) serve (launch servers script) q" "pcExit q = Some 0"
  from zero_told_all[OF this] show "pcScript q = []" "pcClosed q = {..<length servers}" "pcTold q = {..<length servers}"
    using scripts_complete[OF assms(1)] by simp_all
qed (rule ends_in_order[OF assms(2)])

text \<open>The gateway with an empty configuration file and every address free.\<close>

definition quiet_day :: environment where
  "quiet_day = \<lparr>evConfig = None, evRead = (\<lambda>path. Some ''{}''), evParse = (\<lambda>data. Some (DocObject [])), evDial = (\<lambda>a. True),
     evListen = (\<lambda>a. True), evPing = (\<lambda>a. True), evInTime = (\<lambda>i. True)\<rparr>"

definition new_host :: host where
  "new_host = \<lparr>hoNext = 0, hoConns = [], hoListeners = [], hoLoops = 0\<rparr>"

lemma gateway_on_quiet_day:
  "\<exists>h'. start_program (\<lambda>d st. Some d) () True GatewayProgram quiet_day new_host =
    Serving [(TcpServer, gcListenTCPAddr defaultCfg), (HttpServer, gcWSListenAddr defaultCfg), (GrpcServer, gcGRPCListenAddr defaultCfg)]
      (gateway_script True True) h'"
  using empty_file_defaults[of "''{}''" "''configs/gateway.json''"]
  by (simp add: gateway_main_def quiet_day_def config_path_def NewGRPCVerifier_def client_New_def open_conn_def NewGRPCDispatcher_def
      gw_New_def push_NewServer_def defaultCfg_def)

theorem stop_can_abort_witness:
  "(\<exists>q. proc_steps (\<lambda>a. True) Not (launch [(TcpServer, gcListenTCPAddr defaultCfg), (HttpServer, gcWSListenAddr defaultCfg),
      (GrpcServer, gcGRPCListenAddr defaultCfg)] (gateway_script True True)) q
     \<and> pcExit q = Some 0 \<and> pcTold q = {..<3})
   \<and> (\<exists>q i. proc_steps (\<lambda>a. True) Not (launch [(TcpServer, gcListenTCPAddr defaultCfg), (HttpServer, gcWSListenAddr defaultCfg),
      (GrpcServer, gcGRPCListenAddr defaultCfg)] (gateway_script True True)) q
     \<and> pcExit q = Some 1 \<and> i \<in> pcClosed q \<and> i \<notin> pcTold q)"
proof -
  obtain h' where up: "start_program (\<lambda>d st. Some d) () True GatewayProgram quiet_day new_host =
      Serving [(TcpServer, gcListenTCPAddr defaultCfg), (HttpServer, gcWSListenAddr defaultCfg), (GrpcServer, gcGRPCListenAddr defaultCfg)]
        (gateway_script True True) h'"
    using gateway_on_quiet_day by blast
  have listen: "evListen quiet_day = (\<lambda>a. True)" by (simp add: quiet_day_def)
  have hyps: "all_open (evListen quiet_day) [(TcpServer, gcListenTCPAddr defaultCfg), (HttpServer, gcWSListenAddr defaultCfg),
      (GrpcServer, gcGRPCListenAddr defaultCfg)]" "documented_serve Not"
    by (simp_all add: all_open_def listen documented_serve_def)
  have "RequireInTime False \<notin> set (gateway_script True True)" by (simp add: script_defs)
  note all = stop_can_abort[OF up hyps, unfolded listen]
  obtain q where q: "proc_steps (\<lambda>a. True) Not (launch [(TcpServer, gcListenTCPAddr defaultCfg), (HttpServer, gcWSListenAddr defaultCfg),
      (GrpcServer, gcGRPCListenAddr defaultCfg)] (gateway_script True True)) q" "pcExit q = Some 0"
    using all \<open>RequireInTime False \<notin> _\<close> by blast
  then have "pcTold q = {..<3}" using all by (simp add: numeral_3_eq_3)
  then show ?thesis using q all by blast
qed

text \<open>
  \<open>cmd/dbinit\<close> reports success exactly when every statement of the script was executed, in order, on a database that could be reached.
\<close>

theorem dbinit_success:
  assumes "dbinit_loadConfig (evRead ev) (evParse ev) (config_path ev ''configs/dbinit.json'') = Inr cfg"
    and "evRead ev (dbFile cfg) = Some data" and "list_all plain_statement (splitSQLStatements data)"
  shows "dbinit_main exec open_ok ev d = (0, d') \<longleftrightarrow>
    dbDSN cfg \<noteq> '''' \<and> open_ok (dbDSN cfg) \<and> evPing ev (dbDSN cfg) \<and> run_all exec (splitSQLStatements data) d = Some d'"
  using assms(1,2) statements_executed(1)[OF assms(3), of exec 0 d d']
  by (auto simp: dbinit_main_def split: option.splits prod.splits)

end
