(* ===== verification/Grpc.thy ===== *)
theory Grpc
  imports Services UserSystem Clients GameSvc
begin

text \<open>
  The gRPC services and who registers what: \<open>register\<close> and the handlers of \<open>internal/room/service.go\<close>,
  \<open>internal/gamesvc/server.go\<close>, \<open>internal/usersystem/server.go\<close>, \<open>internal/pushgrpc/server.go\<close> and \<open>internal/bizstub/server.go\<close>. A
  handler gets the decoded request and the interceptor, and calls an operation; an operation answers a map, or \<open>None\<close> for an error. The
  routing of a call to a registered method is gRPC's: an argument, with the documented rule as the locale
  \<open>grpc_routing\<close>.
\<close>

type_synonym operation = "jobj \<Rightarrow> jobj option"
type_synonym handler = "jobj option \<Rightarrow> jobj option interceptor option \<Rightarrow> jobj option option"

record service_desc =
  sdName :: string
  sdMethods :: "(string \<times> handler) list"

subsection \<open>Handlers\<close>

definition room_handleGatewayMessageHandler :: "operation \<Rightarrow> handler" where
  "room_handleGatewayMessageHandler = unary_handler ''/room.RoomService/HandleGatewayMessage''"

definition gs_handleGatewayMessageHandler :: "operation \<Rightarrow> handler" where
  "gs_handleGatewayMessageHandler = unary_handler ''/room.RoomService/HandleGatewayMessage''"

definition createSessionHandler :: "operation \<Rightarrow> handler" where
  "createSessionHandler = unary_handler ''/game.GameControlService/CreateSession''"

definition loginHandler :: "operation \<Rightarrow> handler" where
  "loginHandler = unary_handler ''/auth.AuthService/Login''"

definition validateTokenHandler :: "operation \<Rightarrow> handler" where
  "validateTokenHandler = unary_handler ''/auth.AuthService/ValidateToken''"

definition refreshTokenHandler :: "operation \<Rightarrow> handler" where
  "refreshTokenHandler = unary_handler ''/auth.AuthService/RefreshToken''"

subsection \<open>Registration\<close>

definition registerRoomService :: "operation \<Rightarrow> service_desc" where
  "registerRoomService op =
     \<lparr>sdName = ''room.RoomService'', sdMethods = [(''HandleGatewayMessage'', room_handleGatewayMessageHandler op)]\<rparr>"

definition gs_registerRoomService :: "operation \<Rightarrow> service_desc" where
  "gs_registerRoomService op =
     \<lparr>sdName = ''room.RoomService'', sdMethods = [(''HandleGatewayMessage'', gs_handleGatewayMessageHandler op)]\<rparr>"

definition registerGameControlService :: "operation \<Rightarrow> service_desc" where
  "registerGameControlService op =
     \<lparr>sdName = ''game.GameControlService'', sdMethods = [(''CreateSession'', createSessionHandler op)]\<rparr>"

definition registerUserService :: "operation \<Rightarrow> operation \<Rightarrow> operation \<Rightarrow> service_desc" where
  "registerUserService login validate refresh =
     \<lparr>sdName = ''auth.AuthService'',
      sdMethods = [(''Login'', loginHandler login), (''ValidateToken'', validateTokenHandler validate),
                   (''RefreshToken'', refreshTokenHandler refresh)]\<rparr>"

definition registerPushService :: "operation \<Rightarrow> operation \<Rightarrow> operation \<Rightarrow> operation \<Rightarrow> service_desc" where
  "registerPushService to_player to_session to_all node_info =
     \<lparr>sdName = ''gateway.GatewayPushService'',
      sdMethods = [(''PushToPlayer'', pushToPlayerHandler to_player), (''PushToSession'', pushToSessionHandler to_session),
                   (''PushToAll'', pushToAllHandler to_all), (''GetNodeInfo'', getNodeInfoHandler node_info)]\<rparr>"

definition stub_register :: "string \<Rightarrow> string \<Rightarrow> operation \<Rightarrow> service_desc" where
  "stub_register name fullMethod op = \<lparr>sdName = name, sdMethods = [(''HandleGatewayMessage'', stub_handler fullMethod op)]\<rparr>"

text \<open>What the programs register: \<open>gamesvc.New\<close> registers two services on one server; \<open>cmd/lobby\<close> and \<open>cmd/match\<close> a stub each.\<close>

definition game_services :: "operation \<Rightarrow> operation \<Rightarrow> service_desc list" where
  "game_services create_session room_message =
     [registerGameControlService create_session, gs_registerRoomService room_message]"

definition lobby_stub :: "operation \<Rightarrow> service_desc" where
  "lobby_stub = stub_register ''lobby.LobbyService'' ''/lobby.LobbyService/HandleGatewayMessage''"

definition match_stub :: "operation \<Rightarrow> service_desc" where
  "match_stub = stub_register ''match.MatchService'' ''/match.MatchService/HandleGatewayMessage''"

subsection \<open>Calls\<close>

type_synonym grpc_router = "service_desc list \<Rightarrow> string \<Rightarrow> jobj \<Rightarrow> jobj option"

text \<open>
  The interface the clients rely on: a call of \<open>/service/method\<close> runs the handler registered under the two names. A method
  has no slash in its name; the services and the methods of one have different names.
\<close>

locale grpc_routing =
  fixes route :: grpc_router
  assumes routes: "distinct (map sdName sds) \<Longrightarrow> sd \<in> set sds \<Longrightarrow> distinct (map fst (sdMethods sd)) \<Longrightarrow> (m, h) \<in> set (sdMethods sd) \<Longrightarrow>
    CHR ''/'' \<notin> set m \<Longrightarrow> route sds (''/'' @ sdName sd @ ''/'' @ m) req = Option.bind (h (Some req) None) id"

text \<open>The server's own way: the name of a call is split at its last slash.\<close>

definition split_call :: "string \<Rightarrow> string \<times> string" where
  "split_call name =
     (let m = rev (takeWhile (\<lambda>c. c \<noteq> CHR ''/'') (rev name))
      in (take (length name - length m - 2) (tl name), m))"

definition route_by_name :: grpc_router where
  "route_by_name sds name req =
     (case split_call name of (service, m) \<Rightarrow>
        (case find (\<lambda>sd. sdName sd = service) sds of
           None \<Rightarrow> None
         | Some sd \<Rightarrow> (case map_of (sdMethods sd) m of None \<Rightarrow> None | Some h \<Rightarrow> Option.bind (h (Some req) None) id)))"

lemma takeWhile_stop: "\<forall>c \<in> set xs. P c \<Longrightarrow> \<not> P y \<Longrightarrow> takeWhile P (xs @ y # ys) = xs"
  by (induction xs) auto

lemma split_call_names:
  assumes "CHR ''/'' \<notin> set m"
  shows "split_call (''/'' @ service @ ''/'' @ m) = (service, m)"
proof -
  have "takeWhile (\<lambda>c. c \<noteq> CHR ''/'') (rev m @ CHR ''/'' # rev service @ ''/'') = rev m"
    by (rule takeWhile_stop) (use assms in auto)
  then show ?thesis by (simp add: split_call_def Let_def)
qed

lemma find_named: "distinct (map f xs) \<Longrightarrow> x \<in> set xs \<Longrightarrow> find (\<lambda>y. f y = f x) xs = Some x"
  by (induction xs) auto

interpretation by_name: grpc_routing route_by_name
proof
  fix sds :: "service_desc list" and sd m h req
  assume a: "distinct (map sdName sds)" "sd \<in> set sds" "distinct (map fst (sdMethods sd))" "(m, h) \<in> set (sdMethods sd)"
    "CHR ''/'' \<notin> set m"
  then have "map_of (sdMethods sd) m = Some h" by simp
  then show "route_by_name sds (''/'' @ sdName sd @ ''/'' @ m) req = Option.bind (h (Some req) None) id"
    unfolding route_by_name_def split_call_names[OF a(5)] using find_named[OF a(1,2)] by simp
qed

text \<open>The dispatcher of the gateway has a connection for each service.\<close>

definition dispatcher_calls :: "invoke \<Rightarrow> invoke \<Rightarrow> invoke \<Rightarrow> invoke" where
  "dispatcher_calls lobby match room method =
     (if method = ''/lobby.LobbyService/HandleGatewayMessage'' then lobby method
      else if method = ''/match.MatchService/HandleGatewayMessage'' then match method
      else room method)"

lemma unary_without_interceptor [simp]: "Option.bind (unary_handler full op (Some req) None) id = op req"
  by (simp add: unary_handler_def)

lemmas handler_defs = room_handleGatewayMessageHandler_def gs_handleGatewayMessageHandler_def createSessionHandler_def
  loginHandler_def validateTokenHandler_def refreshTokenHandler_def stub_handler_def
  pushToPlayerHandler_def pushToSessionHandler_def pushToAllHandler_def getNodeInfoHandler_def

lemmas service_defs = registerRoomService_def gs_registerRoomService_def registerGameControlService_def registerUserService_def
  registerPushService_def stub_register_def

text \<open>The name a handler passes to an interceptor is the name it is called by.\<close>

definition names_agree :: "service_desc \<Rightarrow> bool" where
  "names_agree sd \<longleftrightarrow>
     (\<forall>(m, h) \<in> set (sdMethods sd). \<exists>op. h = unary_handler (''/'' @ sdName sd @ ''/'' @ m) op)"

lemma services_named:
  "names_agree (registerRoomService op)" "names_agree (gs_registerRoomService op)" "names_agree (registerGameControlService op)"
  "names_agree (registerUserService l v r)" "names_agree (registerPushService p s a i)"
  "names_agree (lobby_stub op)" "names_agree (match_stub op)"
  by (auto simp: names_agree_def service_defs handler_defs lobby_stub_def match_stub_def)

end
