(* ===== verification/SystemSpec.thy ===== *)
theory SystemSpec
  imports Grpc GatewaySpec GameProps
begin

text \<open>
  The services put together over gRPC: the clients reach the operations they mean
  (\<open>internal/roomclient\<close>, \<open>gameclient\<close>, \<open>authclient\<close>, \<open>userclient\<close>, \<open>gatewaypushclient\<close>, \<open>serviceproxy\<close>), and a player at
  the gateway acts in the rooms of the game service (\<open>internal/gamesvc\<close>) for nobody else.
\<close>

subsection \<open>Clients and services\<close>

lemmas service_text = service_defs game_services_def lobby_stub_def match_stub_def

definition method_table :: "service_desc list \<Rightarrow> (string \<times> handler) list" where
  "method_table sds = concat (map (\<lambda>sd. map (\<lambda>(m, h). (''/'' @ sdName sd @ ''/'' @ m, h)) (sdMethods sd)) sds)"

definition services_ok :: "service_desc list \<Rightarrow> bool" where
  "services_ok sds \<longleftrightarrow> distinct (map sdName sds)
     \<and> list_all (\<lambda>sd. distinct (map fst (sdMethods sd)) \<and> list_all (\<lambda>(m, h). CHR ''/'' \<notin> set m) (sdMethods sd)) sds"

context grpc_routing
begin

lemma routed_by_table:
  assumes "services_ok sds" and "map_of (method_table sds) method = Some (unary_handler full op)"
  shows "route sds method req = op req"
proof -
  obtain sd m where "sd \<in> set sds" "(m, unary_handler full op) \<in> set (sdMethods sd)" "method = ''/'' @ sdName sd @ ''/'' @ m"
    using map_of_SomeD[OF assms(2)] by (auto simp: method_table_def)
  then show ?thesis
    using routes[of sds sd m "unary_handler full op" req] assms(1) by (fastforce simp: services_ok_def list_all_iff)
qed

lemma calls_routed:
  shows "route (game_services cs rm) ''/room.RoomService/HandleGatewayMessage'' req = rm req"
    and "route (game_services cs rm) ''/game.GameControlService/CreateSession'' req = cs req"
    and "route [registerRoomService op] ''/room.RoomService/HandleGatewayMessage'' req = op req"
    and "route [registerUserService l v r] ''/auth.AuthService/Login'' req = l req"
    and "route [registerUserService l v r] ''/auth.AuthService/ValidateToken'' req = v req"
    and "route [registerUserService l v r] ''/auth.AuthService/RefreshToken'' req = r req"
    and "route [registerPushService p s a i] ''/gateway.GatewayPushService/PushToAll'' req = a req"
    and "route [lobby_stub op] ''/lobby.LobbyService/HandleGatewayMessage'' req = op req"
    and "route [match_stub op] ''/match.MatchService/HandleGatewayMessage'' req = op req"
  by (rule routed_by_table; simp add: services_ok_def method_table_def service_text handler_defs)+

end

text \<open>
  Every client reaches the operation it means, and the dispatcher of the gateway reaches the stubs and the rooms of the game service.
\<close>

theorem clients_reach_services:
  assumes "grpc_routing route"
  shows "roomclient_Call (route (game_services cs rm)) p msg body = rm (room_request p msg body)
    \<and> gameclient_CreateSession (route (game_services cs rm)) rid ps = cs (session_request rid ps)
    \<and> authclient_Login (route [registerUserService l v r]) u pw = l [(''username'', JStr u), (''password'', JStr pw)]
    \<and> VerifyToken (route [registerUserService l v r]) tok = VerifyToken (\<lambda>method. v) tok
    \<and> RefreshToken (route [registerUserService l v r]) tok = RefreshToken (\<lambda>method. r) tok
    \<and> pushclient_PushToAll (route [registerPushService tp ts ta ni]) cmd payload
        = ta [(''cmd'', jint (uint cmd)), (''payload'', JObj payload)]
    \<and> Dispatch (dispatcher_calls (route [lobby_stub lo]) (route [match_stub mo]) (route (game_services cs rm))) p env calls
        = Dispatch (dispatcher_calls (\<lambda>method. lo) (\<lambda>method. mo) (\<lambda>method. rm)) p env calls"
  using grpc_routing.calls_routed[OF assms]
  by (simp add: roomclient_Call_def gameclient_CreateSession_def authclient_Login_def VerifyToken_def RefreshToken_def
      pushclient_PushToAll_def Dispatch_def dispatcher_calls_def Let_def)

subsection \<open>Rooms through the gateway\<close>

text \<open>The operation of the game service's rooms at a moment, and the server after it.\<close>

definition room_operation :: "int \<Rightarrow> int \<Rightarrow> game_server \<Rightarrow> operation" where
  "room_operation now nowS gs req = Some (toMap (fst (gateway_HandleGatewayMessage now nowS (Some req) gs)))"

definition room_operation_after :: "int \<Rightarrow> int \<Rightarrow> jobj \<Rightarrow> game_server \<Rightarrow> game_server" where
  "room_operation_after now nowS req gs = snd (gateway_HandleGatewayMessage now nowS (Some req) gs)"

text \<open>The gateway with a dispatcher to the stubs and to the rooms of the game service.\<close>

definition with_rooms ::
  "grpc_router \<Rightarrow> operation \<Rightarrow> operation \<Rightarrow> operation \<Rightarrow> int \<Rightarrow> int \<Rightarrow> game_server \<Rightarrow> gw_services \<Rightarrow> gw_services" where
  "with_rooms route lo mo cs now nowS gs sv =
     sv\<lparr>svInvoke := dispatcher_calls (route [lobby_stub lo]) (route [match_stub mo])
                     (route (game_services cs (room_operation now nowS gs)))\<rparr>"

text \<open>
  A round of a connection of the gateway, with the game service it may call: the service sees the
  calls the round adds to the trace, with the requests the gateway has put in them.
\<close>

definition receive_call :: "int \<Rightarrow> int \<Rightarrow> game_server \<Rightarrow> string \<times> jobj \<Rightarrow> game_server" where
  "receive_call now nowS gs call =
     (if fst call = ''/room.RoomService/HandleGatewayMessage'' then room_operation_after now nowS (snd call) gs else gs)"

definition system_round ::
  "grpc_router \<Rightarrow> operation \<Rightarrow> operation \<Rightarrow> operation \<Rightarrow> int \<Rightarrow> int \<Rightarrow> gw_services \<Rightarrow> (nat \<Rightarrow> bool) \<Rightarrow> 32 word \<Rightarrow> string
     \<Rightarrow> int \<Rightarrow> int \<Rightarrow> int \<Rightarrow> nat \<Rightarrow> read_event \<Rightarrow> gateway \<Rightarrow> game_server \<Rightarrow> bool \<times> gateway \<times> game_server" where
  "system_round route lo mo cs now nowS sv io ps clock aut idl wall sid ev g gs =
     (case handleConn_round (with_rooms route lo mo cs now nowS gs sv) io ps clock aut idl wall sid ev g of
        (go, g') \<Rightarrow> (go, g', foldl (receive_call now nowS) gs (drop (length (gwCalls g)) (gwCalls g'))))"

text \<open>The calls a packet leads to: none, or one for the player of the session, which is logged in.\<close>

definition own_calls :: "gw_session \<Rightarrow> (string \<times> jobj) list \<Rightarrow> bool" where
  "own_calls s calls \<longleftrightarrow> calls = [] \<or>
     gwAuthenticated s \<and> (\<exists>call. calls = [call] \<and> as_string (jget (snd call) ''player_id'') = gwPlayerID s)"

lemma writePacket_calls [simp]: "gwCalls (snd (writePacket io i pkt g)) = gwCalls g"
  by (simp add: writePacket_eq)

lemma bind_calls [simp]: "gwCalls (bindUniquePlayerSession io ps s g) = gwCalls g"
  by (simp add: bind_defs Let_def split: option.split)

lemma Dispatch_calls:
  "\<exists>calls. snd (Dispatch invoke p env calls0) = calls0 @ calls
     \<and> (calls = [] \<or> (\<exists>call. calls = [call] \<and> as_string (jget (snd call) ''player_id'') = p))"
  by (auto simp: Dispatch_def Let_def)

lemma handleGameMessage_calls:
  "\<exists>calls. gwCalls (snd (handleGameMessage sv io s pkt g)) = gwCalls g @ calls \<and> own_calls s calls"
proof (cases "gwAuthenticated s \<and> (\<exists>env. svParseRoute sv (pktPayload pkt) = Some env \<and> ServiceID env \<noteq> 0
    \<and> MsgID env \<noteq> 0 \<and> ServiceID env \<noteq> ServiceAuth)")
  case False
  then have "gwCalls (snd (handleGameMessage sv io s pkt g)) = gwCalls g"
    by (auto simp: handleGameMessage_def Let_def split: option.split)
  then show ?thesis by (simp add: own_calls_def)
next
  case True
  then obtain env where env: "gwAuthenticated s" "svParseRoute sv (pktPayload pkt) = Some env" "ServiceID env \<noteq> 0"
    "MsgID env \<noteq> 0" "ServiceID env \<noteq> ServiceAuth" by blast
  obtain res calls0 where d: "Dispatch (svInvoke sv) (gwPlayerID s) env (gwCalls g) = (res, calls0)" by fastforce
  have "gwCalls (snd (handleGameMessage sv io s pkt g)) = calls0"
    using env by (simp add: handleGameMessage_def Let_def d split: sum.split option.split)
  then show ?thesis using Dispatch_calls[of "svInvoke sv" "gwPlayerID s" env "gwCalls g"] env(1) d by (auto simp: own_calls_def)
qed

lemma dispatch_calls:
  "\<exists>calls. gwCalls (snd (dispatch_packet sv io ps clock s pkt g)) = gwCalls g @ calls \<and> own_calls s calls"
proof (cases "pktCmd pkt = CmdGameMessage")
  case True
  then show ?thesis using handleGameMessage_calls by (simp add: dispatch_packet_def cmd_defs)
next
  case False
  then have "gwCalls (snd (dispatch_packet sv io ps clock s pkt g)) = gwCalls g"
    by (auto simp: dispatch_packet_def handleAuth_def handleHeartbeat_def put_gw_session_def Let_def split: option.split prod.split)
  then show ?thesis by (simp add: own_calls_def)
qed

lemma round_calls:
  assumes "mget (gwHeap g) sid = Some s"
  shows "\<exists>calls. gwCalls (snd (handleConn_round sv io ps clock aut idl wall sid ev g)) = gwCalls g @ calls \<and> own_calls s calls"
proof (cases ev)
  case (GotPacket pkt)
  then show ?thesis
    using dispatch_calls[of sv io ps clock "s\<lparr>gwLastSeen := wall\<rparr>" pkt "put_gw_session (s\<lparr>gwLastSeen := wall\<rparr>) g"] assms
    by (auto simp: handleConn_round_def own_calls_def put_gw_session_def Let_def split: prod.split)
qed (use assms in \<open>simp_all add: handleConn_round_def own_calls_def\<close>)

text \<open>What the room service does for one player leaves the others alone.\<close>

definition same_for :: "string \<Rightarrow> game_server \<Rightarrow> game_server \<Rightarrow> bool" where
  "same_for q gs gs' \<longleftrightarrow>
     mget (mgPlayerRoom (gsRoomMgr gs')) q = mget (mgPlayerRoom (gsRoomMgr gs)) q
     \<and> mget (gsRoomOfPlayer gs') q = mget (gsRoomOfPlayer gs) q
     \<and> mget (gsRoomLastHB gs') q = mget (gsRoomLastHB gs) q
     \<and> mget (gsRoomWS gs') q = mget (gsRoomWS gs) q
     \<and> gsSessions gs' = gsSessions gs \<and> gsWSConns gs' = gsWSConns gs"

lemma same_for_refl [simp]: "same_for q gs gs"
  by (simp add: same_for_def)

lemma room_ops_others:
  assumes "wf_manager m" and "q \<noteq> p"
  shows "mget (mgPlayerRoom (snd (CreateRoom now p name c m))) q = mget (mgPlayerRoom m) q"
    and "mget (mgPlayerRoom (snd (JoinRoom now p k m))) q = mget (mgPlayerRoom m) q"
    and "mget (mgPlayerRoom (snd (StartGame now p m))) q = mget (mgPlayerRoom m) q"
    and "mget (mgPlayerRoom (snd (LeaveRoom now p m))) q = mget (mgPlayerRoom m) q"
  using assms(2) LeaveRoom_index[OF assms(1), of now p]
  by (auto simp: CreateRoom_def JoinRoom_def StartGame_def store_room_def Let_def split: option.split sum.split)

lemma answer_room_same: "mget (mgPlayerRoom (snd res)) q = mget (mgPlayerRoom (gsRoomMgr gs)) q \<Longrightarrow> same_for q gs (snd (answer_room res gs))"
  by (cases res; cases "fst res") (auto simp: answer_room_def room_answer_def same_for_def)

lemma forget_same: "q \<noteq> p \<Longrightarrow> same_for q gs (forget_room_player p gs)"
  by (auto simp: forget_room_player_def same_for_def close_old_def close_conn_def Let_def split: option.split)

lemma same_for_trans: "same_for q a b \<Longrightarrow> same_for q b c \<Longrightarrow> same_for q a c"
  by (simp add: same_for_def)

lemma room_message_others:
  assumes wf: "wf_manager (gsRoomMgr gs)" and q: "q \<noteq> as_string (jget req ''player_id'')"
  shows "same_for q gs (snd (gateway_HandleGatewayMessage now nowS (Some req) gs))"
proof -
  note ops = room_ops_others[OF wf q]
  have leave: "same_for q gs (snd (case LeaveRoom now p (gsRoomMgr gs) of
        (Inl err, m) \<Rightarrow> (mapResp 300 (room_error_text err) [], gs\<lparr>gsRoomMgr := m\<rparr>)
      | (Inr r, m) \<Rightarrow> (mapResp 0 ''ok'' [(''room'', JObj (roomToMap r))], forget_room_player p (gs\<lparr>gsRoomMgr := m\<rparr>))))"
    if "p = as_string (jget req ''player_id'')" for p
  proof -
    have "same_for q gs (gs\<lparr>gsRoomMgr := snd (LeaveRoom now p (gsRoomMgr gs))\<rparr>)"
      using ops(4) by (simp add: same_for_def that)
    then show ?thesis
      using forget_same[of q p] q that
      by (cases "LeaveRoom now p (gsRoomMgr gs)"; cases "fst (LeaveRoom now p (gsRoomMgr gs))") (auto intro: same_for_trans)
  qed
  show ?thesis
    unfolding gateway_HandleGatewayMessage_def Let_def
    using leave[OF refl] answer_room_same[OF ops(1)] answer_room_same[OF ops(2)] answer_room_same[OF ops(3)] by simp
qed

lemma token_valid_with_rooms [simp]: "token_valid (with_rooms route lo mo cs now nowS gs sv) = token_valid sv"
  by (simp add: fun_eq_iff token_valid_def with_rooms_def)

text \<open>
  C26: players act for themselves. In the gateway and the game service put together, whatever packet a
  connection delivers, with whatever player or body it names: an unauthenticated session makes no call to any service
  and changes nothing in the game service; an authenticated one holds a valid token of its player, makes one call at
  most, with its own player in the request, and its message changes room, registration, heartbeat and connections of
  no other player, nor any session of a game. Both services keep their invariants.
\<close>

theorem players_act_for_themselves:
  assumes "gateway_ok (token_valid sv) g" and "server_ok t gs" and "t < now" and "mget (gwHeap g) sid = Some s"
    and "system_round route lo mo cs now nowS sv io ps clock aut idl wall sid ev g gs = (go, g', gs')"
  shows "gateway_ok (token_valid sv) g' \<and> server_ok now gs'
    \<and> (gwAuthenticated s \<longrightarrow> token_valid sv (gwToken s) (gwPlayerID s))
    \<and> (\<not> gwAuthenticated s \<longrightarrow> gwCalls g' = gwCalls g \<and> gs' = gs)
    \<and> (\<exists>calls. gwCalls g' = gwCalls g @ calls \<and> length calls \<le> 1
        \<and> (\<forall>call \<in> set calls. as_string (jget (snd call) ''player_id'') = gwPlayerID s))
    \<and> (\<forall>q. q \<noteq> gwPlayerID s \<longrightarrow> same_for q gs gs')"
proof -
  let ?sv = "with_rooms route lo mo cs now nowS gs sv"
  have g': "g' = snd (handleConn_round ?sv io ps clock aut idl wall sid ev g)"
    and gs': "gs' = foldl (receive_call now nowS) gs (drop (length (gwCalls g)) (gwCalls g'))"
    using assms(5) by (auto simp: system_round_def split: prod.splits)
  have ok: "gateway_ok (token_valid sv) g'"
    using gateway_ok_round[OF assms(1), of ?sv io ps clock aut idl wall sid ev] g' by simp
  have token: "gwAuthenticated s \<longrightarrow> token_valid sv (gwToken s) (gwPlayerID s)"
    using assms(1,4) by (auto simp: gateway_ok_def gw_session_ok_def)
  obtain calls where calls: "gwCalls g' = gwCalls g @ calls" "own_calls s calls"
    using round_calls[OF assms(4), of ?sv io ps clock aut idl wall ev] g' by blast
  have after: "gs' = foldl (receive_call now nowS) gs calls" using gs' calls(1) by simp
  have now: "server_ok now gs" using assms(2,3) server_ok_mono by (simp add: less_imp_le)
  have step: "server_ok now (snd (gateway_HandleGatewayMessage now nowS (Some req) gs))" for req
    by (rule server_ok_gateway[OF assms(2,3)])
  have others: "q \<noteq> as_string (jget req ''player_id'') \<Longrightarrow>
      same_for q gs (snd (gateway_HandleGatewayMessage now nowS (Some req) gs))" for q req
    using assms(2) by (intro room_message_others) (simp add: server_ok_def)
  show ?thesis
  proof (cases "calls = []")
    case True
    then show ?thesis using ok token calls(1) after now by simp
  next
    case False
    then obtain call where call: "gwAuthenticated s" "calls = [call]" "as_string (jget (snd call) ''player_id'') = gwPlayerID s"
      using calls(2) by (auto simp: own_calls_def)
    then have "gs' = receive_call now nowS gs call" using after by simp
    then show ?thesis using ok token call calls(1) now step others by (simp add: receive_call_def room_operation_after_def)
  qed
qed

text \<open>Ann, online at the gateway, opens a room with her message; nothing changes for bob.\<close>

definition room_desk :: gw_services where
  "room_desk = desk\<lparr>svParseRoute := (\<lambda>b. Some \<lparr>ServiceID = ServiceRoom, MsgID = RoomMsgCreateRoom, Body = [(''name'', JStr ''duel'')]\<rparr>)\<rparr>"

lemma ann_opens_a_room:
  "mhas (mgPlayerRoom (gsRoomMgr (snd (snd (system_round (\<lambda>sds method req. None) (\<lambda>req. None) (\<lambda>req. None) (\<lambda>req. None)
     7 0 room_desk (\<lambda>_. False) 0 ''0'' 10 60 1 1 (GotPacket (reply CmdGameMessage 1 [3])) ann_online (new_game_server 0 '''' 0)))))) ''ann''"
  using ann_online_view(1) msg_id_received[of 1001]
  by (simp add: system_round_def receive_call_def room_operation_after_def gateway_HandleGatewayMessage_def
      handleConn_round_def dispatch_packet_def handleGameMessage_def Dispatch_def with_rooms_def dispatcher_calls_def put_gw_session_def
      writePacket_eq cmd_defs ServiceAuth_def answer_room_def room_answer_def CreateRoom_def new_game_server_def NewManager_def room_desk_def reply_def ServiceRoom_def ServiceLobby_def
      ServiceMatch_def room_msgs mhas_def Let_def split_beta)

theorem players_act_for_themselves_witness:
  "mhas (mgPlayerRoom (gsRoomMgr (snd (snd (system_round (\<lambda>sds method req. None) (\<lambda>req. None) (\<lambda>req. None) (\<lambda>req. None)
     7 0 room_desk (\<lambda>_. False) 0 ''0'' 10 60 1 1 (GotPacket (reply CmdGameMessage 1 [3])) ann_online (new_game_server 0 '''' 0)))))) ''ann''
   \<and> same_for ''bob'' (new_game_server 0 '''' 0) (snd (snd (system_round (\<lambda>sds method req. None) (\<lambda>req. None) (\<lambda>req. None) (\<lambda>req. None)
     7 0 room_desk (\<lambda>_. False) 0 ''0'' 10 60 1 1 (GotPacket (reply CmdGameMessage 1 [3])) ann_online (new_game_server 0 '''' 0))))"
proof -
  have "token_valid room_desk = token_valid desk" by (simp add: fun_eq_iff token_valid_def room_desk_def)
  then have g: "gateway_ok (token_valid room_desk) ann_online" using gw_history_ok[OF desk_reachable(2)] by simp
  have s: "server_ok 0 (new_game_server 0 '''' 0)"
    using wf_manager_new[of 0] by (simp add: server_ok_def new_game_server_def ids_before_def NewManager_def)
  obtain go g' gs' where r: "system_round (\<lambda>sds method req. None) (\<lambda>req. None) (\<lambda>req. None) (\<lambda>req. None)
     7 0 room_desk (\<lambda>_. False) 0 ''0'' 10 60 1 1 (GotPacket (reply CmdGameMessage 1 [3])) ann_online (new_game_server 0 '''' 0)
      = (go, g', gs')" by (metis prod_cases3)
  show ?thesis
    using players_act_for_themselves[OF g s _ ann_online_view(1) r] ann_opens_a_room unfolding r by simp
qed

text \<open>
  What the player asks for happens: with the services routed by gRPC, a message that joins a room the player can join
  seats the player there, and the answer of the room service goes back on the same connection.
\<close>

theorem join_through_gateway:
  assumes "grpc_routing route" and "gateway_ok (token_valid sv) g" and "mget (gwHeap g) sid = Some s" and "gwAuthenticated s"
    and "pktCmd pkt = CmdGameMessage"
    and "svParseRoute sv (pktPayload pkt) = Some \<lparr>ServiceID = ServiceRoom, MsgID = RoomMsgJoinRoom, Body = [(''room_id'', JStr rid)]\<rparr>"
    and "JoinRoom now (gwPlayerID s) rid (gsRoomMgr gs) = (Inr r, m')"
    and "svMarshal sv (toMap (mapResp 0 ''ok'' [(''room'', JObj (roomToMap r))])) = Some data"
    and "deliverable io (reply CmdGameMessage (pktSeq pkt) data) g sid"
    and "system_round route lo mo cs now nowS sv io ps clock aut idl wall sid (GotPacket pkt) g gs = (go, g', gs')"
  shows "go \<and> gwOut g' = gwOut g @ [(sid, reply CmdGameMessage (pktSeq pkt) data)]
    \<and> mget (mgPlayerRoom (gsRoomMgr gs')) (gwPlayerID s) = Some rid"
proof -
  let ?s = "s\<lparr>gwLastSeen := wall\<rparr>"
  let ?env = "\<lparr>ServiceID = ServiceRoom, MsgID = RoomMsgJoinRoom, Body = [(''room_id'', JStr rid)]\<rparr>"
  let ?req = "[(''player_id'', JStr (gwPlayerID s)), (''msg_id'', jint (uint RoomMsgJoinRoom)), (''body'', JObj [(''room_id'', JStr rid)])]"
  let ?g = "put_gw_session ?s g\<lparr>gwCalls := gwCalls g @ [(''/room.RoomService/HandleGatewayMessage'', ?req)]\<rparr>"
  have id: "gwID s = sid" "gwPlayerID s \<noteq> ''''" using assms(2-4) by (auto simp: gateway_ok_def gw_session_ok_def)
  have join: "gateway_HandleGatewayMessage now nowS (Some ?req) gs
      = (mapResp 0 ''ok'' [(''room'', JObj (roomToMap r))], gs\<lparr>gsRoomMgr := m'\<rparr>)"
    using assms(7) id(2) unfolding gateway_HandleGatewayMessage_def Let_def
    by (simp add: msg_id_received answer_room_def room_answer_def) (simp add: room_msgs)
  have answer: "dispatch_packet (with_rooms route lo mo cs now nowS gs sv) io ps clock ?s pkt (put_gw_session ?s g)
      = writePacket io sid (reply CmdGameMessage (pktSeq pkt) data) ?g"
    using assms(4-6,8) id join grpc_routing.calls_routed(1)[OF assms(1), of cs]
    by (simp add: dispatch_packet_def cmd_defs handleGameMessage_def with_rooms_def Dispatch_def dispatcher_calls_def
        room_operation_def put_gw_session_def ServiceRoom_def ServiceLobby_def ServiceMatch_def ServiceAuth_def RoomMsgJoinRoom_def)
  have "mget (mgPlayerRoom m') (gwPlayerID s) = Some rid"
    using assms(7) by (auto simp: JoinRoom_def store_room_def Let_def split: if_splits option.splits)
  then show ?thesis
    using assms(3,9,10) answer join
    by (auto simp: system_round_def receive_call_def handleConn_round_def room_operation_after_def writePacket_eq deliverable_def put_gw_session_def Let_def)
qed

end
