(* ===== verification/Pages.thy ===== *)
theory Pages
  imports Mono Ui
begin

text \<open>
  The HTTP servers: which handler serves which path (\<open>NewServer\<close> and \<open>New\<close> of \<open>internal/ui\<close>, \<open>internal/mono\<close>,
  \<open>internal/gamesvc\<close>, \<open>internal/usersystem\<close>, \<open>StartWS\<close> of \<open>internal/gateway\<close>) and the pages. The patterns are
  registered with \<open>ServeMux\<close>: a pattern without a slash at its end serves that path, the pattern \<open>/\<close> serves every other; registering a
  pattern twice panics. Reading a file is an argument.
\<close>

subsection \<open>Serving a path\<close>

definition mux :: "(string \<times> 'h) list \<Rightarrow> string \<Rightarrow> 'h option" where
  "mux routes path = (case map_of routes path of Some h \<Rightarrow> Some h | None \<Rightarrow> map_of routes ''/'')"

datatype page_handler = PgIndex | PgLobby | PgRoom | PgGame | PgCSS | PgLoginJS | PgLobbyJS | PgRoomJS | PgGameJS

datatype ui_handler =
  UiPage page_handler | UiLogin | UiRooms | UiJoinRoom | UiRoomDetail | UiStartGame | UiLeaveRoom | UiRoomEvents
| UiLobbyWS | UiGameState | UiGameFire | UiGameWS

definition ui_routes :: "(string \<times> ui_handler) list" where
  "ui_routes =
     [(''/'', UiPage PgIndex), (''/lobby'', UiPage PgLobby), (''/room'', UiPage PgRoom), (''/game'', UiPage PgGame),
      (''/assets/app.css'', UiPage PgCSS), (''/assets/login.js'', UiPage PgLoginJS), (''/assets/lobby.js'', UiPage PgLobbyJS),
      (''/assets/room.js'', UiPage PgRoomJS), (''/assets/game.js'', UiPage PgGameJS),
      (''/api/login'', UiLogin), (''/api/lobby/rooms'', UiRooms), (''/api/lobby/join'', UiJoinRoom), (''/api/lobby/room'', UiRoomDetail),
      (''/api/lobby/start'', UiStartGame), (''/api/lobby/leave'', UiLeaveRoom), (''/api/lobby/room/events'', UiRoomEvents),
      (''/ws/lobby'', UiLobbyWS), (''/api/lobby/game/state'', UiGameState), (''/api/lobby/game/fire'', UiGameFire),
      (''/ws/game'', UiGameWS)]"

datatype mono_handler =
  MoPage page_handler | MoHealthz | MoLogin | MoRooms | MoJoin | MoLeave | MoRoomDetail | MoStart | MoWSLobby | MoWSRoom

definition mono_routes :: "(string \<times> mono_handler) list" where
  "mono_routes =
     [(''/'', MoPage PgIndex), (''/lobby'', MoPage PgLobby), (''/room'', MoPage PgRoom), (''/game'', MoPage PgGame),
      (''/assets/app.css'', MoPage PgCSS), (''/assets/login.js'', MoPage PgLoginJS), (''/assets/lobby.js'', MoPage PgLobbyJS),
      (''/assets/room.js'', MoPage PgRoomJS), (''/assets/game.js'', MoPage PgGameJS), (''/healthz'', MoHealthz),
      (''/api/login'', MoLogin), (''/api/lobby/rooms'', MoRooms), (''/api/lobby/join'', MoJoin), (''/api/lobby/leave'', MoLeave),
      (''/api/lobby/room'', MoRoomDetail), (''/api/lobby/start'', MoStart), (''/ws/lobby'', MoWSLobby), (''/ws/room'', MoWSRoom)]"

datatype gs_handler = GsWSGame | GsWSRoom | GsHealthz

definition game_routes :: "(string \<times> gs_handler) list" where
  "game_routes = [(''/ws/game'', GsWSGame), (''/ws/room'', GsWSRoom), (''/healthz'', GsHealthz)]"

datatype us_handler = UsLogin | UsHealthz

definition us_routes :: "(string \<times> us_handler) list" where
  "us_routes = [(''/login'', UsLogin), (''/healthz'', UsHealthz)]"

datatype gw_handler = GwLobbyWS

definition gw_routes :: "(string \<times> gw_handler) list" where
  "gw_routes = [(''/ws/lobby'', GwLobbyWS)]"

subsection \<open>The pages of the all-in-one server\<close>

definition mono_serveFile :: "(string \<Rightarrow> nat list option) \<Rightarrow> string \<Rightarrow> string \<Rightarrow> page_reply" where
  "mono_serveFile read_file rel contentType =
     (case read_file rel of None \<Rightarrow> PageFileMissing | Some data \<Rightarrow> Page contentType data)"

fun mono_page :: "(string \<Rightarrow> nat list option) \<Rightarrow> page_handler \<Rightarrow> string \<Rightarrow> page_reply" where
  "mono_page read_file PgIndex path =
     (if path \<noteq> ''/'' then PageNotFound else mono_serveFile read_file ''web/login.html'' ''text/html; charset=utf-8'')"
| "mono_page read_file PgLobby path = mono_serveFile read_file ''web/lobby.html'' ''text/html; charset=utf-8''"
| "mono_page read_file PgRoom path = mono_serveFile read_file ''web/room.html'' ''text/html; charset=utf-8''"
| "mono_page read_file PgGame path = mono_serveFile read_file ''web/game.html'' ''text/html; charset=utf-8''"
| "mono_page read_file PgCSS path = mono_serveFile read_file ''web/assets/app.css'' ''text/css; charset=utf-8''"
| "mono_page read_file PgLoginJS path = mono_serveFile read_file ''web/assets/login.js'' ''application/javascript; charset=utf-8''"
| "mono_page read_file PgLobbyJS path = mono_serveFile read_file ''web/assets/lobby.js'' ''application/javascript; charset=utf-8''"
| "mono_page read_file PgRoomJS path = mono_serveFile read_file ''web/assets/room.js'' ''application/javascript; charset=utf-8''"
| "mono_page read_file PgGameJS path = mono_serveFile read_file ''web/assets/game.js'' ''application/javascript; charset=utf-8''"

text \<open>The body of a health check, the same in three servers.\<close>

definition handleHealthz :: string where
  "handleHealthz = ''{'' @ [CHR 0x22] @ ''status'' @ [CHR 0x22] @ '':'' @ [CHR 0x22] @ ''ok'' @ [CHR 0x22] @ ''}''"

subsection \<open>Properties\<close>

text \<open>No pattern is registered twice, so no server panics when it is made.\<close>

lemma routes_distinct:
  "distinct (map fst ui_routes)" "distinct (map fst mono_routes)" "distinct (map fst game_routes)" "distinct (map fst us_routes)"
  by (simp_all add: ui_routes_def mono_routes_def game_routes_def us_routes_def)

text \<open>A server with a handler for \<open>/\<close> answers every path, the others only their own.\<close>

lemma mux_total: "map_of routes ''/'' = Some h \<Longrightarrow> mux routes path \<noteq> None"
  by (simp add: mux_def split: option.split)

lemma mux_own: "map_of routes ''/'' = None \<Longrightarrow> mux routes path = map_of routes path"
  by (simp add: mux_def split: option.split)

text \<open>
  Both servers answer a page's path with the same file, and a path neither knows with not found: the lobby's pages,
  given above by path, are those of the all-in-one server.
\<close>

theorem same_pages:
  assumes "mux ui_routes path = Some (UiPage pg)" and "mux mono_routes path = Some (MoPage pg')"
  shows "ui_page read_file path = mono_page read_file pg' path"
  using assms
  by (auto simp: mux_def ui_routes_def mono_routes_def ui_page_def serveFile_def mono_serveFile_def html_type_def js_type_def
      split: if_splits option.splits)

text \<open>A page is served exactly when its file can be read; the index only for its own path.\<close>

theorem page_served:
  "mono_page read_file pg path = Page ct data \<Longrightarrow> \<exists>rel. read_file rel = Some data"
  "mux ui_routes path = Some (UiPage PgIndex) \<Longrightarrow> path \<noteq> ''/'' \<Longrightarrow> ui_page read_file path = PageNotFound"
  by (cases pg; auto simp: mono_serveFile_def split: if_splits option.splits)
    (auto simp: mux_def ui_routes_def ui_page_def split: if_splits option.splits)

end
