(* ===== verification/Spec2Isabelle.thy ===== *)
theory Spec2Isabelle
  imports EngineSpec PacketSpec RoomSpec GameSpec GatewaySpec MonoSpec UserSpec UiSpec PushSpec Services ConfigSpec ProgramsSpec LifecycleSpec MainsSpec SystemSpec Pages
begin

text \<open>
  Verification of the puzzle-bubble game server, a set of Go services in which players meet in
  rooms and shoot coloured bubbles at a hexagonal board each, until one is left.

  \<^bold>\<open>The program\<close>

  The rules of the game are the package \<open>internal/gameplay\<close>: a player's state, the shots, landings,
  matches, layers and the end. Around it are two arrangements of servers. In the first, a client talks to the
  gateway (\<open>internal/gateway\<close>) in binary packets (\<open>internal/protocol\<close>). The gateway asks the user
  service (\<open>internal/usersystem\<close>, client \<open>internal/userclient\<close>) about tokens, forwards game messages
  through the dispatcher (\<open>internal/serviceproxy\<close>) to the room service (\<open>internal/room\<close>) or a stub
  (\<open>internal/bizstub\<close>), and takes pushes from the other services (\<open>internal/pushgrpc\<close>). The web
  lobby (\<open>internal/ui\<close>) caches the rooms of the room service, opens sessions in the game service
  (\<open>internal/gamesvc\<close>), where the players then play, and sends news to all players through the push
  service; it reaches the others through the clients \<open>internal/roomclient\<close>, \<open>internal/gameclient\<close>,
  \<open>internal/authclient\<close> and \<open>internal/gatewaypushclient\<close>. In the second arrangement one process
  (\<open>internal/mono\<close>) does the login, the lobby and the games on its own with a SQL database.
  \<open>internal/game\<close> is a message router that nothing calls.

  \<^bold>\<open>Conventions\<close>

  \<^item> A struct is a record and a Go \<open>map\<close> an association list with distinct keys whose order is the
    order of the next \<open>range\<close>; no theorem relies on it, and the step relations may permute it (Prelude).
  \<^item> \<open>float64\<close> is binary64 with one rounding per operation (GoFloat). Sequence numbers, scores, frames, commands
    and other fields that are counted up or cut to a width are words (\<open>ShotSeq\<close>, \<open>Score\<close> and \<open>rCmdSeq\<close> 64 bits).
    Go's \<open>int\<close> where it counts cells, players and colours, and readings of the clock, are \<open>int\<close>; the difference of two
    readings in \<open>TickState\<close> wraps at 64 bits (\<open>wrap64\<close>), sums like a deadline plus a lifetime do not.
  \<^item> The clock, random draws and random bytes, cosine and sine, Redis, the SQL database, gRPC calls
    and JSON coding of payloads are arguments, an error of theirs being a value. Connections, channels
    and sessions are identifiers; \<open>io\<close> tells which writes fail.
  \<^item> An error result is \<open>Inl\<close> or a tagged answer, a nil pointer that is read is the result \<open>None\<close>. A request
    holds what the decoder made of its body, so that malformed bodies are one of its values.
  \<^item> A method that holds its mutex is one step. Some handlers release the lock and take it again. The start of a
    game in the lobby is modelled as its two halves only (\<open>ui_start_begin\<close>, \<open>ui_start_commit\<close>), each on a state of its own. The
    others are one definition, that is a run without interference: \<open>accept_room\<close>, \<open>ui_handleLeaveRoom\<close> (lobby), \<open>readWS\<close>,
    \<open>runSingleRoomHeartbeatMonitor\<close> (game service), \<open>mono_handleWSRoom\<close> and the authentication before every request (all-in-one
    server), \<open>bindUniquePlayerSession\<close> and \<open>unbindPlayerSession\<close> (gateway). For these the step relations also have the parts as steps:
    \<open>ui_step\<close> (\<open>sync\<close>, \<open>lobby_notice\<close>, \<open>room_event\<close>, \<open>leave_part\<close>, \<open>close_conn\<close>, \<open>push\<close>), \<open>game_reachable\<close> (\<open>session_part\<close>, \<open>noted\<close>,
    \<open>leave_part\<close>, \<open>register_part\<close>, \<open>put_out\<close>, \<open>monitor_end\<close>), \<open>mono_step\<close> (\<open>authenticate\<close>, \<open>attach\<close>, \<open>tell\<close>), and the steps \<open>bind_load\<close>,
    \<open>bind_kick\<close>, \<open>bind_store\<close>, \<open>unbind_load\<close>, \<open>unbind_delete\<close> with any other state in between in C27
    and as \<open>kick\<close>, \<open>store\<close> and \<open>forget\<close> in \<open>gw_history\<close>. So the invariants C18, C24, C29 and C35 hold with
    interference, while C23 and C36 speak of an undisturbed round or call.
  \<^item> A packet is written to a connection whole or not at all, and two goroutines that write to one connection
    write one after the other. The code gives no such promise (\<open>writePacket\<close> writes twice and takes no lock).
  \<^item> The token service may change over time: \<open>gw_history\<close> is what a gateway has been through with services that change
    between its rounds, \<open>gw_reachable\<close> the histories in which each accepted login was one that the present service accepts (C24, C34).

  \<^bold>\<open>The theories\<close>

  \<^item> Prelude: Go maps with their read-after-write laws, loops that keep an invariant, and the locales \<open>seat_index\<close> and
    \<open>registry\<close>, a table with an index from members to its objects. GoFloat: binary64,
    its rounding and bounds. GoText: decimal texts, \<open>TrimSpace\<close>, hexadecimal texts. GoJson: dynamically typed
    values and the conversions of the services.
  \<^item> Board, Flood, Engine: \<open>engine.go\<close>. Board has the geometry and the searches for an empty cell, Flood
    the two breadth-first searches (locale \<open>cell_search\<close>, interpreted by both), Engine the state and
    every operation. Cosine and sine are arguments of which \<open>trig_ok\<close> asks their bounds on the angles from \<open>gbMinAngle\<close> to
    \<open>gbMaxAngle\<close>, to which every angle is clamped, and nothing at NaN and the infinities. EngineProps: well-formed states, the resolution of a landing, the walls, and the locale \<open>game_rules\<close>
    of what servers rely on when they keep a table of states. EngineSpec: C1 to C9.
  \<^item> Packet: \<open>packet.go\<close>, with the locale \<open>codec\<close> interpreted for integers and packets. PacketSpec: C10 and C11.
  \<^item> Room: \<open>service.go\<close> and \<open>room_msg.go\<close>. RoomProps: the invariant, the registry of players and rooms, the
    reachable states. RoomSpec: C12 to C17.
  \<^item> GameSvc: \<open>gamesvc/server.go\<close>, sessions, connections, monitors. GameProps: the invariant of a
    session, winners, reachable states. GameSpec: C18 to C23.
  \<^item> Gateway: \<open>tcp_gateway.go\<close> and \<open>dispatcher.go\<close>; a round of a connection's loop is \<open>handleConn_round\<close>.
    GatewaySpec: the invariant of sessions, the index of players, C24, C25 and C27, and \<open>login_races\<close>, what
    happens to the index without the condition of C27. Push: \<open>pushgrpc/server.go\<close>, \<open>Stop\<close> and
    \<open>SnapshotNodeInfo\<close>; PushSpec: C28, the way of a lobby's news to every connection.
  \<^item> Mono: \<open>mono/server.go\<close>. MonoProps: tables of states under \<open>game_rules\<close>, its invariant, the index of seats. MonoSpec: C29 to C32.
  \<^item> UserSystem: \<open>usersystem/server.go\<close> and \<open>grpc_verifier.go\<close>. UserSpec: C33, the service refines an
    abstract table of tokens, and C34, a login opens the gateway. Lifetimes are what the Redis client sends: milliseconds or
    seconds for \<open>SET\<close>, whole seconds for \<open>EXPIRE\<close> (\<open>set_life\<close>, \<open>expire_life\<close>).
  \<^item> Ui: \<open>ui/server.go\<close> and \<open>game_state.go\<close>. Clients: the requests of the four clients. UiProps: the
    invariant of the lobby. UiSpec: C35 to C38, its cache as a refinement of the room service's rooms, and
    the start of a game across lobby and game service, whatever happens between its halves (\<open>poll_loses_start\<close>: it may be lost).
  \<^item> Services: the router of \<open>internal/game\<close> and \<open>bizstub/server.go\<close>, with their lemmas.
  \<^item> Grpc: the handlers and registrations of all services, and the locale \<open>grpc_routing\<close> of what a call reaches, interpreted by
    routing on names. SystemSpec: every client reaches the operation it means, and C26, gateway and game service put together:
    players act for themselves.
  \<^item> Config: \<open>internal/config\<close> and \<open>internal/jsoncfg\<close> with durations and log levels; ConfigSpec: C39. Programs: the
    configurations of \<open>cmd/\<close>, SQL scripts, the address of the pages; ProgramsSpec: scripts are split and executed as written, where quoted
    texts have no semicolon.
  \<^item> Lifecycle: what a process opens and closes, the constructors, \<open>Start\<close> and \<open>Stop\<close> of every client and server. LifecycleSpec: what
    fails leaves nothing open, what is stopped gives everything back, and the places where this is not so. Mains: the main functions of
    \<open>cmd/\<close> and the interleaving of main with its servers, \<open>proc_step\<close>; MainsSpec: C40, a program that ends with code 0 has
    stopped all its servers, and every program can abort while it stops. Pages: which handler serves which path, and the pages.

  \<^bold>\<open>Loops and bounds\<close>

  Every loop is a total function; there is no fuel. A flood search ends because each round takes a
  cell off the queue and only cells not visited before are added: the cells not yet visited plus the
  queue decrease. The reader of packets recurses on the bytes left. The loop that adds
  layers ends because each round moves the next layer 10 seconds towards the clock, and no room takes more than 14
  (\<open>layers_catch_up\<close>). Identifiers made of the clock are assumed fresh in the step relations, since the code
  does not check them; \<open>CreateRoom_collision\<close> shows what happens otherwise.

  \<^bold>\<open>Not modelled\<close>

  \<^item> Sockets, TLS, websocket upgrades, flags, signals and logging: input and output without a decision of the program's
    own. Opening a listener or a connection either works or fails, and the theories say what follows. A server that fails
    while it accepts, without being stopped, is left out of \<open>proc_step\<close>.
  \<^item> Data races: writes of two goroutines to one connection or websocket outside a lock, as in the lobby's game loop and in
    the gateway's \<open>writePacket\<close>, are outside the model.
  \<^item> The HTML and JavaScript of the browser, the SQL schemas and the protobuf declarations.
\<close>

end
